theory Spec2Isabelle
  imports Complex_Main "HOL-Library.Char_ord" "HOL-Library.List_Lexorder"
begin

section \<open>JavaScript numbers and values\<close>

text \<open>
  The service is JavaScript; every amount it computes is a JavaScript Number. The
  model keeps the three special values the code can produce or test for (\<open>NaN\<close> and the
  two infinities) and takes every other number as an exact rational: rounding to the
  nearest double, overflow and the sign of zero are not modelled (a division by zero
  reads its divisor as \<open>+0\<close>).
\<close>

datatype jsnum = NaN | NInf | Fin rat | PInf

fun js_neg :: "jsnum \<Rightarrow> jsnum" where
  "js_neg NaN = NaN"
| "js_neg NInf = PInf"
| "js_neg PInf = NInf"
| "js_neg (Fin a) = Fin (- a)"

text \<open>\<open>a + b\<close> on Numbers.\<close>

fun js_add :: "jsnum \<Rightarrow> jsnum \<Rightarrow> jsnum" where
  "js_add (Fin a) (Fin b) = Fin (a + b)"
| "js_add NaN _ = NaN"
| "js_add _ NaN = NaN"
| "js_add PInf NInf = NaN"
| "js_add NInf PInf = NaN"
| "js_add PInf _ = PInf"
| "js_add _ PInf = PInf"
| "js_add NInf _ = NInf"
| "js_add _ NInf = NInf"

definition js_sub :: "jsnum \<Rightarrow> jsnum \<Rightarrow> jsnum" where
  "js_sub a b = js_add a (js_neg b)"

text \<open>The sign of a Number as \<open>-1\<close>, \<open>0\<close> or \<open>1\<close> (\<open>0\<close> for \<open>NaN\<close>).\<close>

fun js_sign :: "jsnum \<Rightarrow> int" where
  "js_sign NaN = 0"
| "js_sign NInf = - 1"
| "js_sign PInf = 1"
| "js_sign (Fin a) = (if a < 0 then - 1 else if a = 0 then 0 else 1)"

definition inf_of_sign :: "int \<Rightarrow> jsnum" where
  "inf_of_sign s = (if s = 0 then NaN else if 0 < s then PInf else NInf)"

text \<open>\<open>a * b\<close> on Numbers: an infinity times zero is \<open>NaN\<close>.\<close>

fun js_mul :: "jsnum \<Rightarrow> jsnum \<Rightarrow> jsnum" where
  "js_mul (Fin a) (Fin b) = Fin (a * b)"
| "js_mul NaN _ = NaN"
| "js_mul _ NaN = NaN"
| "js_mul a b = inf_of_sign (js_sign a * js_sign b)"

text \<open>\<open>a / b\<close> on Numbers: a finite number over zero is an infinity, \<open>0 / 0\<close> is \<open>NaN\<close>.\<close>

fun js_div :: "jsnum \<Rightarrow> jsnum \<Rightarrow> jsnum" where
  "js_div (Fin a) (Fin b) = (if b = 0 then inf_of_sign (js_sign (Fin a)) else Fin (a / b))"
| "js_div NaN _ = NaN"
| "js_div _ NaN = NaN"
| "js_div (Fin a) _ = Fin 0"
| "js_div a (Fin b) = inf_of_sign (js_sign a * (if b < 0 then - 1 else 1))"
| "js_div _ _ = NaN"

text \<open>\<open>a < b\<close> and \<open>a > b\<close> on Numbers: every comparison with \<open>NaN\<close> is false.\<close>

fun js_less :: "jsnum \<Rightarrow> jsnum \<Rightarrow> bool" where
  "js_less (Fin a) (Fin b) = (a < b)"
| "js_less NaN _ = False"
| "js_less _ NaN = False"
| "js_less PInf _ = False"
| "js_less _ NInf = False"
| "js_less _ _ = True"

definition js_gt :: "jsnum \<Rightarrow> jsnum \<Rightarrow> bool" where
  "js_gt a b = js_less b a"

text \<open>Truthiness of a Number, and \<open>n || d\<close> for a Number \<open>n\<close>.\<close>

definition num_truthy :: "jsnum \<Rightarrow> bool" where
  "num_truthy n = (n \<noteq> NaN \<and> n \<noteq> Fin 0)"

definition num_or :: "jsnum \<Rightarrow> jsnum \<Rightarrow> jsnum" where
  "num_or n d = (if num_truthy n then n else d)"

subsection \<open>Strings to numbers\<close>

text \<open>
  Strings are ASCII text. \<open>StringToNumber\<close> is the conversion that \<open>Number(s)\<close>
  applies to a string: white space is trimmed, the empty string is \<open>0\<close>, and the rest
  must be a decimal literal (optional sign, digits with an optional fraction and an
  optional exponent, or \<open>Infinity\<close>) or an unsigned binary, octal or hexadecimal
  literal; anything else is \<open>NaN\<close>.
\<close>

fun index_of :: "char \<Rightarrow> string \<Rightarrow> nat option" where
  "index_of c [] = None"
| "index_of c (d # ds) = (if c = d then Some 0 else map_option Suc (index_of c ds))"

definition digit_value :: "char \<Rightarrow> nat option" where
  "digit_value c =
     (case index_of c ''0123456789abcdef'' of
        Some d \<Rightarrow> Some d
      | None \<Rightarrow> map_option (\<lambda>d. 10 + d) (index_of c ''ABCDEF''))"

definition is_digit_base :: "nat \<Rightarrow> char \<Rightarrow> bool" where
  "is_digit_base b c = (case digit_value c of Some d \<Rightarrow> d < b | None \<Rightarrow> False)"

definition is_digit :: "char \<Rightarrow> bool" where
  "is_digit c = is_digit_base 10 c"

definition digits_value :: "nat \<Rightarrow> string \<Rightarrow> nat" where
  "digits_value b ds = foldl (\<lambda>acc c. acc * b + (case digit_value c of Some d \<Rightarrow> d | None \<Rightarrow> 0)) 0 ds"

definition is_space :: "char \<Rightarrow> bool" where
  "is_space c = (c \<in> set [CHR 0x09, CHR 0x0A, CHR 0x0B, CHR 0x0C, CHR 0x0D, CHR '' ''])"

text \<open>\<open>s.trim()\<close>.\<close>

definition trim :: "string \<Rightarrow> string" where
  "trim s = rev (dropWhile is_space (rev (dropWhile is_space s)))"

definition pow10 :: "int \<Rightarrow> rat" where
  "pow10 k = (if 0 \<le> k then 10 ^ nat k else 1 / 10 ^ nat (- k))"

text \<open>The exponent part of a decimal literal, \<open>None\<close> when what follows the mantissa is not one.\<close>

definition parse_exponent :: "string \<Rightarrow> int option" where
  "parse_exponent r =
     (if r = [] then Some 0
      else if hd r = CHR ''e'' \<or> hd r = CHR ''E'' then
        (let r1 = tl r;
             neg = (r1 \<noteq> [] \<and> hd r1 = CHR ''-'');
             ds = (if r1 \<noteq> [] \<and> (hd r1 = CHR ''-'' \<or> hd r1 = CHR ''+'') then tl r1 else r1)
         in if ds \<noteq> [] \<and> list_all is_digit ds
            then Some (if neg then - int (digits_value 10 ds) else int (digits_value 10 ds))
            else None)
      else None)"

definition unsigned_decimal :: "string \<Rightarrow> jsnum" where
  "unsigned_decimal t =
     (if t = ''Infinity'' then PInf
      else
        (let ip = takeWhile is_digit t;
             r1 = dropWhile is_digit t;
             dot = (r1 \<noteq> [] \<and> hd r1 = CHR ''.'');
             fp = (if dot then takeWhile is_digit (tl r1) else []);
             r2 = (if dot then dropWhile is_digit (tl r1) else r1)
         in if ip = [] \<and> fp = [] then NaN
            else
              (case parse_exponent r2 of
                 None \<Rightarrow> NaN
               | Some e \<Rightarrow> Fin (of_nat (digits_value 10 (ip @ fp)) * pow10 (e - int (length fp))))))"

definition radix_literal :: "nat \<Rightarrow> string \<Rightarrow> jsnum" where
  "radix_literal b ds =
     (if ds \<noteq> [] \<and> list_all (is_digit_base b) ds then Fin (of_nat (digits_value b ds)) else NaN)"

definition StringToNumber :: "string \<Rightarrow> jsnum" where
  "StringToNumber s =
     (let t = trim s in
      if t = [] then Fin 0
      else if take 2 t = ''0x'' \<or> take 2 t = ''0X'' then radix_literal 16 (drop 2 t)
      else if take 2 t = ''0o'' \<or> take 2 t = ''0O'' then radix_literal 8 (drop 2 t)
      else if take 2 t = ''0b'' \<or> take 2 t = ''0B'' then radix_literal 2 (drop 2 t)
      else if hd t = CHR ''-'' then js_neg (unsigned_decimal (tl t))
      else if hd t = CHR ''+'' then unsigned_decimal (tl t)
      else unsigned_decimal t)"

text \<open>
  The values that the fields of an upstream JSON document hold where the code converts
  them: \<open>undefined\<close> (the field is absent), \<open>null\<close>, a boolean, a number or a string.
\<close>

datatype jsval = JUndefined | JNull | JBool bool | JNum jsnum | JStr string

fun truthy :: "jsval \<Rightarrow> bool" where
  "truthy JUndefined = False"
| "truthy JNull = False"
| "truthy (JBool b) = b"
| "truthy (JNum n) = num_truthy n"
| "truthy (JStr s) = (s \<noteq> [])"

text \<open>\<open>a || b\<close>.\<close>

definition js_or :: "jsval \<Rightarrow> jsval \<Rightarrow> jsval" where
  "js_or a b = (if truthy a then a else b)"

text \<open>\<open>Number(v)\<close>.\<close>

fun Number :: "jsval \<Rightarrow> jsnum" where
  "Number JUndefined = NaN"
| "Number JNull = Fin 0"
| "Number (JBool b) = Fin (if b then 1 else 0)"
| "Number (JNum n) = n"
| "Number (JStr s) = StringToNumber s"

subsection \<open>The numeric substrings of a text\<close>

text \<open>
  \<open>String(v).match(/[-+]?[0-9]*\.?[0-9]+/g)\<close>: every match of the pattern, from left to
  right, each search starting where the previous match ended. At one position the
  pattern takes an optional sign, then the longest run of digits, then a dot and a
  further run of digits when at least one digit follows the dot; with no such fraction
  it needs a digit in the first run. A sign that no number follows is skipped.
\<close>

definition match_fraction :: "string \<Rightarrow> string \<Rightarrow> string \<Rightarrow> (string \<times> string) option" where
  "match_fraction sign d1 r1 =
     (if r1 \<noteq> [] \<and> hd r1 = CHR ''.'' \<and> takeWhile is_digit (tl r1) \<noteq> []
      then Some (sign @ d1 @ ''.'' @ takeWhile is_digit (tl r1), dropWhile is_digit (tl r1))
      else if d1 \<noteq> [] then Some (sign @ d1, r1)
      else None)"

definition match_digits :: "string \<Rightarrow> string \<Rightarrow> (string \<times> string) option" where
  "match_digits sign r = match_fraction sign (takeWhile is_digit r) (dropWhile is_digit r)"

definition match_number_at :: "string \<Rightarrow> (string \<times> string) option" where
  "match_number_at s =
     (if s \<noteq> [] \<and> (hd s = CHR ''-'' \<or> hd s = CHR ''+'')
      then match_digits [hd s] (tl s)
      else match_digits [] s)"

lemma match_digits_shorter:
  "match_digits sign r = Some (m, r') \<Longrightarrow> length r' \<le> length r \<and> (sign = [] \<longrightarrow> length r' < length r)"
proof -
  assume a: "match_digits sign r = Some (m, r')"
  have l1: "length (dropWhile is_digit r) \<le> length r"
    by (rule length_dropWhile_le)
  show ?thesis
  proof (cases "dropWhile is_digit r \<noteq> [] \<and> hd (dropWhile is_digit r) = CHR ''.''
                 \<and> takeWhile is_digit (tl (dropWhile is_digit r)) \<noteq> []")
    case True
    then have r: "r' = dropWhile is_digit (tl (dropWhile is_digit r))"
      using a by (simp add: match_digits_def match_fraction_def)
    have "length r' \<le> length (tl (dropWhile is_digit r))"
      unfolding r by (rule length_dropWhile_le)
    also have "\<dots> < length (dropWhile is_digit r)"
      using True by (cases "dropWhile is_digit r") auto
    finally show ?thesis using l1 by linarith
  next
    case False
    then have d: "takeWhile is_digit r \<noteq> []" and r: "r' = dropWhile is_digit r"
      using a by (auto simp add: match_digits_def match_fraction_def split: if_splits)
    have "length (takeWhile is_digit r) + length (dropWhile is_digit r) = length r"
      by (metis length_append takeWhile_dropWhile_id)
    then have "length r' < length r" using d r by (cases "takeWhile is_digit r") auto
    then show ?thesis by simp
  qed
qed

lemma match_number_at_shorter:
  "match_number_at s = Some (m, r) \<Longrightarrow> length r < length s"
proof -
  assume a: "match_number_at s = Some (m, r)"
  show ?thesis
  proof (cases "s \<noteq> [] \<and> (hd s = CHR ''-'' \<or> hd s = CHR ''+'')")
    case True
    then have "match_digits [hd s] (tl s) = Some (m, r)"
      using a by (simp add: match_number_at_def)
    then have "length r \<le> length (tl s)"
      using match_digits_shorter by blast
    then show ?thesis using True by (cases s) auto
  next
    case False
    then have "match_digits [] s = Some (m, r)"
      using a by (auto simp add: match_number_at_def)
    then show ?thesis using match_digits_shorter by blast
  qed
qed

function match_all_numbers :: "string \<Rightarrow> string list" where
  "match_all_numbers s =
     (if s = [] then []
      else (case match_number_at s of
              Some (m, r) \<Rightarrow> m # match_all_numbers r
            | None \<Rightarrow> match_all_numbers (tl s)))"
  by pat_completeness auto
termination
  by (relation "measure length") (auto dest: match_number_at_shorter)

declare match_all_numbers.simps [simp del]

section \<open>Metadata entries\<close>

subsection \<open>The runtime's parsers\<close>

text \<open>
  A parsed JSON text. An object is its list of members; a member read takes the first
  entry of a name.
\<close>

datatype json =
  JSNull | JSBool bool | JSNumber jsnum | JSString string
  | JSArray "json list" | JSObject "(string \<times> json) list"

text \<open>
  Two parsers of the JavaScript runtime are parameters of the model, so that every
  theorem holds whatever they return: \<open>JSON.parse\<close> (\<open>None\<close> when it throws a
  SyntaxError) and the parser behind \<open>new Date(string)\<close>, which the language leaves to
  the implementation outside the ISO format (the time value in milliseconds since the
  epoch, \<open>None\<close> for an invalid date).
\<close>

record runtime =
  JSON_parse :: "string \<Rightarrow> json option"
  Date_parse :: "string \<Rightarrow> int option"

text \<open>
  \<open>parsed.amount\<close>: \<open>None\<close> is \<open>undefined\<close>. On \<open>null\<close> the read throws a TypeError;
  both call sites read it inside a \<open>try\<close> whose \<open>catch\<close> falls through, as they do on an
  \<open>undefined\<close> amount, so \<open>None\<close> stands for that too.
\<close>

fun amount_prop :: "json \<Rightarrow> json option" where
  "amount_prop (JSObject kvs) = map_of kvs ''amount''"
| "amount_prop _ = None"

fun json_truthy :: "json \<Rightarrow> bool" where
  "json_truthy JSNull = False"
| "json_truthy (JSBool b) = b"
| "json_truthy (JSNumber n) = num_truthy n"
| "json_truthy (JSString s) = (s \<noteq> [])"
| "json_truthy (JSArray _) = True"
| "json_truthy (JSObject _) = True"

text \<open>
  \<open>Number(a)\<close> for a parsed JSON value. An object converts through the string
  \<open>[object Object]\<close> and is \<open>NaN\<close>. An array converts through its elements joined by
  commas: the empty array is the empty string, two or more elements give a text with a
  comma, and a single element gives its own string (empty for \<open>null\<close>).
\<close>

fun json_Number :: "json \<Rightarrow> jsnum" where
  "json_Number JSNull = Fin 0"
| "json_Number (JSBool b) = Fin (if b then 1 else 0)"
| "json_Number (JSNumber n) = n"
| "json_Number (JSString s) = StringToNumber s"
| "json_Number (JSObject _) = NaN"
| "json_Number (JSArray []) = Fin 0"
| "json_Number (JSArray [JSBool b]) = NaN"
| "json_Number (JSArray [x]) = json_Number x"
| "json_Number (JSArray (x # y # zs)) = NaN"

subsection \<open>parseAdditionalCharges and parseActualTotal\<close>

text \<open>
  A metafield node of the GraphQL response: \<open>namespace\<close>, \<open>key\<close> and \<open>value\<close> are
  non-null strings in the upstream schema, so \<open>m.namespace || ''\<close> and \<open>m.key || ''\<close> are
  the fields themselves, \<open>typeof v === 'string'\<close> holds and \<open>String(v)\<close> is \<open>v\<close>.
\<close>

record metafield =
  mf_namespace :: string
  mf_key :: string
  mf_value :: string

text \<open>
  The block both functions open with (\<open>Handle JSON money format\<close>): \<open>Some n\<close> when the
  block returns \<open>n\<close>, \<open>None\<close> when control falls through to the number parsing.
\<close>

definition json_money_amount :: "runtime \<Rightarrow> string \<Rightarrow> jsnum option" where
  "json_money_amount rt v =
     (if take 1 v = ''{'' then
        (case JSON_parse rt v of
           None \<Rightarrow> None
         | Some parsed \<Rightarrow>
             (case amount_prop parsed of
                None \<Rightarrow> None
              | Some a \<Rightarrow> if json_truthy a then Some (json_Number a) else None))
      else None)"

definition is_additional_charges :: "metafield \<Rightarrow> bool" where
  "is_additional_charges m =
     ((mf_namespace m = ''distacart'' \<and> mf_key m = ''additional_charges'')
      \<or> mf_key m = ''distacart.additional_charges'')"

definition is_actual_total :: "metafield \<Rightarrow> bool" where
  "is_actual_total m =
     ((mf_namespace m = ''distacart'' \<and> mf_key m = ''actual_total_checkout_price'')
      \<or> mf_key m = ''distacart.actual_total_checkout_price'')"

fun parseAdditionalCharges :: "runtime \<Rightarrow> metafield list \<Rightarrow> jsnum" where
  "parseAdditionalCharges rt [] = Fin 0"
| "parseAdditionalCharges rt (m # ms) =
     (if is_additional_charges m then
        (case json_money_amount rt (mf_value m) of
           Some n \<Rightarrow> n
         | None \<Rightarrow>
             (if StringToNumber (mf_value m) \<noteq> NaN then StringToNumber (mf_value m)
              else if match_all_numbers (mf_value m) \<noteq> []
              then foldl js_add (Fin 0) (map StringToNumber (match_all_numbers (mf_value m)))
              else parseAdditionalCharges rt ms))
      else parseAdditionalCharges rt ms)"

fun parseActualTotal :: "runtime \<Rightarrow> metafield list \<Rightarrow> jsnum" where
  "parseActualTotal rt [] = Fin 0"
| "parseActualTotal rt (m # ms) =
     (if is_actual_total m then
        (case json_money_amount rt (mf_value m) of
           Some n \<Rightarrow> n
         | None \<Rightarrow>
             (if StringToNumber (mf_value m) = NaN then Fin 0 else StringToNumber (mf_value m)))
      else parseActualTotal rt ms)"

section \<open>Orders and their enrichment\<close>

subsection \<open>Upstream data\<close>

text \<open>
  An order of the REST listing, with the fields the report reads. The fields that the
  code passes through \<open>Number(...)\<close> or compares with a string are kept as the JSON
  values they arrive as. An absent \<open>line_items\<close> is the empty list (\<open>o.line_items || []\<close>),
  an absent or \<open>null\<close> customer, name or email is \<open>None\<close>; identifiers are the platform's
  non-negative integers. \<open>o_total_price\<close> is the order total of the platform: the
  \<open>fields\<close> parameter of the listing does not ask for it and no code reads it.
\<close>

record line_item =
  li_fulfillment_status :: jsval
  li_fulfillable_quantity :: jsval
  li_quantity :: jsval
  li_price :: jsval

record customer =
  c_id :: nat
  c_email :: "string option"

record order =
  o_id :: nat
  o_name :: "string option"
  o_created_at :: string
  o_customer :: "customer option"
  o_line_items :: "line_item list"
  o_total_price :: jsval

text \<open>
  A fulfillment of the GraphQL response: its status and, for each fulfillment line item,
  \<open>node.quantity\<close> and \<open>node.originalTotalSet?.shopMoney?.amount\<close>. A fulfillment without
  \<open>fulfillmentLineItems.edges\<close> has no line items, and a response without the order or
  without its fulfillments is the empty list: the loops do nothing in either case.
\<close>

record fulfillment_line_item =
  fli_quantity :: jsval
  fli_amount :: jsval

record fulfillment =
  f_status :: string
  f_line_items :: "fulfillment_line_item list"

text \<open>
  What the handlers catch: the RangeError of \<open>toISOString\<close> on an invalid date, or a
  failed upstream call with the status of its response when there is one.
\<close>

datatype error = RangeError | UpstreamError "nat option"

text \<open>\<open>err?.response?.status || 500\<close>.\<close>

fun error_status :: "error \<Rightarrow> nat" where
  "error_status RangeError = 500"
| "error_status (UpstreamError None) = 500"
| "error_status (UpstreamError (Some st)) = (if st = 0 then 500 else st)"

text \<open>
  The query of the order listing (\<open>limit\<close>, \<open>status\<close>, \<open>fulfillment_status\<close> and \<open>fields\<close>
  are constants of the code), and the calls a request makes upstream, in order.
\<close>

record order_query =
  created_at_min :: string
  created_at_max :: string
  q_customer_id :: "jsval option"

datatype upstream_call =
  OrdersPage order_query "nat option"
  | OrderMetafields nat
  | OrderFulfillments nat

text \<open>
  The upstream platform during one request. \<open>orders_page n q since\<close> answers the page
  request number \<open>n\<close> (counted from 0) of query \<open>q\<close> with the given \<open>since_id\<close>; the two
  GraphQL queries are keyed by the order identifier. \<open>Inl\<close> is a failed call.
\<close>

record upstream =
  orders_page :: "nat \<Rightarrow> order_query \<Rightarrow> nat option \<Rightarrow> error + order list"
  order_metafields :: "nat \<Rightarrow> error + metafield list"
  order_fulfillments :: "nat \<Rightarrow> error + fulfillment list"

subsection \<open>The sum of the fulfilled lines\<close>

text \<open>The loop over \<open>fulfillment.fulfillmentLineItems.edges\<close>, from the sum so far.\<close>

fun add_fulfillment_line_items :: "jsnum \<Rightarrow> fulfillment_line_item list \<Rightarrow> jsnum" where
  "add_fulfillment_line_items acc [] = acc"
| "add_fulfillment_line_items acc (node # nodes) =
     (let quantity = num_or (Number (fli_quantity node)) (Fin 0);
          originalTotal = js_or (fli_amount node) (JNum (Fin 0));
          price = num_or (js_div (Number originalTotal) quantity) (Fin 0)
      in add_fulfillment_line_items
           (if js_gt quantity (Fin 0) \<and> js_gt price (Fin 0)
            then js_add acc (js_mul price quantity) else acc)
           nodes)"

text \<open>The loop over \<open>orderData.fulfillments\<close>.\<close>

fun add_fulfillments :: "jsnum \<Rightarrow> fulfillment list \<Rightarrow> jsnum" where
  "add_fulfillments acc [] = acc"
| "add_fulfillments acc (f # fs) =
     add_fulfillments
       (if f_status f = ''SUCCESS'' then add_fulfillment_line_items acc (f_line_items f) else acc)
       fs"

text \<open>The fallback loop over \<open>o.line_items\<close> (the same in both \<open>catch\<close> blocks).\<close>

fun add_line_items :: "jsnum \<Rightarrow> line_item list \<Rightarrow> jsnum" where
  "add_line_items acc [] = acc"
| "add_line_items acc (li # lis) =
     (if li_fulfillment_status li = JStr ''removed''
         \<or> li_fulfillment_status li = JStr ''cancelled''
         \<or> li_fulfillment_status li = JStr ''refunded''
         \<or> li_fulfillment_status li = JStr ''returned''
      then add_line_items acc lis
      else
        (let fulfillable_qty = num_or (Number (li_fulfillable_quantity li)) (Fin 0);
             total_qty = num_or (Number (li_quantity li)) (Fin 0)
         in if js_less fulfillable_qty total_qty
            then
              (let fulfilled_qty = js_sub total_qty fulfillable_qty;
                   price = num_or (Number (li_price li)) (Fin 0)
               in add_line_items (js_add acc (js_mul price fulfilled_qty)) lis)
            else add_line_items acc lis))"

subsection \<open>Report rows\<close>

record report_row =
  order_id :: nat
  order_number :: "string option"
  order_date :: string
  customer_id :: "nat option"
  customer_name :: string
  customer_email :: "string option"
  line_sum :: jsnum
  additional_charges :: jsnum
  billing_amount :: jsnum
  actual_spend :: jsnum
  profit_margin :: jsnum

text \<open>The decimal digits of an identifier (\<open>String(n)\<close> for a non-negative integer).\<close>

definition digit_char :: "nat \<Rightarrow> char" where
  "digit_char d = ''0123456789'' ! (d mod 10)"

fun show_nat :: "nat \<Rightarrow> string" where
  "show_nat n = (if n < 10 then [digit_char n] else show_nat (n div 10) @ [digit_char (n mod 10)])"

declare show_nat.simps [simp del]

definition customerInfo :: "(string \<times> string) list" where
  "customerInfo =
     [(''8688425369879'', ''Auxia Team''),
      (''8736318325015'', ''Baidu C200 Team''),
      (''8718672560407'', ''Baidu Team''),
      (''8721200316695'', ''Chai-Research Team''),
      (''8940864995607'', ''Comulate Team''),
      (''8721199399191'', ''Hattrick Capital Team''),
      (''8704188973335'', ''Marwood Team''),
      (''8688428843287'', ''Peloton Team''),
      (''8786145509655'', ''Starting Gate Team''),
      (''8685830766871'', ''Sully AI Team''),
      (''8721200939287'', ''Uphonest Team''),
      (''8688802627863'', ''Veery Team''),
      (''8703720751383'', ''Workstream Team''),
      (''8726904209687'', ''Workstream MP Team''),
      (''8898937094423'', ''Workstream UTAH Team''),
      (''9138324275479'', ''@3120 Team''),
      (''9161889743127'', ''Llamaindex Team''),
      (''9253797691671'', ''AYR Energy Team''),
      (''9253770690839'', ''Lemon slice Team'')]"

definition getCustomerName :: "nat option \<Rightarrow> string" where
  "getCustomerName customerId =
     (let shown = (case customerId of None \<Rightarrow> ''null'' | Some n \<Rightarrow> show_nat n)
      in case map_of customerInfo shown of
           Some name \<Rightarrow> name
         | None \<Rightarrow> ''Customer #'' @ shown)"

text \<open>\<open>o.name ? String(o.name).replace('#','').trim() : undefined\<close>.\<close>

definition order_number_of :: "order \<Rightarrow> string option" where
  "order_number_of ord =
     (case o_name ord of
        None \<Rightarrow> None
      | Some n \<Rightarrow> if n = [] then None else Some (trim (remove1 CHR ''#'' n)))"

text \<open>\<open>o.customer?.email || null\<close> and \<open>o.customer?.id || null\<close>.\<close>

definition customer_email_of :: "order \<Rightarrow> string option" where
  "customer_email_of ord =
     (case o_customer ord of
        None \<Rightarrow> None
      | Some c \<Rightarrow> (case c_email c of None \<Rightarrow> None | Some e \<Rightarrow> if e = [] then None else Some e))"

definition customer_id_of :: "order \<Rightarrow> nat option" where
  "customer_id_of ord =
     (case o_customer ord of
        None \<Rightarrow> None
      | Some c \<Rightarrow> if c_id c = 0 then None else Some (c_id c))"

text \<open>
  The body of the loop over the fetched orders: the upstream calls it makes and the row
  it pushes. The outer \<open>try\<close> fails when the metafield query fails, the inner one when
  the fulfillment query fails.
\<close>

definition enrich_order :: "runtime \<Rightarrow> upstream \<Rightarrow> order \<Rightarrow> upstream_call list \<times> report_row" where
  "enrich_order rt up ord =
     (case order_metafields up (o_id ord) of
        Inr orderMetafields \<Rightarrow>
          (let lsum =
                 (case order_fulfillments up (o_id ord) of
                    Inr fulfillments \<Rightarrow> add_fulfillments (Fin 0) fulfillments
                  | Inl fulfillmentErr \<Rightarrow> add_line_items (Fin 0) (o_line_items ord));
               additional = parseAdditionalCharges rt orderMetafields;
               actual = parseActualTotal rt orderMetafields;
               billing = js_add lsum additional
           in ([OrderMetafields (o_id ord), OrderFulfillments (o_id ord)],
               \<lparr>order_id = o_id ord,
                order_number = order_number_of ord,
                order_date = o_created_at ord,
                customer_id = customer_id_of ord,
                customer_name = getCustomerName (customer_id_of ord),
                customer_email = customer_email_of ord,
                line_sum = lsum,
                additional_charges = additional,
                billing_amount = billing,
                actual_spend = actual,
                profit_margin =
                  (if js_gt billing (Fin 0)
                   then js_mul (js_div (js_sub billing actual) billing) (Fin 100)
                   else Fin 0)\<rparr>))
      | Inl err \<Rightarrow>
          (let lsum = add_line_items (Fin 0) (o_line_items ord)
           in ([OrderMetafields (o_id ord)],
               \<lparr>order_id = o_id ord,
                order_number = order_number_of ord,
                order_date = o_created_at ord,
                customer_id = customer_id_of ord,
                customer_name = getCustomerName (customer_id_of ord),
                customer_email = customer_email_of ord,
                line_sum = lsum,
                additional_charges = Fin 0,
                billing_amount = lsum,
                actual_spend = Fin 0,
                profit_margin = Fin 0\<rparr>)))"

text \<open>\<open>for (const o of orders)\<close>: the calls so far and the rows so far, one order at a time.\<close>

fun enrich_orders ::
  "runtime \<Rightarrow> upstream \<Rightarrow> upstream_call list \<Rightarrow> report_row list \<Rightarrow> order list
   \<Rightarrow> upstream_call list \<times> report_row list" where
  "enrich_orders rt up calls rows [] = (calls, rows)"
| "enrich_orders rt up calls rows (ord # orders) =
     (case enrich_order rt up ord of
        (cs, row) \<Rightarrow> enrich_orders rt up (calls @ cs) (rows @ [row]) orders)"

section \<open>Fetching the orders\<close>

text \<open>
  The \<open>while (true)\<close> loop of \<open>POST /api/report\<close>; \<open>GET /api/orders\<close> runs the same loop
  (with a log line after each page). The state is the calls made so far, \<open>orders\<close>, the
  \<open>since_id\<close> that the next request sends and \<open>totalFetched\<close>. The code keeps the last
  identifier in \<open>since_id\<close> and sends it \<open>if (since_id)\<close>, so the identifier 0 is not sent.
  A failed page request leaves the loop with its error.
\<close>

function fetch_orders ::
  "upstream \<Rightarrow> order_query \<Rightarrow> upstream_call list \<Rightarrow> order list \<Rightarrow> nat option \<Rightarrow> nat
   \<Rightarrow> upstream_call list \<times> (error + order list)" where
  "fetch_orders up q calls orders since_id totalFetched =
     (case orders_page up (length calls) q since_id of
        Inl err \<Rightarrow> (calls @ [OrdersPage q since_id], Inl err)
      | Inr chunk \<Rightarrow>
          (if length chunk < 250
           then (calls @ [OrdersPage q since_id], Inr (orders @ chunk))
           else if 10000 < totalFetched + length chunk
           then (calls @ [OrdersPage q since_id], Inr (orders @ chunk))
           else fetch_orders up q (calls @ [OrdersPage q since_id]) (orders @ chunk)
                  (if o_id (last chunk) = 0 then None else Some (o_id (last chunk)))
                  (totalFetched + length chunk)))"
  by pat_completeness auto
termination
  by (relation "measure (\<lambda>(up, q, calls, orders, since_id, totalFetched). 10001 - totalFetched)") auto

declare fetch_orders.simps [simp del]

subsection \<open>The pages of a run\<close>

text \<open>
  The same loop with its accumulators dropped: the pages of a run in the order of the
  requests, each with the \<open>since_id\<close> that its request sent and the answer it got.
  \<open>chunk_of\<close> is the orders of a page (none when the request failed) and \<open>next_since\<close>
  the \<open>since_id\<close> that the loop keeps after a full page.
\<close>

function fetch_pages ::
  "upstream \<Rightarrow> order_query \<Rightarrow> nat \<Rightarrow> nat option \<Rightarrow> nat \<Rightarrow> (nat option \<times> (error + order list)) list" where
  "fetch_pages up q n since_id totalFetched =
     (case orders_page up n q since_id of
        Inl err \<Rightarrow> [(since_id, Inl err)]
      | Inr chunk \<Rightarrow>
          (if length chunk < 250 \<or> 10000 < totalFetched + length chunk
           then [(since_id, Inr chunk)]
           else (since_id, Inr chunk)
                # fetch_pages up q (Suc n)
                    (if o_id (last chunk) = 0 then None else Some (o_id (last chunk)))
                    (totalFetched + length chunk)))"
  by pat_completeness auto
termination
  by (relation "measure (\<lambda>(up, q, n, since_id, totalFetched). 10001 - totalFetched)") auto

declare fetch_pages.simps [simp del]

definition chunk_of :: "nat option \<times> (error + order list) \<Rightarrow> order list" where
  "chunk_of p = (case snd p of Inr chunk \<Rightarrow> chunk | Inl err \<Rightarrow> [])"

definition next_since :: "order list \<Rightarrow> nat option" where
  "next_since chunk = (if o_id (last chunk) = 0 then None else Some (o_id (last chunk)))"

section \<open>Dates\<close>

text \<open>
  A Date object is its time value, milliseconds since the epoch, or \<open>None\<close> when the
  date is invalid. \<open>TimeClip\<close> keeps the finite values of at most 8.64e15 in absolute
  value, truncated to an integer.
\<close>

fun time_clip :: "jsnum \<Rightarrow> int option" where
  "time_clip (Fin t) =
     (if \<bar>t\<bar> \<le> 8640000000000000 then Some (if 0 \<le> t then \<lfloor>t\<rfloor> else \<lceil>t\<rceil>) else None)"
| "time_clip _ = None"

text \<open>\<open>new Date(v)\<close>: a string goes through the runtime's parser, any other value through \<open>Number\<close>.\<close>

fun new_Date :: "runtime \<Rightarrow> jsval \<Rightarrow> int option" where
  "new_Date rt (JStr s) =
     (case Date_parse rt s of None \<Rightarrow> None | Some t \<Rightarrow> time_clip (Fin (of_int t)))"
| "new_Date rt v = time_clip (Number v)"

text \<open>
  The civil date (year, month, day) of a day number counted from 1970-01-01, in the
  proleptic Gregorian calendar. The computation goes by eras of 400 years that start on
  a first of March: from the day of the era (\<open>doe\<close>) to the year of the era (\<open>yoe\<close>), the
  day of that year (\<open>doy\<close>) and the month counted from March (\<open>mp\<close>).
\<close>

definition civil_from_mp :: "int \<Rightarrow> int \<Rightarrow> int \<Rightarrow> int \<times> nat \<times> nat" where
  "civil_from_mp y doy mp =
     (y + (if mp < 10 then 0 else 1),
      nat (if mp < 10 then mp + 3 else mp - 9),
      nat (doy - (153 * mp + 2) div 5 + 1))"

definition civil_from_doy :: "int \<Rightarrow> int \<Rightarrow> int \<times> nat \<times> nat" where
  "civil_from_doy y doy = civil_from_mp y doy ((5 * doy + 2) div 153)"

definition civil_from_yoe :: "int \<Rightarrow> int \<Rightarrow> int \<Rightarrow> int \<times> nat \<times> nat" where
  "civil_from_yoe era doe yoe =
     civil_from_doy (yoe + era * 400) (doe - (365 * yoe + yoe div 4 - yoe div 100))"

definition civil_from_doe :: "int \<Rightarrow> int \<Rightarrow> int \<times> nat \<times> nat" where
  "civil_from_doe era doe =
     civil_from_yoe era doe ((doe - doe div 1460 + doe div 36524 - doe div 146096) div 365)"

definition civil_from_days :: "int \<Rightarrow> int \<times> nat \<times> nat" where
  "civil_from_days z = civil_from_doe ((z + 719468) div 146097) ((z + 719468) mod 146097)"

text \<open>The last \<open>w\<close> decimal digits of \<open>n\<close>, with leading zeros.\<close>

fun pad_digits :: "nat \<Rightarrow> nat \<Rightarrow> string" where
  "pad_digits w n = (if w = 0 then [] else pad_digits (w - 1) (n div 10) @ [digit_char (n mod 10)])"

declare pad_digits.simps [simp del]

text \<open>Years 0 to 9999 are written with four digits, the others with a sign and six.\<close>

definition year_string :: "int \<Rightarrow> string" where
  "year_string y =
     (if 0 \<le> y \<and> y \<le> 9999 then pad_digits 4 (nat y)
      else (if y < 0 then ''-'' else ''+'') @ pad_digits 6 (nat \<bar>y\<bar>))"

definition date_string :: "int \<times> nat \<times> nat \<Rightarrow> string" where
  "date_string ymd =
     (case ymd of (y, m, d) \<Rightarrow> year_string y @ ''-'' @ pad_digits 2 m @ ''-'' @ pad_digits 2 d)"

definition time_string :: "nat \<Rightarrow> string" where
  "time_string ms =
     pad_digits 2 (ms div 3600000) @ '':'' @ pad_digits 2 (ms div 60000 mod 60) @ '':''
     @ pad_digits 2 (ms div 1000 mod 60) @ ''.'' @ pad_digits 3 (ms mod 1000)"

text \<open>The text of \<open>toISOString()\<close> for a valid time value.\<close>

definition iso_string :: "int \<Rightarrow> string" where
  "iso_string t =
     date_string (civil_from_days (t div 86400000)) @ ''T''
     @ time_string (nat (t mod 86400000)) @ ''Z''"

text \<open>\<open>date.toISOString()\<close>, which throws a RangeError on an invalid date.\<close>

fun toISOString :: "int option \<Rightarrow> error + string" where
  "toISOString None = Inl RangeError"
| "toISOString (Some t) = Inr (iso_string t)"

section \<open>Grouping\<close>

text \<open>
  \<open>groups\<close> is a JavaScript Map from the key \<open>customerKey + '|' + month\<close> to a group
  object: a list of entries in insertion order, at most one per key.
\<close>

record summary_group =
  g_customer :: string
  g_month :: string
  g_orders :: nat
  g_amount :: jsnum
  g_order_numbers :: "string list"
  g_total_billing :: jsnum
  g_total_actual :: jsnum
  g_avg_profit_margin :: jsnum

text \<open>\<open>monthKey(iso) = new Date(iso).toISOString().slice(0,7)\<close>.\<close>

definition monthKey :: "runtime \<Rightarrow> string \<Rightarrow> error + string" where
  "monthKey rt isotext =
     (case toISOString (new_Date rt (JStr isotext)) of
        Inl err \<Rightarrow> Inl err
      | Inr str \<Rightarrow> Inr (take 7 str))"

text \<open>\<open>r.customer_email || String(r.customer_id || 'unknown')\<close>.\<close>

definition customerKey_of :: "report_row \<Rightarrow> string" where
  "customerKey_of r =
     (case customer_email r of
        Some e \<Rightarrow>
          if e \<noteq> [] then e
          else (case customer_id r of
                  Some n \<Rightarrow> if n \<noteq> 0 then show_nat n else ''unknown''
                | None \<Rightarrow> ''unknown'')
      | None \<Rightarrow>
          (case customer_id r of
             Some n \<Rightarrow> if n \<noteq> 0 then show_nat n else ''unknown''
           | None \<Rightarrow> ''unknown''))"

text \<open>\<open>r[metricField]\<close> with \<open>metricField = metric === 'actual' ? 'actual_spend' : 'billing_amount'\<close>.\<close>

definition metric_field :: "jsval \<Rightarrow> report_row \<Rightarrow> jsnum" where
  "metric_field metric r = (if metric = JStr ''actual'' then actual_spend r else billing_amount r)"

definition new_group :: "string \<Rightarrow> string \<Rightarrow> summary_group" where
  "new_group ckey month =
     \<lparr>g_customer = ckey, g_month = month, g_orders = 0, g_amount = Fin 0,
      g_order_numbers = [], g_total_billing = Fin 0, g_total_actual = Fin 0,
      g_avg_profit_margin = Fin 0\<rparr>"

text \<open>The updates of \<open>g\<close> for one row \<open>r\<close>; \<open>order_numbers\<close> is a Set.\<close>

definition add_row :: "jsval \<Rightarrow> report_row \<Rightarrow> summary_group \<Rightarrow> summary_group" where
  "add_row metric r g =
     g\<lparr>g_orders := g_orders g + 1,
       g_amount := js_add (g_amount g) (num_or (metric_field metric r) (Fin 0)),
       g_total_billing := js_add (g_total_billing g) (num_or (billing_amount r) (Fin 0)),
       g_total_actual := js_add (g_total_actual g) (num_or (actual_spend r) (Fin 0)),
       g_order_numbers :=
         (case order_number r of
            None \<Rightarrow> g_order_numbers g
          | Some n \<Rightarrow>
              if n = [] \<or> n \<in> set (g_order_numbers g) then g_order_numbers g
              else g_order_numbers g @ [n])\<rparr>"

text \<open>\<open>g = groups.get(key)\<close> followed by the updates of \<open>g\<close>, in place.\<close>

fun update_group ::
  "string \<Rightarrow> (summary_group \<Rightarrow> summary_group) \<Rightarrow> (string \<times> summary_group) list
   \<Rightarrow> (string \<times> summary_group) list" where
  "update_group k f [] = []"
| "update_group k f ((k', g) # gs) =
     (if k' = k then (k', f g) # gs else (k', g) # update_group k f gs)"

text \<open>\<open>for (const r of rows)\<close>. \<open>monthKey\<close> throws on a row whose date is invalid.\<close>

fun group_rows ::
  "runtime \<Rightarrow> jsval \<Rightarrow> (string \<times> summary_group) list \<Rightarrow> report_row list
   \<Rightarrow> error + (string \<times> summary_group) list" where
  "group_rows rt metric groups [] = Inr groups"
| "group_rows rt metric groups (r # rs) =
     (case monthKey rt (order_date r) of
        Inl err \<Rightarrow> Inl err
      | Inr month \<Rightarrow>
          (let customerKey = customerKey_of r;
               k = customerKey @ ''|'' @ month;
               groups1 = (if map_of groups k = None
                          then groups @ [(k, new_group customerKey month)] else groups)
           in group_rows rt metric (update_group k (add_row metric r) groups1) rs))"

section \<open>POST /api/report\<close>

text \<open>
  The entries of the response's \<open>summary\<close>. The response sorts them by month, then by
  customer, with \<open>localeCompare\<close>; the model keeps them in the order of the groups. The
  \<open>analytics\<close> and \<open>metadata\<close> of the response are computed from the summary and are not
  modelled.
\<close>

record summary_entry =
  s_customer :: string
  s_month :: string
  s_orders :: nat
  s_amount :: jsnum
  s_order_numbers :: string
  s_total_billing :: jsnum
  s_total_actual :: jsnum
  s_profit_margin :: jsnum

text \<open>\<open>Math.round\<close> (halves go up) and \<open>xs.join(', ')\<close>.\<close>

fun js_round :: "jsnum \<Rightarrow> jsnum" where
  "js_round (Fin a) = Fin (of_int \<lfloor>a + 1 / 2\<rfloor>)"
| "js_round n = n"

fun join_comma :: "string list \<Rightarrow> string" where
  "join_comma [] = []"
| "join_comma [x] = x"
| "join_comma (x # y # zs) = x @ '', '' @ join_comma (y # zs)"

definition summary_of :: "summary_group \<Rightarrow> summary_entry" where
  "summary_of g =
     (let pm = (if js_gt (g_total_billing g) (Fin 0)
                then js_mul (js_div (js_sub (g_total_billing g) (g_total_actual g))
                                    (g_total_billing g)) (Fin 100)
                else Fin 0)
      in \<lparr>s_customer = g_customer g,
          s_month = g_month g,
          s_orders = g_orders g,
          s_amount = g_amount g,
          s_order_numbers = join_comma (sort (g_order_numbers g)),
          s_total_billing = g_total_billing g,
          s_total_actual = g_total_actual g,
          s_profit_margin = js_div (js_round (js_mul pm (Fin 100))) (Fin 100)\<rparr>)"

record report =
  summary :: "summary_entry list"
  detail :: "report_row list"

text \<open>
  The request body, each field as the JSON value it holds (\<open>JUndefined\<close> when absent),
  and the response: a 400 with its message, the error response of the \<open>catch\<close> block
  with its status, or the report with status 200.
\<close>

record report_body =
  b_start :: jsval
  b_end :: jsval
  b_metric :: jsval
  b_customerId :: jsval

datatype response = BadRequest string | Failed nat | Report report | Orders "order list"

fun http_status :: "response \<Rightarrow> nat" where
  "http_status (BadRequest msg) = 400"
| "http_status (Failed st) = st"
| "http_status (Report rep) = 200"
| "http_status (Orders orders) = 200"

text \<open>The handler: the upstream calls it makes, in order, and its response.\<close>

definition post_report :: "runtime \<Rightarrow> upstream \<Rightarrow> report_body \<Rightarrow> upstream_call list \<times> response" where
  \<open>post_report rt up body =
     (if \<not> truthy (b_start body) \<or> \<not> truthy (b_end body) \<or> \<not> truthy (b_metric body)
      then ([], BadRequest ''Missing required fields: start, end, and metric are required'')
      else if b_metric body \<noteq> JStr ''billing'' \<and> b_metric body \<noteq> JStr ''actual''
      then ([], BadRequest ''Invalid metric. Must be "billing" or "actual"'')
      else
        (case toISOString (new_Date rt (b_start body)) of
           Inl err \<Rightarrow> ([], Failed (error_status err))
         | Inr cmin \<Rightarrow>
             (case toISOString (new_Date rt (b_end body)) of
                Inl err \<Rightarrow> ([], Failed (error_status err))
              | Inr cmax \<Rightarrow>
                  (case fetch_orders up
                          \<lparr>created_at_min = cmin, created_at_max = cmax,
                           q_customer_id = (if truthy (b_customerId body)
                                            then Some (b_customerId body) else None)\<rparr>
                          [] [] None 0 of
                     (calls, Inl err) \<Rightarrow> (calls, Failed (error_status err))
                   | (calls, Inr orders) \<Rightarrow>
                       (case enrich_orders rt up calls [] orders of
                          (calls', rows) \<Rightarrow>
                            (case group_rows rt (b_metric body) [] rows of
                               Inl err \<Rightarrow> (calls', Failed (error_status err))
                             | Inr groups \<Rightarrow>
                                 (calls',
                                  Report \<lparr>summary = map (summary_of \<circ> snd) groups,
                                          detail = rows\<rparr>)))))))\<close>

section \<open>GET /api/orders\<close>

text \<open>
  The listing endpoint validates its dates before it fetches: both must be present and
  valid, and the start must be before the end (\<open>startDate >= endDate\<close> compares the
  time values). Its response is the orders the loop collected.
\<close>

record orders_request =
  r_start :: jsval
  r_end :: jsval
  r_customerId :: jsval

definition get_orders :: "runtime \<Rightarrow> upstream \<Rightarrow> orders_request \<Rightarrow> upstream_call list \<times> response" where
  "get_orders rt up req =
     (if \<not> truthy (r_start req) \<or> \<not> truthy (r_end req)
      then ([], BadRequest ''Missing required parameters: start and end dates are required'')
      else
        (case (new_Date rt (r_start req), new_Date rt (r_end req)) of
           (Some startDate, Some endDate) \<Rightarrow>
             (if endDate \<le> startDate
              then ([], BadRequest ''Start date must be before end date'')
              else
                (case fetch_orders up
                        \<lparr>created_at_min = iso_string startDate, created_at_max = iso_string endDate,
                         q_customer_id = (if truthy (r_customerId req)
                                          then Some (r_customerId req) else None)\<rparr>
                        [] [] None 0 of
                   (calls, Inl err) \<Rightarrow> (calls, Failed (error_status err))
                 | (calls, Inr orders) \<Rightarrow> (calls, Orders orders)))
         | _ \<Rightarrow>
             ([], BadRequest ''Invalid date format. Use ISO 8601 format (YYYY-MM-DDTHH:mm:ss.sssZ)'')))"

section \<open>Statements of the specification\<close>

text \<open>
  The specification's account of a metadata value: a raw number when the value parses as
  a number; the \<open>amount\<close> field when the value is a JSON object with one; otherwise the
  leading numeric substring of the text (\<open>None\<close> when the text has none).
\<close>

definition leading_number :: "string \<Rightarrow> jsnum option" where
  "leading_number v =
     (case match_all_numbers v of [] \<Rightarrow> None | m # ms \<Rightarrow> Some (StringToNumber m))"

definition spec_metadata_value :: "runtime \<Rightarrow> string \<Rightarrow> jsnum option" where
  "spec_metadata_value rt v =
     (if StringToNumber v \<noteq> NaN then Some (StringToNumber v)
      else
        (case JSON_parse rt v of
           Some (JSObject kvs) \<Rightarrow>
             (case map_of kvs ''amount'' of
                Some a \<Rightarrow> Some (json_Number a)
              | None \<Rightarrow> leading_number v)
         | _ \<Rightarrow> leading_number v))"

text \<open>
  A metadata value at which \<open>parseAdditionalCharges\<close> returns: its JSON block returns (the
  text starts with \<open>{\<close>, parses and has a truthy \<open>amount\<close>; the number returned is \<open>NaN\<close>
  when the amount is not numeric), or the text converts to a number, or it has a numeric
  substring.
\<close>

definition decides :: "runtime \<Rightarrow> string \<Rightarrow> bool" where
  "decides rt v =
     (json_money_amount rt v \<noteq> None \<or> StringToNumber v \<noteq> NaN \<or> match_all_numbers v \<noteq> [])"

text \<open>
  The specification's sum of the fulfilled lines: over the line items of the successful
  fulfillments, the unit price is the total amount over the quantity, and price times
  quantity is added when both are positive.
\<close>

definition spec_unit_price :: "fulfillment_line_item \<Rightarrow> jsnum" where
  "spec_unit_price node = js_div (Number (fli_amount node)) (Number (fli_quantity node))"

definition spec_counted :: "fulfillment_line_item \<Rightarrow> bool" where
  "spec_counted node =
     (js_gt (Number (fli_quantity node)) (Fin 0) \<and> js_gt (spec_unit_price node) (Fin 0))"

definition spec_line_amount :: "fulfillment_line_item \<Rightarrow> jsnum" where
  "spec_line_amount node = js_mul (spec_unit_price node) (Number (fli_quantity node))"

definition spec_fulfilled_sum :: "fulfillment list \<Rightarrow> jsnum" where
  "spec_fulfilled_sum fs =
     foldl js_add (Fin 0)
       (map spec_line_amount
          (filter spec_counted
             (concat (map f_line_items (filter (\<lambda>f. f_status f = ''SUCCESS'') fs)))))"

text \<open>
  The specification's fallback sum: the line items whose status is removed, cancelled,
  refunded or returned are skipped, and each of the others adds its price times
  \<open>fulfilled_qty = total_quantity - fulfillable_quantity\<close>. A field reads as a number, 0
  when it is not one. The second definition adds the guard of the code: only the items
  with \<open>fulfillable_quantity < total_quantity\<close> are added.
\<close>

definition field_number :: "jsval \<Rightarrow> jsnum" where
  "field_number v = num_or (Number v) (Fin 0)"

definition skipped_status :: "line_item \<Rightarrow> bool" where
  "skipped_status li =
     (li_fulfillment_status li \<in> {JStr ''removed'', JStr ''cancelled'', JStr ''refunded'', JStr ''returned''})"

definition fulfilled_amount :: "line_item \<Rightarrow> jsnum" where
  "fulfilled_amount li =
     js_mul (field_number (li_price li))
       (js_sub (field_number (li_quantity li)) (field_number (li_fulfillable_quantity li)))"

definition spec_fallback_sum :: "line_item list \<Rightarrow> jsnum" where
  "spec_fallback_sum lis =
     foldl js_add (Fin 0) (map fulfilled_amount (filter (\<lambda>li. \<not> skipped_status li) lis))"

definition partly_fulfilled :: "line_item \<Rightarrow> bool" where
  "partly_fulfilled li =
     js_less (field_number (li_fulfillable_quantity li)) (field_number (li_quantity li))"

definition guarded_fallback_sum :: "line_item list \<Rightarrow> jsnum" where
  "guarded_fallback_sum lis =
     foldl js_add (Fin 0)
       (map fulfilled_amount (filter (\<lambda>li. \<not> skipped_status li \<and> partly_fulfilled li) lis))"

text \<open>
  A line item within its quantity: its price, its quantity and its fulfillable quantity
  read as finite numbers, and the fulfillable quantity is not greater than the quantity.
  The specification takes \<open>total_quantity - fulfillable_quantity\<close> for the portion already
  fulfilled, which is the case of these line items.
\<close>

definition finite_number :: "jsnum \<Rightarrow> bool" where
  "finite_number n = (case n of Fin a \<Rightarrow> True | _ \<Rightarrow> False)"

definition within_quantity :: "line_item \<Rightarrow> bool" where
  "within_quantity li =
     (finite_number (field_number (li_price li))
      \<and> finite_number (field_number (li_quantity li))
      \<and> finite_number (field_number (li_fulfillable_quantity li))
      \<and> \<not> js_less (field_number (li_quantity li)) (field_number (li_fulfillable_quantity li)))"

text \<open>
  The rows of a group: those with the group's customer key and month. The
  specification's amount of a group is the sum of the metric field over them.
\<close>

definition rows_of_group :: "runtime \<Rightarrow> string \<Rightarrow> string \<Rightarrow> report_row list \<Rightarrow> report_row list" where
  "rows_of_group rt ckey month rows =
     filter (\<lambda>r. customerKey_of r = ckey \<and> monthKey rt (order_date r) = Inr month) rows"

definition spec_group_amount :: "runtime \<Rightarrow> jsval \<Rightarrow> string \<Rightarrow> string \<Rightarrow> report_row list \<Rightarrow> jsnum" where
  "spec_group_amount rt metric ckey month rows =
     foldl js_add (Fin 0) (map (metric_field metric) (rows_of_group rt ckey month rows))"

text \<open>
  The metric field as the grouping loop counts it, \<open>Number(r[metricField] || 0)\<close>: a
  field that is \<open>NaN\<close> counts as 0.
\<close>

definition counted :: "jsval \<Rightarrow> report_row \<Rightarrow> jsnum" where
  "counted metric r = num_or (metric_field metric r) (Fin 0)"

text \<open>
  The month of a row whose date is valid, and the key of the row in the Map of groups.
\<close>

definition month_of :: "runtime \<Rightarrow> report_row \<Rightarrow> string" where
  "month_of rt r = (case monthKey rt (order_date r) of Inr month \<Rightarrow> month | Inl err \<Rightarrow> [])"

definition group_key :: "runtime \<Rightarrow> report_row \<Rightarrow> string" where
  "group_key rt r = customerKey_of r @ ''|'' @ month_of rt r"

text \<open>One turn of the grouping loop, for a row whose month is known.\<close>

definition group_step ::
  "jsval \<Rightarrow> string \<Rightarrow> string \<Rightarrow> report_row \<Rightarrow> (string \<times> summary_group) list
   \<Rightarrow> (string \<times> summary_group) list" where
  "group_step metric ckey month r groups =
     update_group (ckey @ ''|'' @ month) (add_row metric r)
       (if map_of groups (ckey @ ''|'' @ month) = None
        then groups @ [(ckey @ ''|'' @ month, new_group ckey month)] else groups)"

text \<open>
  The specification's customer key of an order: the customer's email if present, else
  the numeric identifier as text, else \<open>unknown\<close>.
\<close>

definition spec_customer_key :: "order \<Rightarrow> string" where
  "spec_customer_key ord =
     (case o_customer ord of
        None \<Rightarrow> ''unknown''
      | Some c \<Rightarrow>
          (case c_email c of
             Some e \<Rightarrow> if e \<noteq> [] then e else if c_id c \<noteq> 0 then show_nat (c_id c) else ''unknown''
           | None \<Rightarrow> if c_id c \<noteq> 0 then show_nat (c_id c) else ''unknown''))"

text \<open>
  The upstream's cursor pagination, as the specification describes it: a page holds
  the first 250 orders, by ascending identifier, whose identifier is greater than
  \<open>since_id\<close>.
\<close>

definition paged_listing :: "order list \<Rightarrow> nat \<Rightarrow> order_query \<Rightarrow> nat option \<Rightarrow> error + order list" where
  "paged_listing matching n q since_id =
     Inr (take 250 (filter (\<lambda>ord. case since_id of None \<Rightarrow> True | Some i \<Rightarrow> i < o_id ord) matching))"

text \<open>
  An upstream that reports other order totals: the same upstream with the total of
  every listed order replaced.
\<close>

definition with_order_totals :: "(order \<Rightarrow> jsval) \<Rightarrow> upstream \<Rightarrow> upstream" where
  "with_order_totals f up =
     up\<lparr>orders_page := (\<lambda>n q since_id.
           case orders_page up n q since_id of
             Inl err \<Rightarrow> Inl err
           | Inr chunk \<Rightarrow> Inr (map (\<lambda>ord. ord\<lparr>o_total_price := f ord\<rparr>) chunk))\<rparr>"

text \<open>The query that a request with two valid dates sends to the order listing.\<close>

definition report_query :: "runtime \<Rightarrow> report_body \<Rightarrow> order_query" where
  "report_query rt body =
     \<lparr>created_at_min = (case toISOString (new_Date rt (b_start body)) of Inr s \<Rightarrow> s | Inl err \<Rightarrow> []),
      created_at_max = (case toISOString (new_Date rt (b_end body)) of Inr s \<Rightarrow> s | Inl err \<Rightarrow> []),
      q_customer_id = (if truthy (b_customerId body) then Some (b_customerId body) else None)\<rparr>"

text \<open>
  The specification's profit margin of a row: \<open>(billing_amount - actual_spend) /
  billing_amount * 100\<close>, or 0 when the billing amount is not positive.
\<close>

definition spec_profit_margin :: "report_row \<Rightarrow> jsnum" where
  "spec_profit_margin r =
     (if js_gt (billing_amount r) (Fin 0)
      then js_mul (js_div (js_sub (billing_amount r) (actual_spend r)) (billing_amount r)) (Fin 100)
      else Fin 0)"

section \<open>Sample data\<close>

text \<open>
  A runtime for the examples: the results of \<open>JSON.parse\<close> and of the date parser on the
  texts that the examples use (no example reads them elsewhere).
\<close>

definition sample_runtime :: runtime where
  \<open>sample_runtime =
     \<lparr>JSON_parse = map_of
        [(''{"amount":"abc"}'', JSObject [(''amount'', JSString ''abc'')]),
         (''{"amount":"12.50","currency_code":"USD"}'',
          JSObject [(''amount'', JSString ''12.50''), (''currency_code'', JSString ''USD'')])],
      Date_parse = map_of
        [(''2024-01-01T00:00:00.000Z'', 1704067200000),
         (''2024-02-01T00:00:00.000Z'', 1706745600000),
         (''2024-01-15T10:30:00-05:00'', 1705332600000),
         (''2024-01-20T09:00:00-05:00'', 1705759200000),
         (''2024-01-31T22:00:00-05:00'', 1706756400000)]\<rparr>\<close>

definition charges :: "string \<Rightarrow> metafield" where
  "charges v = \<lparr>mf_namespace = ''distacart'', mf_key = ''additional_charges'', mf_value = v\<rparr>"

definition actual_total :: "string \<Rightarrow> metafield" where
  "actual_total v =
     \<lparr>mf_namespace = ''distacart'', mf_key = ''actual_total_checkout_price'', mf_value = v\<rparr>"

text \<open>Orders of one customer, each with one line of two items at 50, both fulfilled.\<close>

definition sample_lines :: "line_item list" where
  "sample_lines =
     [\<lparr>li_fulfillment_status = JStr ''fulfilled'', li_fulfillable_quantity = JNum (Fin 0),
       li_quantity = JNum (Fin 2), li_price = JStr ''50.00''\<rparr>]"

definition sample_order :: "nat \<Rightarrow> string \<Rightarrow> order" where
  "sample_order i created =
     \<lparr>o_id = i, o_name = Some (CHR ''#'' # show_nat i), o_created_at = created,
      o_customer = Some \<lparr>c_id = 8688425369879, c_email = Some ''auxia@veeryoffices.com''\<rparr>,
      o_line_items = sample_lines, o_total_price = JStr ''999.00''\<rparr>"

definition sample_orders :: "order list" where
  "sample_orders =
     [sample_order 1001 ''2024-01-15T10:30:00-05:00'',
      sample_order 1002 ''2024-01-20T09:00:00-05:00'']"

definition sample_fulfillments :: "fulfillment list" where
  "sample_fulfillments =
     [\<lparr>f_status = ''SUCCESS'',
       f_line_items = [\<lparr>fli_quantity = JNum (Fin 2), fli_amount = JStr ''100.0''\<rparr>]\<rparr>]"

definition sample_metafields :: "metafield list" where
  "sample_metafields = [charges ''10'', actual_total ''88'']"

text \<open>
  The scenario of the specification: an upstream that lists two January orders on one
  page and answers both GraphQL queries, with a fulfilled line of 100, additional
  charges of 10 and an actual total of 88 on each order.
\<close>

definition sample_upstream :: upstream where
  "sample_upstream =
     \<lparr>orders_page = (\<lambda>n q since_id. Inr sample_orders),
      order_metafields = (\<lambda>i. Inr sample_metafields),
      order_fulfillments = (\<lambda>i. Inr sample_fulfillments)\<rparr>"

definition sample_body :: report_body where
  "sample_body =
     \<lparr>b_start = JStr ''2024-01-01T00:00:00.000Z'', b_end = JStr ''2024-02-01T00:00:00.000Z'',
      b_metric = JStr ''billing'', b_customerId = JUndefined\<rparr>"

definition sample_query :: order_query where
  "sample_query =
     \<lparr>created_at_min = ''2024-01-01T00:00:00.000Z'',
      created_at_max = ''2024-02-01T00:00:00.000Z'', q_customer_id = None\<rparr>"

text \<open>
  A second upstream lists a third order, created on the evening of 31 January in a
  zone five hours behind UTC. The metafield query fails for order 1002, and order 1003
  has no metafields and no fulfillments.
\<close>

definition degraded_orders :: "order list" where
  "degraded_orders = sample_orders @ [sample_order 1003 ''2024-01-31T22:00:00-05:00'']"

definition degraded_upstream :: upstream where
  "degraded_upstream =
     \<lparr>orders_page = (\<lambda>n q since_id. Inr degraded_orders),
      order_metafields =
        (\<lambda>i. if i = 1002 then Inl (UpstreamError (Some 429))
             else if i = 1003 then Inr [] else Inr sample_metafields),
      order_fulfillments = (\<lambda>i. if i = 1003 then Inr [] else Inr sample_fulfillments)\<rparr>"

text \<open>The same listing with every GraphQL query failing.\<close>

definition unreachable_upstream :: upstream where
  "unreachable_upstream =
     degraded_upstream
       \<lparr>order_metafields := (\<lambda>i. Inl (UpstreamError None)),
        order_fulfillments := (\<lambda>i. Inl (UpstreamError None))\<rparr>"

text \<open>The calls, the rows, the groups and the report of the sample request on it.\<close>

definition sample_row ::
  "nat \<Rightarrow> string \<Rightarrow> string \<Rightarrow> jsnum \<Rightarrow> jsnum \<Rightarrow> jsnum \<Rightarrow> jsnum \<Rightarrow> jsnum \<Rightarrow> report_row" where
  "sample_row i num created ls ad bill act pm =
     \<lparr>order_id = i, order_number = Some num, order_date = created,
      customer_id = Some 8688425369879, customer_name = ''Auxia Team'',
      customer_email = Some ''auxia@veeryoffices.com'',
      line_sum = ls, additional_charges = ad, billing_amount = bill, actual_spend = act,
      profit_margin = pm\<rparr>"

definition degraded_calls :: "upstream_call list" where
  "degraded_calls =
     [OrdersPage sample_query None, OrderMetafields 1001, OrderFulfillments 1001,
      OrderMetafields 1002, OrderMetafields 1003, OrderFulfillments 1003]"

definition degraded_rows :: "report_row list" where
  "degraded_rows =
     [sample_row 1001 ''1001'' ''2024-01-15T10:30:00-05:00''
        (Fin 100) (Fin 10) (Fin 110) (Fin 88) (Fin 20),
      sample_row 1002 ''1002'' ''2024-01-20T09:00:00-05:00''
        (Fin 100) (Fin 0) (Fin 100) (Fin 0) (Fin 0),
      sample_row 1003 ''1003'' ''2024-01-31T22:00:00-05:00''
        (Fin 0) (Fin 0) (Fin 0) (Fin 0) (Fin 0)]"

definition degraded_groups :: "(string \<times> summary_group) list" where
  "degraded_groups =
     [(''auxia@veeryoffices.com|2024-01'',
       \<lparr>g_customer = ''auxia@veeryoffices.com'', g_month = ''2024-01'', g_orders = 2,
        g_amount = Fin 210, g_order_numbers = [''1001'', ''1002''],
        g_total_billing = Fin 210, g_total_actual = Fin 88, g_avg_profit_margin = Fin 0\<rparr>),
      (''auxia@veeryoffices.com|2024-02'',
       \<lparr>g_customer = ''auxia@veeryoffices.com'', g_month = ''2024-02'', g_orders = 1,
        g_amount = Fin 0, g_order_numbers = [''1003''],
        g_total_billing = Fin 0, g_total_actual = Fin 0, g_avg_profit_margin = Fin 0\<rparr>)]"

definition degraded_report :: report where
  "degraded_report = \<lparr>summary = map (summary_of \<circ> snd) degraded_groups, detail = degraded_rows\<rparr>"

text \<open>
  The calls, the rows, the group and the report of the sample request on the first
  upstream: one group for January with two orders and an amount of 220.
\<close>

definition sample_calls :: "order_query \<Rightarrow> upstream_call list" where
  "sample_calls q =
     [OrdersPage q None, OrderMetafields 1001, OrderFulfillments 1001,
      OrderMetafields 1002, OrderFulfillments 1002]"

definition sample_rows :: "report_row list" where
  "sample_rows =
     [sample_row 1001 ''1001'' ''2024-01-15T10:30:00-05:00''
        (Fin 100) (Fin 10) (Fin 110) (Fin 88) (Fin 20),
      sample_row 1002 ''1002'' ''2024-01-20T09:00:00-05:00''
        (Fin 100) (Fin 10) (Fin 110) (Fin 88) (Fin 20)]"

definition sample_groups :: "(string \<times> summary_group) list" where
  "sample_groups =
     [(''auxia@veeryoffices.com|2024-01'',
       \<lparr>g_customer = ''auxia@veeryoffices.com'', g_month = ''2024-01'', g_orders = 2,
        g_amount = Fin 220, g_order_numbers = [''1001'', ''1002''],
        g_total_billing = Fin 220, g_total_actual = Fin 176, g_avg_profit_margin = Fin 0\<rparr>)]"

definition sample_report :: report where
  "sample_report = \<lparr>summary = map (summary_of \<circ> snd) sample_groups, detail = sample_rows\<rparr>"

text \<open>
  Two more request bodies: one whose start is not a date, and one whose start and end
  are exchanged, with the query it leads to. The listing endpoint takes the same three
  fields as query parameters.
\<close>

definition not_a_date_body :: report_body where
  "not_a_date_body = sample_body\<lparr>b_start := JStr ''not-a-date''\<rparr>"

definition reversed_body :: report_body where
  "reversed_body = sample_body\<lparr>b_start := b_end sample_body, b_end := b_start sample_body\<rparr>"

definition reversed_query :: order_query where
  "reversed_query =
     \<lparr>created_at_min = ''2024-02-01T00:00:00.000Z'',
      created_at_max = ''2024-01-01T00:00:00.000Z'', q_customer_id = None\<rparr>"

definition orders_request_of :: "report_body \<Rightarrow> orders_request" where
  "orders_request_of body =
     \<lparr>r_start = b_start body, r_end = b_end body, r_customerId = b_customerId body\<rparr>"

text \<open>
  A line item whose fulfillable quantity exceeds its quantity, an order with that line,
  and an upstream whose fulfillment query fails. The second order has a line of which
  two of three items are fulfilled, a line with nothing fulfilled and a removed line.
\<close>

definition overcounted_lines :: "line_item list" where
  "overcounted_lines =
     [\<lparr>li_fulfillment_status = JNull, li_fulfillable_quantity = JNum (Fin 2),
       li_quantity = JNum (Fin 1), li_price = JStr ''10.00''\<rparr>]"

definition overcounted_order :: order where
  "overcounted_order =
     (sample_order 1004 ''2024-01-15T10:30:00-05:00'')\<lparr>o_line_items := overcounted_lines\<rparr>"

definition partial_lines :: "line_item list" where
  "partial_lines =
     [\<lparr>li_fulfillment_status = JStr ''partial'', li_fulfillable_quantity = JNum (Fin 1),
       li_quantity = JNum (Fin 3), li_price = JStr ''10''\<rparr>,
      \<lparr>li_fulfillment_status = JNull, li_fulfillable_quantity = JNum (Fin 2),
       li_quantity = JNum (Fin 2), li_price = JStr ''50.00''\<rparr>,
      \<lparr>li_fulfillment_status = JStr ''removed'', li_fulfillable_quantity = JNum (Fin 5),
       li_quantity = JNum (Fin 1), li_price = JStr ''50.00''\<rparr>]"

definition partial_order :: order where
  "partial_order =
     (sample_order 1005 ''2024-01-15T10:30:00-05:00'')\<lparr>o_line_items := partial_lines\<rparr>"

definition no_fulfillments_upstream :: upstream where
  "no_fulfillments_upstream =
     sample_upstream\<lparr>order_fulfillments := (\<lambda>i. Inl (UpstreamError (Some 502)))\<rparr>"

text \<open>
  Metadata values of the three kinds (a JSON money object, free text, a plain number
  is \<open>''10''\<close>), an entry that matches by its combined key alone, and a list whose first
  matching entries hold no number.
\<close>

definition money_json :: string where
  \<open>money_json = ''{"amount":"12.50","currency_code":"USD"}''\<close>

definition free_text :: string where
  "free_text = ''5 and 7''"

definition keyed_charges :: "string \<Rightarrow> metafield" where
  "keyed_charges v =
     \<lparr>mf_namespace = ''custom'', mf_key = ''distacart.additional_charges'', mf_value = v\<rparr>"

definition mixed_metafields :: "metafield list" where
  "mixed_metafields =
     [actual_total ''n/a'', charges ''n/a'', keyed_charges ''5'', charges ''7'', actual_total ''9'']"

text \<open>
  An upstream whose only order has the additional charges \<open>{"amount":"abc"}\<close>, with the
  calls, the row, the group and the report of the sample request on it; and a list whose
  first matching entries hold that text.
\<close>

definition nan_json :: string where
  \<open>nan_json = ''{"amount":"abc"}''\<close>

definition nan_orders :: "order list" where
  "nan_orders = [sample_order 1001 ''2024-01-15T10:30:00-05:00'']"

definition nan_calls :: "upstream_call list" where
  "nan_calls = [OrdersPage sample_query None, OrderMetafields 1001, OrderFulfillments 1001]"

definition nan_metafields :: "metafield list" where
  "nan_metafields = [charges nan_json]"

definition nan_first_metafields :: "metafield list" where
  "nan_first_metafields =
     [actual_total nan_json, charges nan_json, charges ''5'', actual_total ''9'']"

definition nan_upstream :: upstream where
  "nan_upstream =
     \<lparr>orders_page = (\<lambda>n q since_id. Inr nan_orders),
      order_metafields = (\<lambda>i. Inr nan_metafields),
      order_fulfillments = (\<lambda>i. Inr sample_fulfillments)\<rparr>"

definition nan_rows :: "report_row list" where
  "nan_rows =
     [sample_row 1001 ''1001'' ''2024-01-15T10:30:00-05:00'' (Fin 100) NaN NaN (Fin 0) (Fin 0)]"

definition nan_groups :: "(string \<times> summary_group) list" where
  "nan_groups =
     [(''auxia@veeryoffices.com|2024-01'',
       \<lparr>g_customer = ''auxia@veeryoffices.com'', g_month = ''2024-01'', g_orders = 1,
        g_amount = Fin 0, g_order_numbers = [''1001''],
        g_total_billing = Fin 0, g_total_actual = Fin 0, g_avg_profit_margin = Fin 0\<rparr>)]"

definition nan_report :: report where
  "nan_report = \<lparr>summary = map (summary_of \<circ> snd) nan_groups, detail = nan_rows\<rparr>"

text \<open>
  A long listing: 10300 orders with the identifiers 1 to 10300, all of the same customer
  and created at the same time, behind an upstream that pages them by \<open>since_id\<close>.
\<close>

definition long_listing :: "order list" where
  "long_listing = map (\<lambda>i. sample_order (Suc i) ''2024-01-15T10:30:00-05:00'') [0..<10300]"

definition long_upstream :: upstream where
  "long_upstream = sample_upstream\<lparr>orders_page := paged_listing long_listing\<rparr>"

section \<open>Evaluation of the sample data\<close>

lemmas num_defs = match_all_numbers.simps match_number_at_def match_digits_def match_fraction_def
  show_nat.simps StringToNumber_def trim_def is_space_def unsigned_decimal_def radix_literal_def is_digit_def is_digit_base_def digit_value_def
  digits_value_def parse_exponent_def pow10_def

lemmas date_defs = iso_string_def civil_from_days_def civil_from_doe_def civil_from_yoe_def
  civil_from_doy_def civil_from_mp_def year_string_def date_string_def time_string_def
  digit_char_def pad_digits.simps

lemma sample_dates:
  "toISOString (new_Date sample_runtime (b_start sample_body)) = Inr ''2024-01-01T00:00:00.000Z''"
  "toISOString (new_Date sample_runtime (b_end sample_body)) = Inr ''2024-02-01T00:00:00.000Z''"
  by (simp_all add: sample_body_def sample_runtime_def date_defs)

lemma sample_body_fields:
  "truthy (b_start sample_body)" "truthy (b_end sample_body)" "truthy (b_metric sample_body)"
  "b_metric sample_body = JStr ''billing''" "\<not> truthy (b_customerId sample_body)"
  by (simp_all add: sample_body_def)

lemma sample_report_query: "report_query sample_runtime sample_body = sample_query"
  by (simp add: report_query_def sample_dates sample_body_fields sample_query_def)

lemma sample_months:
  "monthKey sample_runtime ''2024-01-15T10:30:00-05:00'' = Inr ''2024-01''"
  "monthKey sample_runtime ''2024-01-20T09:00:00-05:00'' = Inr ''2024-01''"
  "monthKey sample_runtime ''2024-01-31T22:00:00-05:00'' = Inr ''2024-02''"
  by (simp_all add: monthKey_def sample_runtime_def date_defs)

lemma sample_fetch:
  "fetch_orders degraded_upstream q [] [] None 0 = ([OrdersPage q None], Inr degraded_orders)"
  "fetch_orders unreachable_upstream q [] [] None 0 = ([OrdersPage q None], Inr degraded_orders)"
  "fetch_orders sample_upstream q [] [] None 0 = ([OrdersPage q None], Inr sample_orders)"
  by (simp_all add: fetch_orders.simps degraded_upstream_def unreachable_upstream_def
        sample_upstream_def sample_orders_def degraded_orders_def)

lemma sample_numbers:
  "StringToNumber ''50.00'' = Fin 50" "StringToNumber ''100.0'' = Fin 100"
  "StringToNumber ''10'' = Fin 10" "StringToNumber ''88'' = Fin 88"
  by (simp_all add: num_defs)

lemma sample_parse:
  "parseAdditionalCharges sample_runtime sample_metafields = Fin 10"
  "parseActualTotal sample_runtime sample_metafields = Fin 88"
  by (simp_all add: sample_metafields_def charges_def actual_total_def is_additional_charges_def
        is_actual_total_def json_money_amount_def sample_numbers)

lemma sample_sums:
  "add_fulfillments (Fin 0) sample_fulfillments = Fin 100"
  "add_line_items (Fin 0) sample_lines = Fin 100"
  by (simp_all add: sample_fulfillments_def sample_lines_def sample_numbers num_or_def
        num_truthy_def js_or_def js_gt_def js_sub_def)

lemma sample_order_fields:
  "order_number_of (sample_order 1001 c) = Some ''1001''"
  "order_number_of (sample_order 1002 c) = Some ''1002''"
  "order_number_of (sample_order 1003 c) = Some ''1003''"
  "customer_id_of (sample_order i c) = Some 8688425369879"
  "customer_email_of (sample_order i c) = Some ''auxia@veeryoffices.com''"
  "getCustomerName (Some 8688425369879) = ''Auxia Team''"
  "o_id (sample_order i c) = i"
  "o_created_at (sample_order i c) = c"
  "o_line_items (sample_order i c) = sample_lines"
  by (simp_all add: order_number_of_def customer_id_of_def customer_email_of_def sample_order_def
        getCustomerName_def customerInfo_def digit_char_def trim_def is_space_def show_nat.simps)

lemma degraded_responses:
  "order_metafields degraded_upstream 1001 = Inr sample_metafields"
  "order_metafields degraded_upstream 1002 = Inl (UpstreamError (Some 429))"
  "order_metafields degraded_upstream 1003 = Inr []"
  "order_fulfillments degraded_upstream 1001 = Inr sample_fulfillments"
  "order_fulfillments degraded_upstream 1003 = Inr []"
  by (simp_all add: degraded_upstream_def)

lemma sample_margin:
  "js_gt (Fin 110) (Fin 0)"
  "js_mul (js_div (js_sub (Fin 110) (Fin 88)) (Fin 110)) (Fin 100) = Fin 20"
  by (simp_all add: js_gt_def js_sub_def)

lemma degraded_enrich:
  "enrich_order sample_runtime degraded_upstream (sample_order 1001 c)
     = ([OrderMetafields 1001, OrderFulfillments 1001],
        sample_row 1001 ''1001'' c (Fin 100) (Fin 10) (Fin 110) (Fin 88) (Fin 20))"
  "enrich_order sample_runtime degraded_upstream (sample_order 1002 c)
     = ([OrderMetafields 1002],
        sample_row 1002 ''1002'' c (Fin 100) (Fin 0) (Fin 100) (Fin 0) (Fin 0))"
  "enrich_order sample_runtime degraded_upstream (sample_order 1003 c)
     = ([OrderMetafields 1003, OrderFulfillments 1003],
        sample_row 1003 ''1003'' c (Fin 0) (Fin 0) (Fin 0) (Fin 0) (Fin 0))"
  by (simp_all add: enrich_order_def sample_order_fields degraded_responses sample_parse sample_sums
        sample_row_def sample_margin js_gt_def Let_def)

lemma degraded_enrich_orders:
  "enrich_orders sample_runtime degraded_upstream [OrdersPage sample_query None] [] degraded_orders
     = (degraded_calls, degraded_rows)"
  by (simp add: degraded_orders_def sample_orders_def degraded_enrich degraded_rows_def
        degraded_calls_def)

lemma degraded_group_rows:
  "group_rows sample_runtime (JStr ''billing'') [] degraded_rows = Inr degraded_groups"
  by (simp add: degraded_rows_def sample_row_def sample_months customerKey_of_def new_group_def
        add_row_def metric_field_def num_or_def num_truthy_def degraded_groups_def Let_def)

lemma degraded_eval:
  "post_report sample_runtime degraded_upstream sample_body = (degraded_calls, Report degraded_report)"
  by (simp add: post_report_def sample_body_fields sample_dates sample_fetch degraded_enrich_orders
        degraded_group_rows sample_query_def [symmetric] degraded_report_def)

section \<open>The structure of a report\<close>

lemma enrich_orders_eq:
  "enrich_orders rt up calls rows orders =
     (calls @ concat (map (\<lambda>ord. fst (enrich_order rt up ord)) orders),
      rows @ map (\<lambda>ord. snd (enrich_order rt up ord)) orders)"
  by (induction orders arbitrary: calls rows) (simp_all add: case_prod_beta)

lemma enrich_order_ignores_total:
  "enrich_order rt (with_order_totals f up) (ord\<lparr>o_total_price := t\<rparr>) = enrich_order rt up ord"
  by (simp add: enrich_order_def with_order_totals_def order_number_of_def customer_email_of_def customer_id_of_def Let_def split: sum.splits)

lemma last_map_total:
  "chunk \<noteq> [] \<Longrightarrow> o_id (last (map (\<lambda>ord. ord\<lparr>o_total_price := f ord\<rparr>) chunk)) = o_id (last chunk)"
  by (simp add: last_map)

lemma fetch_orders_totals:
  "fetch_orders (with_order_totals f up) q calls (map (\<lambda>ord. ord\<lparr>o_total_price := f ord\<rparr>) orders) since_id tot =
     (case fetch_orders up q calls orders since_id tot of
        (cs, Inl err) \<Rightarrow> (cs, Inl err)
      | (cs, Inr os) \<Rightarrow> (cs, Inr (map (\<lambda>ord. ord\<lparr>o_total_price := f ord\<rparr>) os)))"
proof (induction up q calls orders since_id tot rule: fetch_orders.induct)
  case (1 up q calls orders since_id totalFetched)
  show ?case
  proof (cases "orders_page up (length calls) q since_id")
    case (Inl err)
    then show ?thesis
      by (simp add: fetch_orders.simps [of _ _ calls] with_order_totals_def)
  next
    case (Inr chunk)
    have pg: "orders_page (with_order_totals f up) (length calls) q since_id
               = Inr (map (\<lambda>ord. ord\<lparr>o_total_price := f ord\<rparr>) chunk)"
      by (simp add: with_order_totals_def Inr)
    show ?thesis
    proof (cases "length chunk < 250 \<or> 10000 < totalFetched + length chunk")
      case True
      then show ?thesis
        using Inr pg by (auto simp add: fetch_orders.simps [of _ _ calls])
    next
      case False
      then have ne: "chunk \<noteq> []" by auto
      define S where "S = (if o_id (last chunk) = 0 then None else Some (o_id (last chunk)))"
      define g where "g = (\<lambda>ord. ord\<lparr>o_total_price := f ord\<rparr>)"
      have S': "(if o_id (last (map g chunk)) = 0 then None else Some (o_id (last (map g chunk)))) = S"
        using last_map_total [OF ne, of f] by (simp add: S_def g_def)
      have pg': "orders_page (with_order_totals f up) (length calls) q since_id = Inr (map g chunk)"
        using pg by (simp add: g_def)
      have L: "fetch_orders (with_order_totals f up) q calls (map g orders) since_id totalFetched
                = fetch_orders (with_order_totals f up) q (calls @ [OrdersPage q since_id])
                    (map g (orders @ chunk)) S (totalFetched + length chunk)"
        using False by (subst fetch_orders.simps) (simp add: pg' S' del: last_map)
      have R: "fetch_orders up q calls orders since_id totalFetched
                = fetch_orders up q (calls @ [OrdersPage q since_id]) (orders @ chunk) S
                    (totalFetched + length chunk)"
        using False by (subst fetch_orders.simps) (simp add: Inr S_def)
      have ih: "fetch_orders (with_order_totals f up) q (calls @ [OrdersPage q since_id])
                  (map g (orders @ chunk)) S (totalFetched + length chunk)
                = (case fetch_orders up q (calls @ [OrdersPage q since_id]) (orders @ chunk) S
                          (totalFetched + length chunk) of
                     (cs, Inl err) \<Rightarrow> (cs, Inl err)
                   | (cs, Inr os) \<Rightarrow> (cs, Inr (map g os)))"
        using "1.IH" [OF Inr] False unfolding S_def g_def by simp
      show ?thesis
        using L R ih unfolding g_def by simp
    qed
  qed
qed

lemma enrich_comp_totals:
  "(\<lambda>ord. snd (enrich_order rt (with_order_totals f up) ord)) \<circ> (\<lambda>ord. ord\<lparr>o_total_price := f ord\<rparr>)
     = (\<lambda>ord. snd (enrich_order rt up ord))"
  "(\<lambda>ord. fst (enrich_order rt (with_order_totals f up) ord)) \<circ> (\<lambda>ord. ord\<lparr>o_total_price := f ord\<rparr>)
     = (\<lambda>ord. fst (enrich_order rt up ord))"
  by (simp_all add: fun_eq_iff enrich_order_ignores_total)

lemma post_report_ignores_totals:
  "post_report rt (with_order_totals f up) body = post_report rt up body"
proof -
  have f: "\<And>q. fetch_orders (with_order_totals f up) q [] [] None 0 =
     (case fetch_orders up q [] [] None 0 of
        (cs, Inl err) \<Rightarrow> (cs, Inl err)
      | (cs, Inr os) \<Rightarrow> (cs, Inr (map (\<lambda>ord. ord\<lparr>o_total_price := f ord\<rparr>) os)))"
    using fetch_orders_totals [of f up _ "[]" "[]" None 0] by simp
  show ?thesis
    by (simp add: post_report_def f enrich_orders_eq enrich_comp_totals
          split: sum.splits prod.splits)
qed

lemma js_add_zero_right: "js_add x (Fin 0) = x"
  by (cases x) simp_all

lemma group_rows_isl:
  "isl (group_rows rt metric groups rows) \<longleftrightarrow> (\<exists>r \<in> set rows. isl (monthKey rt (order_date r)))"
proof (induction rows arbitrary: groups)
  case Nil
  show ?case by simp
next
  case (Cons r rs)
  show ?case
  proof (cases "monthKey rt (order_date r)")
    case (Inl err)
    then show ?thesis by simp
  next
    case (Inr month)
    then show ?thesis using Cons.IH by (simp add: Let_def)
  qed
qed

lemma enrich_order_date:
  "order_date (snd (enrich_order rt up ord)) = o_created_at ord"
  by (simp add: enrich_order_def Let_def split: sum.splits)

lemma enrich_order_id:
  "order_id (snd (enrich_order rt up ord)) = o_id ord"
  by (simp add: enrich_order_def Let_def split: sum.splits)

lemma fetch_orders_listing:
  "orders_page up' = orders_page up \<Longrightarrow>
     fetch_orders up' q calls orders since_id tot = fetch_orders up q calls orders since_id tot"
proof (induction up q calls orders since_id tot rule: fetch_orders.induct)
  case (1 up q calls orders since_id totalFetched)
  show ?case
  proof (cases "orders_page up (length calls) q since_id")
    case (Inl err)
    then show ?thesis using "1.prems"
      by (simp add: fetch_orders.simps [of _ _ calls])
  next
    case (Inr chunk)
    show ?thesis
    proof (cases "length chunk < 250 \<or> 10000 < totalFetched + length chunk")
      case True
      then show ?thesis using Inr "1.prems"
        by (auto simp add: fetch_orders.simps [of _ _ calls])
    next
      case False
      then show ?thesis
        using Inr "1.prems" "1.IH" [OF Inr _ _ "1.prems"]
        by (simp add: fetch_orders.simps [of _ _ calls])
    qed
  qed
qed

lemma post_report_Report_iff:
  "(\<exists>calls rep. post_report rt up body = (calls, Report rep)) \<longleftrightarrow>
     truthy (b_start body) \<and> truthy (b_end body)
     \<and> (b_metric body = JStr ''billing'' \<or> b_metric body = JStr ''actual'')
     \<and> \<not> isl (toISOString (new_Date rt (b_start body)))
     \<and> \<not> isl (toISOString (new_Date rt (b_end body)))
     \<and> (\<exists>orders. snd (fetch_orders up (report_query rt body) [] [] None 0) = Inr orders
           \<and> (\<forall>ord \<in> set orders. \<not> isl (monthKey rt (o_created_at ord))))"
  (is "?L \<longleftrightarrow> ?R")
proof
  assume l: ?L
  have G: "\<And>metric orders groups.
             group_rows rt metric [] (map (\<lambda>ord. snd (enrich_order rt up ord)) orders) = Inr groups
             \<Longrightarrow> \<forall>ord \<in> set orders. \<not> isl (monthKey rt (o_created_at ord))"
  proof -
    fix metric orders groups
    assume "group_rows rt metric [] (map (\<lambda>ord. snd (enrich_order rt up ord)) orders) = Inr groups"
    then have "\<not> isl (group_rows rt metric [] (map (\<lambda>ord. snd (enrich_order rt up ord)) orders))"
      by simp
    then show "\<forall>ord \<in> set orders. \<not> isl (monthKey rt (o_created_at ord))"
      by (simp add: group_rows_isl enrich_order_date)
  qed
  from l show ?R
    by (auto simp add: post_report_def report_query_def enrich_orders_eq dest!: G
          split: if_splits sum.splits prod.splits)
next
  assume r: ?R
  then obtain orders where
    a: "snd (fetch_orders up (report_query rt body) [] [] None 0) = Inr orders"
       "\<forall>ord \<in> set orders. \<not> isl (monthKey rt (o_created_at ord))"
    by blast
  obtain cmin cmax where
    d: "toISOString (new_Date rt (b_start body)) = Inr cmin"
       "toISOString (new_Date rt (b_end body)) = Inr cmax"
    using r by (cases "toISOString (new_Date rt (b_start body))";
                cases "toISOString (new_Date rt (b_end body))") auto
  have "\<not> isl (group_rows rt (b_metric body) [] (map (\<lambda>ord. snd (enrich_order rt up ord)) orders))"
    using a(2) by (simp add: group_rows_isl enrich_order_date)
  then obtain groups where
    g: "group_rows rt (b_metric body) [] (map (\<lambda>ord. snd (enrich_order rt up ord)) orders) = Inr groups"
    by (cases "group_rows rt (b_metric body) [] (map (\<lambda>ord. snd (enrich_order rt up ord)) orders)") auto
  have t: "truthy (b_metric body)" using r by auto
  show ?L
    using r t a(1) d g
    by (cases "fetch_orders up (report_query rt body) [] [] None 0")
       (auto simp add: post_report_def report_query_def enrich_orders_eq)
qed

lemma post_report_detail:
  assumes "post_report rt up body = (calls, Report rep)"
  shows "\<exists>orders. snd (fetch_orders up (report_query rt body) [] [] None 0) = Inr orders
           \<and> detail rep = map (\<lambda>ord. snd (enrich_order rt up ord)) orders"
  using assms
  by (auto simp add: post_report_def report_query_def enrich_orders_eq
        split: if_splits sum.splits prod.splits)

lemma enrich_order_fallback:
  assumes "isl (order_metafields up (o_id ord))"
  shows "line_sum (snd (enrich_order rt up ord)) = add_line_items (Fin 0) (o_line_items ord)"
    and "additional_charges (snd (enrich_order rt up ord)) = Fin 0"
    and "billing_amount (snd (enrich_order rt up ord)) = line_sum (snd (enrich_order rt up ord))"
    and "actual_spend (snd (enrich_order rt up ord)) = Fin 0"
    and "profit_margin (snd (enrich_order rt up ord)) = Fin 0"
  using assms by (auto simp add: enrich_order_def Let_def split: sum.splits)

lemma enrich_order_billing:
  "billing_amount (snd (enrich_order rt up ord)) =
     js_add (line_sum (snd (enrich_order rt up ord))) (additional_charges (snd (enrich_order rt up ord)))"
  by (simp add: enrich_order_def Let_def js_add_zero_right split: sum.splits)

lemma degraded_fetched:
  assumes "snd (fetch_orders degraded_upstream (report_query sample_runtime sample_body) [] [] None 0)
             = Inr orders"
  shows "orders = degraded_orders"
  using assms by (simp add: sample_fetch)

lemma degraded_nth:
  "degraded_orders ! 0 = sample_order 1001 ''2024-01-15T10:30:00-05:00''"
  "degraded_orders ! Suc 0 = sample_order 1002 ''2024-01-20T09:00:00-05:00''"
  "degraded_orders ! 2 = sample_order 1003 ''2024-01-31T22:00:00-05:00''"
  "length degraded_orders = 3"
  by (simp_all add: degraded_orders_def sample_orders_def)

section \<open>Billing amount\<close>

text \<open>
  C1. Every row of a report's detail list, whether its order went through the normal
  enrichment or through the fallback for a failed metafield query, has
  \<open>billing_amount = line_sum + additional_charges\<close>. The amount is never taken from the
  upstream order total: an upstream that reports other totals gets the same calls and
  the same response.
\<close>

theorem billing_amount_is_line_sum_plus_additional:
  assumes "post_report rt up body = (calls, Report rep)"
  shows "(\<forall>r \<in> set (detail rep). billing_amount r = js_add (line_sum r) (additional_charges r))
         \<and> post_report rt (with_order_totals f up) body = (calls, Report rep)"
proof -
  obtain orders where d: "detail rep = map (\<lambda>ord. snd (enrich_order rt up ord)) orders"
    using post_report_detail [OF assms] by blast
  have "\<forall>r \<in> set (detail rep). billing_amount r = js_add (line_sum r) (additional_charges r)"
    unfolding d using enrich_order_billing by auto
  then show ?thesis
    using assms by (simp add: post_report_ignores_totals)
qed

theorem billing_amount_is_line_sum_plus_additional_witness:
  "post_report sample_runtime degraded_upstream sample_body = (degraded_calls, Report degraded_report)
   \<and> billing_amount (detail degraded_report ! 0)
       = js_add (line_sum (detail degraded_report ! 0)) (additional_charges (detail degraded_report ! 0))
   \<and> billing_amount (detail degraded_report ! 1)
       = js_add (line_sum (detail degraded_report ! 1)) (additional_charges (detail degraded_report ! 1))
   \<and> post_report sample_runtime (with_order_totals (\<lambda>ord. JNull) degraded_upstream) sample_body
       = (degraded_calls, Report degraded_report)"
  using billing_amount_is_line_sum_plus_additional [OF degraded_eval, of "\<lambda>ord. JNull"] degraded_eval
  by (simp add: degraded_report_def degraded_rows_def)

section \<open>Orders whose metafield query fails\<close>

text \<open>
  C5. When a request yields a report, its detail list has one row for each fetched
  order, in order. The row of an order whose metafield query failed has the line sum of
  the line-item fallback, no additional charges, a billing amount equal to the line sum,
  no actual spend and a profit margin of 0. No failure of the enrichment queries drops
  an order or the report: on any upstream with the same order listing, whatever its
  GraphQL queries answer, the request yields a report on the same orders.
\<close>

theorem failed_metafield_query_keeps_the_order:
  assumes "post_report rt up body = (calls, Report rep)"
  shows "(\<exists>orders.
            snd (fetch_orders up (report_query rt body) [] [] None 0) = Inr orders
            \<and> map order_id (detail rep) = map o_id orders
            \<and> (\<forall>i < length orders. isl (order_metafields up (o_id (orders ! i))) \<longrightarrow>
                  line_sum (detail rep ! i) = add_line_items (Fin 0) (o_line_items (orders ! i))
                  \<and> additional_charges (detail rep ! i) = Fin 0
                  \<and> billing_amount (detail rep ! i) = line_sum (detail rep ! i)
                  \<and> actual_spend (detail rep ! i) = Fin 0
                  \<and> profit_margin (detail rep ! i) = Fin 0))
         \<and> (\<forall>up'. orders_page up' = orders_page up \<longrightarrow>
               (\<exists>calls' rep'. post_report rt up' body = (calls', Report rep')
                  \<and> map order_id (detail rep') = map order_id (detail rep)))"
proof -
  obtain orders where
    f: "snd (fetch_orders up (report_query rt body) [] [] None 0) = Inr orders"
    and d: "detail rep = map (\<lambda>ord. snd (enrich_order rt up ord)) orders"
    using post_report_detail [OF assms] by blast
  have ids: "map order_id (detail rep) = map o_id orders"
    by (simp add: d enrich_order_id comp_def)
  have rows: "\<forall>i < length orders. isl (order_metafields up (o_id (orders ! i))) \<longrightarrow>
                  line_sum (detail rep ! i) = add_line_items (Fin 0) (o_line_items (orders ! i))
                  \<and> additional_charges (detail rep ! i) = Fin 0
                  \<and> billing_amount (detail rep ! i) = line_sum (detail rep ! i)
                  \<and> actual_spend (detail rep ! i) = Fin 0
                  \<and> profit_margin (detail rep ! i) = Fin 0"
    by (simp add: d enrich_order_fallback)
  have other: "\<exists>calls' rep'. post_report rt up' body = (calls', Report rep')
                  \<and> map order_id (detail rep') = map order_id (detail rep)"
    if same: "orders_page up' = orders_page up" for up'
  proof -
    have fe: "fetch_orders up' (report_query rt body) [] [] None 0
               = fetch_orders up (report_query rt body) [] [] None 0"
      by (rule fetch_orders_listing [OF same])
    have "\<exists>calls rep. post_report rt up body = (calls, Report rep)"
      using assms by blast
    then have "\<exists>calls' rep'. post_report rt up' body = (calls', Report rep')"
      unfolding post_report_Report_iff fe .
    then obtain calls' rep' where r': "post_report rt up' body = (calls', Report rep')"
      by blast
    obtain orders' where
      f': "snd (fetch_orders up' (report_query rt body) [] [] None 0) = Inr orders'"
      and d': "detail rep' = map (\<lambda>ord. snd (enrich_order rt up' ord)) orders'"
      using post_report_detail [OF r'] by blast
    have "orders' = orders" using f f' fe by simp
    then have "map order_id (detail rep') = map order_id (detail rep)"
      by (simp add: d d' enrich_order_id comp_def)
    then show ?thesis using r' by blast
  qed
  show ?thesis using f ids rows other by blast
qed

theorem failed_metafield_query_keeps_the_order_witness:
  "post_report sample_runtime degraded_upstream sample_body = (degraded_calls, Report degraded_report)
   \<and> isl (order_metafields degraded_upstream 1002)
   \<and> map order_id (detail degraded_report) = [1001, 1002, 1003]
   \<and> line_sum (detail degraded_report ! 1) = add_line_items (Fin 0) sample_lines
   \<and> additional_charges (detail degraded_report ! 1) = Fin 0
   \<and> billing_amount (detail degraded_report ! 1) = line_sum (detail degraded_report ! 1)
   \<and> actual_spend (detail degraded_report ! 1) = Fin 0
   \<and> profit_margin (detail degraded_report ! 1) = Fin 0
   \<and> orders_page unreachable_upstream = orders_page degraded_upstream
   \<and> http_status (snd (post_report sample_runtime unreachable_upstream sample_body)) = 200"
proof -
  note t = failed_metafield_query_keeps_the_order [OF degraded_eval]
  from t obtain orders where
    f: "snd (fetch_orders degraded_upstream (report_query sample_runtime sample_body) [] [] None 0)
          = Inr orders"
    and ids: "map order_id (detail degraded_report) = map o_id orders"
    and rows: "\<forall>i < length orders. isl (order_metafields degraded_upstream (o_id (orders ! i))) \<longrightarrow>
                  line_sum (detail degraded_report ! i) = add_line_items (Fin 0) (o_line_items (orders ! i))
                  \<and> additional_charges (detail degraded_report ! i) = Fin 0
                  \<and> billing_amount (detail degraded_report ! i) = line_sum (detail degraded_report ! i)
                  \<and> actual_spend (detail degraded_report ! i) = Fin 0
                  \<and> profit_margin (detail degraded_report ! i) = Fin 0"
    by blast
  have o: "orders = degraded_orders" by (rule degraded_fetched [OF f])
  have failed: "isl (order_metafields degraded_upstream 1002)"
    by (simp add: degraded_responses)
  have row: "line_sum (detail degraded_report ! 1) = add_line_items (Fin 0) sample_lines
             \<and> additional_charges (detail degraded_report ! 1) = Fin 0
             \<and> billing_amount (detail degraded_report ! 1) = line_sum (detail degraded_report ! 1)
             \<and> actual_spend (detail degraded_report ! 1) = Fin 0
             \<and> profit_margin (detail degraded_report ! 1) = Fin 0"
    using rows [rule_format, of 1] failed
    by (simp add: o degraded_nth sample_order_fields)
  have same: "orders_page unreachable_upstream = orders_page degraded_upstream"
    by (simp add: unreachable_upstream_def)
  from t same obtain calls' rep' where
    "post_report sample_runtime unreachable_upstream sample_body = (calls', Report rep')"
    by blast
  then have st: "http_status (snd (post_report sample_runtime unreachable_upstream sample_body)) = 200"
    by simp
  have "map order_id (detail degraded_report) = [1001, 1002, 1003]"
    using ids by (simp add: o degraded_orders_def sample_orders_def sample_order_fields)
  then show ?thesis using degraded_eval failed row same st by simp
qed

section \<open>Profit margin\<close>

text \<open>
  C6, as the code has it. In a report, the row of an order whose metafield query
  succeeded has the profit margin \<open>(billing_amount - actual_spend) / billing_amount * 100\<close>
  when its billing amount is positive and 0 otherwise. The row of an order whose
  metafield query failed has the profit margin 0, also when its billing amount is
  positive. In every row, a billing amount that is not positive gives the margin 0.
\<close>

theorem profit_margin_of_a_row:
  assumes "post_report rt up body = (calls, Report rep)"
  shows "\<exists>orders.
           snd (fetch_orders up (report_query rt body) [] [] None 0) = Inr orders
           \<and> map order_id (detail rep) = map o_id orders
           \<and> (\<forall>i < length orders.
                 (\<not> isl (order_metafields up (o_id (orders ! i))) \<longrightarrow>
                    profit_margin (detail rep ! i) = spec_profit_margin (detail rep ! i))
                 \<and> (isl (order_metafields up (o_id (orders ! i))) \<longrightarrow>
                    profit_margin (detail rep ! i) = Fin 0)
                 \<and> (\<not> js_gt (billing_amount (detail rep ! i)) (Fin 0) \<longrightarrow>
                    profit_margin (detail rep ! i) = Fin 0))"
proof -
  obtain orders where
    f: "snd (fetch_orders up (report_query rt body) [] [] None 0) = Inr orders"
    and d: "detail rep = map (\<lambda>ord. snd (enrich_order rt up ord)) orders"
    using post_report_detail [OF assms] by blast
  have ids: "map order_id (detail rep) = map o_id orders"
    by (simp add: d enrich_order_id comp_def)
  have m: "(\<not> isl (order_metafields up (o_id ord)) \<longrightarrow>
              profit_margin (snd (enrich_order rt up ord)) = spec_profit_margin (snd (enrich_order rt up ord)))
           \<and> (isl (order_metafields up (o_id ord)) \<longrightarrow> profit_margin (snd (enrich_order rt up ord)) = Fin 0)
           \<and> (\<not> js_gt (billing_amount (snd (enrich_order rt up ord))) (Fin 0) \<longrightarrow>
                 profit_margin (snd (enrich_order rt up ord)) = Fin 0)" for ord
    by (auto simp add: enrich_order_def spec_profit_margin_def Let_def split: sum.splits)
  show ?thesis using f ids m by (auto simp add: d)
qed

theorem profit_margin_of_a_row_witness:
  "post_report sample_runtime degraded_upstream sample_body = (degraded_calls, Report degraded_report)
   \<and> \<not> isl (order_metafields degraded_upstream 1001)
   \<and> profit_margin (detail degraded_report ! 0) = spec_profit_margin (detail degraded_report ! 0)
   \<and> isl (order_metafields degraded_upstream 1002)
   \<and> profit_margin (detail degraded_report ! 1) = Fin 0
   \<and> \<not> js_gt (billing_amount (detail degraded_report ! 2)) (Fin 0)
   \<and> profit_margin (detail degraded_report ! 2) = Fin 0"
proof -
  note t = profit_margin_of_a_row [OF degraded_eval]
  from t obtain orders where
    f: "snd (fetch_orders degraded_upstream (report_query sample_runtime sample_body) [] [] None 0)
          = Inr orders"
    and rows: "\<forall>i < length orders.
                 (\<not> isl (order_metafields degraded_upstream (o_id (orders ! i))) \<longrightarrow>
                    profit_margin (detail degraded_report ! i) = spec_profit_margin (detail degraded_report ! i))
                 \<and> (isl (order_metafields degraded_upstream (o_id (orders ! i))) \<longrightarrow>
                    profit_margin (detail degraded_report ! i) = Fin 0)
                 \<and> (\<not> js_gt (billing_amount (detail degraded_report ! i)) (Fin 0) \<longrightarrow>
                    profit_margin (detail degraded_report ! i) = Fin 0)"
    by blast
  have o: "orders = degraded_orders" by (rule degraded_fetched [OF f])
  have q: "\<not> isl (order_metafields degraded_upstream 1001)"
          "isl (order_metafields degraded_upstream 1002)"
    by (simp_all add: degraded_responses)
  have b: "\<not> js_gt (billing_amount (detail degraded_report ! 2)) (Fin 0)"
    by (simp add: degraded_report_def degraded_rows_def sample_row_def js_gt_def)
  have r0: "profit_margin (detail degraded_report ! 0) = spec_profit_margin (detail degraded_report ! 0)"
    using rows [rule_format, of 0] q by (simp add: o degraded_nth sample_order_fields)
  have r1: "profit_margin (detail degraded_report ! 1) = Fin 0"
    using rows [rule_format, of 1] q by (simp add: o degraded_nth sample_order_fields)
  have r2: "profit_margin (detail degraded_report ! 2) = Fin 0"
    using rows [rule_format, of 2] b by (simp add: o degraded_nth)
  show ?thesis using degraded_eval q b r0 r1 r2 by simp
qed

text \<open>
  The claim as stated fails on the fallback rows: order 1002 of the sample has a
  billing amount of 100 and an actual spend of 0, so the formula gives 100, and its row
  says 0.
\<close>

theorem profit_margin_counterexample:
  "post_report sample_runtime degraded_upstream sample_body = (degraded_calls, Report degraded_report)
   \<and> js_gt (billing_amount (detail degraded_report ! 1)) (Fin 0)
   \<and> spec_profit_margin (detail degraded_report ! 1) = Fin 100
   \<and> profit_margin (detail degraded_report ! 1) = Fin 0"
  using degraded_eval
  by (simp add: degraded_report_def degraded_rows_def sample_row_def spec_profit_margin_def
        js_gt_def js_sub_def)

section \<open>The specification's scenario\<close>

lemma sample_enrich:
  "enrich_order sample_runtime sample_upstream (sample_order 1001 c)
     = ([OrderMetafields 1001, OrderFulfillments 1001],
        sample_row 1001 ''1001'' c (Fin 100) (Fin 10) (Fin 110) (Fin 88) (Fin 20))"
  "enrich_order sample_runtime sample_upstream (sample_order 1002 c)
     = ([OrderMetafields 1002, OrderFulfillments 1002],
        sample_row 1002 ''1002'' c (Fin 100) (Fin 10) (Fin 110) (Fin 88) (Fin 20))"
  by (simp_all add: enrich_order_def sample_order_fields sample_upstream_def sample_parse sample_sums
        sample_row_def sample_margin Let_def)

lemma sample_enrich_orders:
  "enrich_orders sample_runtime sample_upstream [OrdersPage q None] [] sample_orders
     = (sample_calls q, sample_rows)"
  by (simp add: sample_orders_def sample_enrich sample_rows_def sample_calls_def)

lemma sample_group_rows:
  "group_rows sample_runtime (JStr ''billing'') [] sample_rows = Inr sample_groups"
  by (simp add: sample_rows_def sample_row_def sample_months customerKey_of_def new_group_def
        add_row_def metric_field_def num_or_def num_truthy_def sample_groups_def Let_def)

lemma sample_eval:
  "post_report sample_runtime sample_upstream sample_body = (sample_calls sample_query, Report sample_report)"
  by (simp add: post_report_def sample_body_fields sample_dates sample_fetch sample_enrich_orders
        sample_group_rows sample_query_def [symmetric] sample_report_def)

lemma sample_summary:
  "map s_month (summary sample_report) = [''2024-01'']"
  "map s_orders (summary sample_report) = [2]"
  "map s_amount (summary sample_report) = [Fin 220]"
  by (simp_all add: sample_report_def sample_groups_def summary_of_def)

section \<open>Validation of the request\<close>

lemma bad_body_fields:
  "truthy (b_start not_a_date_body)" "truthy (b_end not_a_date_body)"
  "truthy (b_metric not_a_date_body)" "b_metric not_a_date_body = JStr ''billing''"
  "toISOString (new_Date sample_runtime (b_start not_a_date_body)) = Inl RangeError"
  "new_Date sample_runtime (b_start not_a_date_body) = None"
  by (simp_all add: not_a_date_body_def sample_body_def sample_runtime_def)

lemma reversed_body_fields:
  "truthy (b_start reversed_body)" "truthy (b_end reversed_body)"
  "truthy (b_metric reversed_body)" "b_metric reversed_body = JStr ''billing''"
  "\<not> truthy (b_customerId reversed_body)"
  "b_start reversed_body = b_end sample_body" "b_end reversed_body = b_start sample_body"
  by (simp_all add: reversed_body_def sample_body_def)

lemma sample_times:
  "new_Date sample_runtime (b_start sample_body) = Some 1704067200000"
  "new_Date sample_runtime (b_end sample_body) = Some 1706745600000"
  by (simp_all add: sample_body_def sample_runtime_def)

lemma post_report_invalid_date:
  assumes "truthy (b_start body)" "truthy (b_end body)"
    and "b_metric body = JStr ''billing'' \<or> b_metric body = JStr ''actual''"
    and "new_Date rt (b_start body) = None \<or> new_Date rt (b_end body) = None"
  shows "post_report rt up body = ([], Failed 500)"
  using assms
  by (cases "new_Date rt (b_start body)"; cases "new_Date rt (b_end body)")
     (auto simp add: post_report_def)

lemma post_report_rejects:
  "\<not> truthy (b_start body) \<or> \<not> truthy (b_end body) \<or> \<not> truthy (b_metric body) \<Longrightarrow>
     \<exists>msg. post_report rt up body = ([], BadRequest msg)"
  "b_metric body \<noteq> JStr ''billing'' \<Longrightarrow> b_metric body \<noteq> JStr ''actual'' \<Longrightarrow>
     \<exists>msg. post_report rt up body = ([], BadRequest msg)"
  by (auto simp add: post_report_def)

text \<open>
  C2. \<open>POST /api/report\<close> rejects a missing field and an unknown metric with a 400
  before any upstream call, but it does not validate its dates. A start that is not a
  date makes \<open>toISOString\<close> throw: the response is a 500, not a 400. A start after the end
  is not rejected at all: the orders are fetched and a report is returned.
  \<open>GET /api/orders\<close> answers both requests with a 400.
\<close>

theorem report_does_not_validate_dates:
  "post_report sample_runtime sample_upstream not_a_date_body = ([], Failed 500)
   \<and> post_report sample_runtime sample_upstream reversed_body
       = (sample_calls reversed_query, Report sample_report)
   \<and> get_orders sample_runtime sample_upstream (orders_request_of not_a_date_body)
       = ([], BadRequest ''Invalid date format. Use ISO 8601 format (YYYY-MM-DDTHH:mm:ss.sssZ)'')
   \<and> get_orders sample_runtime sample_upstream (orders_request_of reversed_body)
       = ([], BadRequest ''Start date must be before end date'')"
proof -
  have a: "post_report sample_runtime sample_upstream not_a_date_body = ([], Failed 500)"
    by (simp add: post_report_def bad_body_fields)
  have b: "post_report sample_runtime sample_upstream reversed_body
             = (sample_calls reversed_query, Report sample_report)"
    by (simp add: post_report_def reversed_body_fields sample_body_fields sample_dates sample_fetch
          sample_enrich_orders sample_group_rows reversed_query_def [symmetric] sample_report_def)
  have c: "get_orders sample_runtime sample_upstream (orders_request_of not_a_date_body)
             = ([], BadRequest ''Invalid date format. Use ISO 8601 format (YYYY-MM-DDTHH:mm:ss.sssZ)'')"
    by (simp add: get_orders_def orders_request_of_def bad_body_fields)
  have d: "get_orders sample_runtime sample_upstream (orders_request_of reversed_body)
             = ([], BadRequest ''Start date must be before end date'')"
    by (simp add: get_orders_def orders_request_of_def reversed_body_fields sample_body_fields
          sample_times)
  show ?thesis using a b c d by simp
qed

theorem report_does_not_validate_dates_witness:
  "http_status (snd (post_report sample_runtime sample_upstream not_a_date_body)) = 500
   \<and> fst (post_report sample_runtime sample_upstream not_a_date_body) = []
   \<and> http_status (snd (post_report sample_runtime sample_upstream reversed_body)) = 200
   \<and> fst (post_report sample_runtime sample_upstream reversed_body) = sample_calls reversed_query
   \<and> http_status (snd (get_orders sample_runtime sample_upstream (orders_request_of not_a_date_body))) = 400
   \<and> http_status (snd (get_orders sample_runtime sample_upstream (orders_request_of reversed_body))) = 400"
  using report_does_not_validate_dates by simp

section \<open>The line sum\<close>

lemma js_gt_num_or: "js_gt (num_or n (Fin 0)) (Fin 0) \<longleftrightarrow> js_gt n (Fin 0)"
  by (cases n) (simp_all add: num_or_def num_truthy_def js_gt_def)

lemma num_or_positive: "js_gt n (Fin 0) \<Longrightarrow> num_or n (Fin 0) = n"
  by (cases n) (auto simp add: num_or_def num_truthy_def js_gt_def)

lemma StringToNumber_empty: "StringToNumber [] = Fin 0"
  by (simp add: StringToNumber_def trim_def)

lemma Number_falsy:
  "\<not> truthy v \<Longrightarrow> Number v = Fin 0 \<or> Number v = NaN"
  by (cases v) (auto simp add: num_truthy_def StringToNumber_empty)

lemma js_div_zero_positive: "js_gt q (Fin 0) \<Longrightarrow> js_div (Fin 0) q = Fin 0"
  by (cases q) (auto simp add: js_gt_def)

lemma js_div_NaN: "js_div NaN q = NaN"
  by (cases q) simp_all

lemma price_of_node:
  assumes "js_gt (Number q) (Fin 0)"
  shows "js_gt (num_or (js_div (Number (js_or amt (JNum (Fin 0)))) (Number q)) (Fin 0)) (Fin 0)
           \<longleftrightarrow> js_gt (js_div (Number amt) (Number q)) (Fin 0)"
proof (cases "truthy amt")
  case True
  then show ?thesis by (simp add: js_or_def js_gt_num_or)
next
  case False
  have l: "\<not> js_gt (num_or (js_div (Number (js_or amt (JNum (Fin 0)))) (Number q)) (Fin 0)) (Fin 0)"
    using False assms by (simp add: js_or_def js_gt_num_or js_div_zero_positive) (simp add: js_gt_def)
  have r: "\<not> js_gt (js_div (Number amt) (Number q)) (Fin 0)"
    using Number_falsy [OF False] assms
    by (auto simp add: js_div_zero_positive js_div_NaN) (simp_all add: js_gt_def)
  show ?thesis using l r by simp
qed

lemma price_of_node_eq:
  assumes "js_gt (Number q) (Fin 0)" and "js_gt (js_div (Number amt) (Number q)) (Fin 0)"
  shows "num_or (js_div (Number (js_or amt (JNum (Fin 0)))) (Number q)) (Fin 0)
           = js_div (Number amt) (Number q)"
proof (cases "truthy amt")
  case True
  then show ?thesis using assms(2) by (simp add: js_or_def num_or_positive)
next
  case False
  have "\<not> js_gt (js_div (Number amt) (Number q)) (Fin 0)"
    using Number_falsy [OF False] assms(1)
    by (auto simp add: js_div_zero_positive js_div_NaN) (simp_all add: js_gt_def)
  then show ?thesis using assms(2) by simp
qed

lemma add_fulfillment_line_items_eq:
  "add_fulfillment_line_items acc nodes =
     foldl js_add acc (map spec_line_amount (filter spec_counted nodes))"
proof (induction nodes arbitrary: acc)
  case Nil
  show ?case by simp
next
  case (Cons node nodes)
  show ?case
  proof (cases "js_gt (Number (fli_quantity node)) (Fin 0)")
    case True
    note q = num_or_positive [OF True]
    show ?thesis
    proof (cases "js_gt (spec_unit_price node) (Fin 0)")
      case p: True
      then have p': "js_gt (js_div (Number (fli_amount node)) (Number (fli_quantity node))) (Fin 0)"
        by (simp add: spec_unit_price_def)
      show ?thesis
        using True p price_of_node [OF True, of "fli_amount node"] price_of_node_eq [OF True p']
        by (simp add: Cons.IH Let_def q spec_counted_def spec_line_amount_def spec_unit_price_def)
    next
      case p: False
      then show ?thesis
        using True price_of_node [OF True, of "fli_amount node"]
        by (simp add: Cons.IH Let_def q spec_counted_def spec_unit_price_def)
    qed
  next
    case False
    then show ?thesis
      by (simp add: Cons.IH Let_def js_gt_num_or spec_counted_def)
  qed
qed

lemma add_fulfillments_eq:
  "add_fulfillments acc fs =
     foldl js_add acc
       (map spec_line_amount
          (filter spec_counted (concat (map f_line_items (filter (\<lambda>f. f_status f = ''SUCCESS'') fs)))))"
  by (induction fs arbitrary: acc) (simp_all add: add_fulfillment_line_items_eq)

lemma add_fulfillments_spec: "add_fulfillments (Fin 0) fs = spec_fulfilled_sum fs"
  by (simp add: add_fulfillments_eq spec_fulfilled_sum_def)

lemma add_line_items_eq:
  "add_line_items acc lis =
     foldl js_add acc
       (map fulfilled_amount
          (filter (\<lambda>li. \<not> skipped_status li \<and> partly_fulfilled li) lis))"
  by (induction lis arbitrary: acc)
     (simp_all add: Let_def skipped_status_def partly_fulfilled_def fulfilled_amount_def
        field_number_def)

lemma add_line_items_guarded: "add_line_items (Fin 0) lis = guarded_fallback_sum lis"
  by (simp add: add_line_items_eq guarded_fallback_sum_def)

lemma other_responses:
  "order_metafields sample_upstream i = Inr sample_metafields"
  "order_fulfillments sample_upstream i = Inr sample_fulfillments"
  "order_metafields no_fulfillments_upstream i = Inr sample_metafields"
  "order_fulfillments no_fulfillments_upstream i = Inl (UpstreamError (Some 502))"
  by (simp_all add: sample_upstream_def no_fulfillments_upstream_def)

lemma sample_spec_sums:
  "spec_fulfilled_sum sample_fulfillments = Fin 100"
  "guarded_fallback_sum sample_lines = Fin 100"
  "spec_fallback_sum sample_lines = Fin 100"
  "guarded_fallback_sum overcounted_lines = Fin 0"
  "spec_fallback_sum overcounted_lines = Fin (- 10)"
  by (simp_all add: spec_fulfilled_sum_def guarded_fallback_sum_def spec_fallback_sum_def
        sample_fulfillments_def sample_lines_def overcounted_lines_def spec_unit_price_def
        fulfilled_amount_def field_number_def skipped_status_def partly_fulfilled_def
        spec_counted_def spec_line_amount_def sample_numbers
        num_or_def num_truthy_def js_gt_def js_sub_def num_defs)

lemma fulfilled_amount_zero:
  assumes "within_quantity li" and "\<not> partly_fulfilled li"
  shows "fulfilled_amount li = Fin 0"
proof -
  obtain p t f where n: "field_number (li_price li) = Fin p" "field_number (li_quantity li) = Fin t"
      "field_number (li_fulfillable_quantity li) = Fin f"
    using assms(1) by (auto simp add: within_quantity_def finite_number_def split: jsnum.splits)
  have "f = t" using assms n by (simp add: within_quantity_def partly_fulfilled_def)
  then show ?thesis using n by (simp add: fulfilled_amount_def js_sub_def)
qed

lemma guarded_fold_eq:
  assumes "\<forall>li \<in> set lis. \<not> skipped_status li \<longrightarrow> within_quantity li"
  shows "foldl js_add acc
           (map fulfilled_amount (filter (\<lambda>li. \<not> skipped_status li \<and> partly_fulfilled li) lis))
         = foldl js_add acc (map fulfilled_amount (filter (\<lambda>li. \<not> skipped_status li) lis))"
  using assms
proof (induction lis arbitrary: acc)
  case Nil
  show ?case by simp
next
  case (Cons li lis)
  have ih: "\<And>acc. foldl js_add acc
           (map fulfilled_amount (filter (\<lambda>li. \<not> skipped_status li \<and> partly_fulfilled li) lis))
         = foldl js_add acc (map fulfilled_amount (filter (\<lambda>li. \<not> skipped_status li) lis))"
    using Cons.IH Cons.prems by simp
  show ?case
  proof (cases "skipped_status li")
    case True
    then show ?thesis using ih by simp
  next
    case False
    then have w: "within_quantity li" using Cons.prems by simp
    show ?thesis
    proof (cases "partly_fulfilled li")
      case True
      then show ?thesis using False ih by simp
    next
      case p: False
      show ?thesis
        using False p ih fulfilled_amount_zero [OF w p] by (simp add: js_add_zero_right)
    qed
  qed
qed

lemma guarded_fallback_sum_spec:
  "\<forall>li \<in> set lis. \<not> skipped_status li \<longrightarrow> within_quantity li \<Longrightarrow>
     guarded_fallback_sum lis = spec_fallback_sum lis"
  unfolding guarded_fallback_sum_def spec_fallback_sum_def by (rule guarded_fold_eq)

lemma partial_sums:
  "\<forall>li \<in> set sample_lines. \<not> skipped_status li \<longrightarrow> within_quantity li"
  "\<forall>li \<in> set partial_lines. \<not> skipped_status li \<longrightarrow> within_quantity li"
  "spec_fallback_sum partial_lines = Fin 20"
  "o_line_items partial_order = partial_lines"
  "o_id partial_order = 1005"
  by (simp_all add: sample_lines_def partial_lines_def partial_order_def sample_order_fields
        within_quantity_def finite_number_def skipped_status_def field_number_def
        spec_fallback_sum_def fulfilled_amount_def sample_numbers
        num_or_def num_truthy_def js_sub_def)

text \<open>
  C3. When the metafield query and the fulfillment query succeed, the line sum is the
  specification's sum over the line items of the successful fulfillments: unit price =
  total amount / quantity, and price times quantity is added when both are positive.
  When the fulfillment query fails (or the metafield query does), the line sum comes
  from the order's own line items: those with status removed, cancelled, refunded or
  returned are skipped, and the code adds price times
  \<open>fulfilled_qty = total_quantity - fulfillable_quantity\<close> for each of the others whose
  fulfillable quantity is less than its quantity. On an order whose line items are
  within their quantity, a line that the code leaves out adds 0, so the line sum is the
  specification's sum over all the lines that are not skipped.
\<close>

theorem line_sum_of_an_order:
  "(order_metafields up (o_id ord) = Inr mfs \<longrightarrow> order_fulfillments up (o_id ord) = Inr fs \<longrightarrow>
      line_sum (snd (enrich_order rt up ord)) = spec_fulfilled_sum fs)
   \<and> (order_metafields up (o_id ord) = Inr mfs \<longrightarrow> order_fulfillments up (o_id ord) = Inl err \<longrightarrow>
      line_sum (snd (enrich_order rt up ord)) = guarded_fallback_sum (o_line_items ord))
   \<and> (order_metafields up (o_id ord) = Inl err \<longrightarrow>
      line_sum (snd (enrich_order rt up ord)) = guarded_fallback_sum (o_line_items ord))
   \<and> ((\<forall>li \<in> set (o_line_items ord). \<not> skipped_status li \<longrightarrow> within_quantity li) \<longrightarrow>
      guarded_fallback_sum (o_line_items ord) = spec_fallback_sum (o_line_items ord))"
  by (simp add: enrich_order_def Let_def add_fulfillments_spec add_line_items_guarded
        guarded_fallback_sum_spec)

theorem line_sum_of_an_order_witness:
  "order_metafields sample_upstream 1001 = Inr sample_metafields
   \<and> order_fulfillments sample_upstream 1001 = Inr sample_fulfillments
   \<and> line_sum (snd (enrich_order sample_runtime sample_upstream (sample_order 1001 [])))
       = spec_fulfilled_sum sample_fulfillments
   \<and> order_metafields no_fulfillments_upstream 1001 = Inr sample_metafields
   \<and> order_fulfillments no_fulfillments_upstream 1001 = Inl (UpstreamError (Some 502))
   \<and> line_sum (snd (enrich_order sample_runtime no_fulfillments_upstream (sample_order 1001 [])))
       = spec_fallback_sum sample_lines
   \<and> spec_fallback_sum sample_lines = Fin 100
   \<and> order_metafields degraded_upstream 1002 = Inl (UpstreamError (Some 429))
   \<and> line_sum (snd (enrich_order sample_runtime degraded_upstream (sample_order 1002 [])))
       = spec_fallback_sum sample_lines
   \<and> order_fulfillments no_fulfillments_upstream 1005 = Inl (UpstreamError (Some 502))
   \<and> line_sum (snd (enrich_order sample_runtime no_fulfillments_upstream partial_order))
       = spec_fallback_sum partial_lines
   \<and> spec_fallback_sum partial_lines = Fin 20"
  using
    line_sum_of_an_order [of sample_upstream "sample_order 1001 []" sample_metafields
      sample_fulfillments sample_runtime]
    line_sum_of_an_order [of no_fulfillments_upstream "sample_order 1001 []" sample_metafields _
      sample_runtime "UpstreamError (Some 502)"]
    line_sum_of_an_order [of degraded_upstream "sample_order 1002 []" _ _
      sample_runtime "UpstreamError (Some 429)"]
    line_sum_of_an_order [of no_fulfillments_upstream partial_order sample_metafields _
      sample_runtime "UpstreamError (Some 502)"]
  by (simp add: other_responses degraded_responses sample_order_fields partial_sums sample_spec_sums)

text \<open>
  Outside these orders the two sums differ: a line with quantity 1, fulfillable quantity
  2 and price 10 adds \<open>10 * (1 - 2) = -10\<close> to the specification's fallback sum, and
  nothing to the line sum of the code.
\<close>

lemma fallback_sum_beyond_quantity:
  "\<not> within_quantity (hd overcounted_lines)
   \<and> order_metafields no_fulfillments_upstream (o_id overcounted_order) = Inr sample_metafields
   \<and> order_fulfillments no_fulfillments_upstream (o_id overcounted_order) = Inl (UpstreamError (Some 502))
   \<and> line_sum (snd (enrich_order sample_runtime no_fulfillments_upstream overcounted_order)) = Fin 0
   \<and> spec_fallback_sum (o_line_items overcounted_order) = Fin (- 10)"
proof -
  have l: "o_line_items overcounted_order = overcounted_lines"
    by (simp add: overcounted_order_def)
  have "line_sum (snd (enrich_order sample_runtime no_fulfillments_upstream overcounted_order))
          = guarded_fallback_sum overcounted_lines"
    by (simp add: enrich_order_def Let_def other_responses add_line_items_guarded l)
  moreover have "\<not> within_quantity (hd overcounted_lines)"
    by (simp add: overcounted_lines_def within_quantity_def field_number_def num_or_def num_truthy_def)
  ultimately show ?thesis by (simp add: other_responses l sample_spec_sums)
qed

section \<open>Metadata values\<close>

lemma text_numbers:
  "StringToNumber free_text = NaN" "match_all_numbers free_text = [''5'', ''7'']"
  "StringToNumber ''5'' = Fin 5" "StringToNumber ''7'' = Fin 7" "StringToNumber ''9'' = Fin 9"
  "StringToNumber ''n/a'' = NaN" "match_all_numbers ''n/a'' = []"
  "StringToNumber money_json = NaN" "StringToNumber ''12.50'' = Fin (25 / 2)"
  by (simp_all add: free_text_def money_json_def num_defs)

lemma text_json:
  "json_money_amount sample_runtime free_text = None"
  "json_money_amount sample_runtime ''n/a'' = None"
  "json_money_amount sample_runtime ''5'' = None"
  "json_money_amount sample_runtime ''7'' = None"
  "json_money_amount sample_runtime ''9'' = None"
  "json_money_amount sample_runtime ''10'' = None"
  "json_money_amount sample_runtime money_json = Some (Fin (25 / 2))"
  "take (Suc 0) money_json = ''{''"
  "JSON_parse sample_runtime money_json
     = Some (JSObject [(''amount'', JSString ''12.50''), (''currency_code'', JSString ''USD'')])"
  "JSON_parse sample_runtime free_text = None"
  by (simp_all add: json_money_amount_def free_text_def money_json_def sample_runtime_def
        text_numbers num_truthy_def)

lemma entry_kinds:
  "is_additional_charges (charges v)" "is_actual_total (actual_total v)"
  "\<not> is_actual_total (charges v)" "\<not> is_additional_charges (actual_total v)"
  "mf_value (charges v) = v" "mf_value (actual_total v) = v"
  "is_additional_charges (keyed_charges v)" "\<not> is_actual_total (keyed_charges v)"
  "mf_value (keyed_charges v) = v"
  by (simp_all add: is_additional_charges_def is_actual_total_def charges_def actual_total_def
        keyed_charges_def)

text \<open>
  C4, as the code has it. For a matching entry on its own: when its value starts with
  \<open>{\<close>, parses as JSON and has a truthy \<open>amount\<close>, both functions return that amount as a
  number; otherwise, when the value converts to a number, both return that number;
  otherwise \<open>parseAdditionalCharges\<close> returns the sum of all the numeric substrings of the
  text (0 when there is none) and \<open>parseActualTotal\<close> returns 0.
\<close>

theorem metadata_value_of_an_entry:
  assumes "is_additional_charges m" and "is_actual_total m'"
    and "mf_value m = v" and "mf_value m' = v"
  shows "(take 1 v = ''{'' \<longrightarrow> JSON_parse rt v = Some parsed \<longrightarrow> amount_prop parsed = Some a \<longrightarrow>
            json_truthy a \<longrightarrow>
              parseAdditionalCharges rt [m] = json_Number a \<and> parseActualTotal rt [m'] = json_Number a)
         \<and> (json_money_amount rt v = None \<longrightarrow> StringToNumber v \<noteq> NaN \<longrightarrow>
              parseAdditionalCharges rt [m] = StringToNumber v
              \<and> parseActualTotal rt [m'] = StringToNumber v)
         \<and> (json_money_amount rt v = None \<longrightarrow> StringToNumber v = NaN \<longrightarrow>
              parseAdditionalCharges rt [m]
                = foldl js_add (Fin 0) (map StringToNumber (match_all_numbers v))
              \<and> parseActualTotal rt [m'] = Fin 0)"
  using assms by (auto simp add: json_money_amount_def)

theorem metadata_value_of_an_entry_witness:
  "take 1 money_json = ''{''
   \<and> JSON_parse sample_runtime money_json
       = Some (JSObject [(''amount'', JSString ''12.50''), (''currency_code'', JSString ''USD'')])
   \<and> parseAdditionalCharges sample_runtime [charges money_json] = Fin (25 / 2)
   \<and> parseActualTotal sample_runtime [actual_total money_json] = Fin (25 / 2)
   \<and> json_money_amount sample_runtime ''10'' = None
   \<and> parseAdditionalCharges sample_runtime [charges ''10''] = Fin 10
   \<and> parseActualTotal sample_runtime [actual_total ''10''] = Fin 10
   \<and> json_money_amount sample_runtime free_text = None
   \<and> StringToNumber free_text = NaN
   \<and> parseAdditionalCharges sample_runtime [charges free_text] = Fin 12
   \<and> parseActualTotal sample_runtime [actual_total free_text] = Fin 0"
  using
    metadata_value_of_an_entry [where m = "charges money_json" and m' = "actual_total money_json"
      and v = money_json and rt = sample_runtime and a = "JSString ''12.50''" and parsed =
      "JSObject [(''amount'', JSString ''12.50''), (''currency_code'', JSString ''USD'')]"]
    metadata_value_of_an_entry [where m = "charges ''10''" and m' = "actual_total ''10''"
      and v = "''10''" and rt = sample_runtime]
    metadata_value_of_an_entry [where m = "charges free_text" and m' = "actual_total free_text"
      and v = free_text and rt = sample_runtime]
  by (simp add: entry_kinds text_json text_numbers sample_numbers)

text \<open>
  The claim as stated fails on free text with more than one number: the leading numeric
  substring of \<open>5 and 7\<close> is 5, \<open>parseAdditionalCharges\<close> returns 12 and
  \<open>parseActualTotal\<close> returns 0.
\<close>

theorem metadata_value_counterexample:
  "spec_metadata_value sample_runtime free_text = Some (Fin 5)
   \<and> parseAdditionalCharges sample_runtime [charges free_text] = Fin 12
   \<and> parseActualTotal sample_runtime [actual_total free_text] = Fin 0"
  by (simp add: spec_metadata_value_def leading_number_def entry_kinds text_numbers text_json)

section \<open>The entry that decides\<close>

lemma parseActualTotal_find:
  "parseActualTotal rt mfs =
     (case List.find is_actual_total mfs of None \<Rightarrow> Fin 0 | Some m \<Rightarrow> parseActualTotal rt [m])"
  by (induction mfs) (simp_all split: option.splits)

lemma parseAdditionalCharges_skip:
  "is_additional_charges m \<Longrightarrow> \<not> decides rt (mf_value m) \<Longrightarrow>
     parseAdditionalCharges rt (m # ms) = parseAdditionalCharges rt ms"
  by (simp add: decides_def)

lemma parseAdditionalCharges_take:
  "is_additional_charges m \<Longrightarrow> decides rt (mf_value m) \<Longrightarrow>
     parseAdditionalCharges rt (m # ms) = parseAdditionalCharges rt [m]"
  by (auto simp add: decides_def split: option.splits)

lemma parseAdditionalCharges_find:
  "parseAdditionalCharges rt mfs =
     (case List.find (\<lambda>m. is_additional_charges m \<and> decides rt (mf_value m)) mfs of
        None \<Rightarrow> Fin 0
      | Some m \<Rightarrow> parseAdditionalCharges rt [m])"
proof (induction mfs)
  case Nil
  show ?case by simp
next
  case (Cons m ms)
  show ?case
  proof (cases "is_additional_charges m")
    case False
    then show ?thesis using Cons.IH by simp
  next
    case True
    show ?thesis
    proof (cases "decides rt (mf_value m)")
      case y: True
      show ?thesis
        using True y parseAdditionalCharges_take [OF True y, of ms] by simp
    next
      case n: False
      show ?thesis
        using True n parseAdditionalCharges_skip [OF True n, of ms] Cons.IH by simp
    qed
  qed
qed

lemma mixed_decides:
  "\<not> decides sample_runtime ''n/a''" "decides sample_runtime ''5''"
  by (simp_all add: decides_def text_json text_numbers)

lemma mixed_find:
  "List.find is_actual_total mixed_metafields = Some (actual_total ''n/a'')"
  "List.find (\<lambda>m. is_additional_charges m \<and> decides sample_runtime (mf_value m)) mixed_metafields
     = Some (keyed_charges ''5'')"
  "List.find is_additional_charges mixed_metafields = Some (charges ''n/a'')"
  by (simp_all add: mixed_metafields_def entry_kinds mixed_decides)

lemma mixed_single:
  "parseActualTotal sample_runtime [actual_total ''n/a''] = Fin 0"
  "parseAdditionalCharges sample_runtime [keyed_charges ''5''] = Fin 5"
  "parseAdditionalCharges sample_runtime [charges ''n/a''] = Fin 0"
  by (simp_all add: entry_kinds text_json text_numbers)

lemma nan_first_find:
  "json_money_amount sample_runtime nan_json = Some NaN"
  "List.find is_actual_total nan_first_metafields = Some (actual_total nan_json)"
  "List.find (\<lambda>m. is_additional_charges m \<and> decides sample_runtime (mf_value m))
     nan_first_metafields = Some (charges nan_json)"
  "parseActualTotal sample_runtime [actual_total nan_json] = NaN"
  "parseAdditionalCharges sample_runtime [charges nan_json] = NaN"
proof -
  show a: "json_money_amount sample_runtime nan_json = Some NaN"
    by (simp add: json_money_amount_def nan_json_def sample_runtime_def num_defs)
  show "List.find is_actual_total nan_first_metafields = Some (actual_total nan_json)"
    by (simp add: nan_first_metafields_def entry_kinds)
  show "List.find (\<lambda>m. is_additional_charges m \<and> decides sample_runtime (mf_value m))
     nan_first_metafields = Some (charges nan_json)"
    by (simp add: nan_first_metafields_def entry_kinds decides_def a)
  show "parseActualTotal sample_runtime [actual_total nan_json] = NaN"
    by (simp add: entry_kinds a)
  show "parseAdditionalCharges sample_runtime [charges nan_json] = NaN"
    by (simp add: entry_kinds a)
qed

lemma nan_json_parsed:
  "take 1 nan_json = ''{''"
  "JSON_parse sample_runtime nan_json = Some (JSObject [(''amount'', JSString ''abc'')])"
  "amount_prop (JSObject [(''amount'', JSString ''abc'')]) = Some (JSString ''abc'')"
  "json_truthy (JSString ''abc'')"
  "json_Number (JSString ''abc'') = NaN"
  by (simp_all add: nan_json_def sample_runtime_def num_defs)

text \<open>
  C10, as the code has it. An entry matches by the namespace \<open>distacart\<close> with the bare key,
  or by the combined key whatever its namespace. \<open>parseActualTotal\<close> returns the value of
  the first matching entry and ignores the later ones; it returns 0 when no entry
  matches. The value of an entry is \<open>Number(amount)\<close> when its text starts with \<open>{\<close>, parses
  as JSON and has a truthy \<open>amount\<close>, otherwise the text as a number, and 0 when the text
  is not a number. \<open>parseAdditionalCharges\<close> returns the value of the first matching entry
  at which it returns and ignores the later ones; it returns 0 when there is none. It
  returns at a matching entry whose text has a truthy JSON \<open>amount\<close> (the value is
  \<open>Number(amount)\<close>), or converts to a number (the value is that number), or has a numeric
  substring (the value is the sum of all of them); a matching entry with none of these
  is passed over. In both functions a truthy JSON \<open>amount\<close> that is not numeric gives \<open>NaN\<close>:
  the entry is not passed over and no later entry is read.
\<close>

theorem first_entry_that_counts:
  "parseActualTotal rt mfs =
     (case List.find is_actual_total mfs of None \<Rightarrow> Fin 0 | Some m \<Rightarrow> parseActualTotal rt [m])
   \<and> parseAdditionalCharges rt mfs =
     (case List.find (\<lambda>m. is_additional_charges m \<and> decides rt (mf_value m)) mfs of
        None \<Rightarrow> Fin 0
      | Some m \<Rightarrow> parseAdditionalCharges rt [m])
   \<and> (\<forall>m. is_actual_total m \<longrightarrow>
         parseActualTotal rt [m] =
           (case json_money_amount rt (mf_value m) of
              Some n \<Rightarrow> n
            | None \<Rightarrow> if StringToNumber (mf_value m) = NaN then Fin 0
                       else StringToNumber (mf_value m)))
   \<and> (\<forall>m. is_additional_charges m \<longrightarrow>
         parseAdditionalCharges rt [m] =
           (case json_money_amount rt (mf_value m) of
              Some n \<Rightarrow> n
            | None \<Rightarrow> if StringToNumber (mf_value m) \<noteq> NaN then StringToNumber (mf_value m)
                       else foldl js_add (Fin 0) (map StringToNumber (match_all_numbers (mf_value m)))))
   \<and> (\<forall>m ms. is_additional_charges m \<longrightarrow> \<not> decides rt (mf_value m) \<longrightarrow>
         parseAdditionalCharges rt (m # ms) = parseAdditionalCharges rt ms)
   \<and> (\<forall>m ms parsed a.
         take 1 (mf_value m) = ''{'' \<longrightarrow> JSON_parse rt (mf_value m) = Some parsed \<longrightarrow>
         amount_prop parsed = Some a \<longrightarrow> json_truthy a \<longrightarrow> json_Number a = NaN \<longrightarrow>
           (is_actual_total m \<longrightarrow> parseActualTotal rt (m # ms) = NaN)
           \<and> (is_additional_charges m \<longrightarrow> parseAdditionalCharges rt (m # ms) = NaN))"
proof -
  have c3: "\<forall>m. is_actual_total m \<longrightarrow>
         parseActualTotal rt [m] =
           (case json_money_amount rt (mf_value m) of
              Some n \<Rightarrow> n
            | None \<Rightarrow> if StringToNumber (mf_value m) = NaN then Fin 0
                       else StringToNumber (mf_value m))"
    by simp
  have c4: "\<forall>m. is_additional_charges m \<longrightarrow>
         parseAdditionalCharges rt [m] =
           (case json_money_amount rt (mf_value m) of
              Some n \<Rightarrow> n
            | None \<Rightarrow> if StringToNumber (mf_value m) \<noteq> NaN then StringToNumber (mf_value m)
                       else foldl js_add (Fin 0) (map StringToNumber (match_all_numbers (mf_value m))))"
    by (simp split: option.splits)
  have c5: "\<forall>m ms. is_additional_charges m \<longrightarrow> \<not> decides rt (mf_value m) \<longrightarrow>
         parseAdditionalCharges rt (m # ms) = parseAdditionalCharges rt ms"
    using parseAdditionalCharges_skip by blast
  have c6: "\<forall>m ms parsed a.
         take 1 (mf_value m) = ''{'' \<longrightarrow> JSON_parse rt (mf_value m) = Some parsed \<longrightarrow>
         amount_prop parsed = Some a \<longrightarrow> json_truthy a \<longrightarrow> json_Number a = NaN \<longrightarrow>
           (is_actual_total m \<longrightarrow> parseActualTotal rt (m # ms) = NaN)
           \<and> (is_additional_charges m \<longrightarrow> parseAdditionalCharges rt (m # ms) = NaN)"
    by (simp add: json_money_amount_def)
  show ?thesis
    using parseActualTotal_find [of rt mfs] parseAdditionalCharges_find [of rt mfs] c3 c4 c5 c6
    by blast
qed

theorem first_entry_that_counts_witness:
  "parseActualTotal sample_runtime mixed_metafields = Fin 0
   \<and> parseAdditionalCharges sample_runtime mixed_metafields = Fin 5
   \<and> parseActualTotal sample_runtime nan_first_metafields = NaN
   \<and> parseAdditionalCharges sample_runtime nan_first_metafields = NaN
   \<and> parseAdditionalCharges sample_runtime [charges ''n/a'', keyed_charges ''5''] = Fin 5
   \<and> parseActualTotal sample_runtime [actual_total nan_json, actual_total ''9''] = NaN
   \<and> parseAdditionalCharges sample_runtime [charges nan_json, charges ''5''] = NaN"
proof -
  note t = first_entry_that_counts [of sample_runtime mixed_metafields]
  note u = first_entry_that_counts [of sample_runtime nan_first_metafields]
  have a: "parseActualTotal sample_runtime mixed_metafields = Fin 0
           \<and> parseAdditionalCharges sample_runtime mixed_metafields = Fin 5"
    using t [THEN conjunct1] t [THEN conjunct2, THEN conjunct1]
    unfolding mixed_find option.case mixed_single by simp
  have b: "parseActualTotal sample_runtime nan_first_metafields = NaN
           \<and> parseAdditionalCharges sample_runtime nan_first_metafields = NaN"
    using u [THEN conjunct1] u [THEN conjunct2, THEN conjunct1]
    unfolding nan_first_find option.case by simp
  have skip: "is_additional_charges m \<Longrightarrow> \<not> decides sample_runtime (mf_value m) \<Longrightarrow>
                parseAdditionalCharges sample_runtime (m # ms) = parseAdditionalCharges sample_runtime ms"
    for m ms
    using t by blast
  have c: "parseAdditionalCharges sample_runtime [charges ''n/a'', keyed_charges ''5''] = Fin 5"
    using skip [of "charges ''n/a''" "[keyed_charges ''5'']"]
    by (simp only: entry_kinds mixed_decides mixed_single not_False_eq_True)
  have nan: "take 1 (mf_value m) = ''{'' \<Longrightarrow> JSON_parse sample_runtime (mf_value m) = Some parsed \<Longrightarrow>
               amount_prop parsed = Some a \<Longrightarrow> json_truthy a \<Longrightarrow> json_Number a = NaN \<Longrightarrow>
               (is_actual_total m \<longrightarrow> parseActualTotal sample_runtime (m # ms) = NaN)
               \<and> (is_additional_charges m \<longrightarrow> parseAdditionalCharges sample_runtime (m # ms) = NaN)"
    for m ms parsed a
    using t by blast
  have d: "parseActualTotal sample_runtime [actual_total nan_json, actual_total ''9''] = NaN"
    using nan [of "actual_total nan_json" _ _ "[actual_total ''9'']"]
    by (simp only: entry_kinds nan_json_parsed simp_thms)
  have e: "parseAdditionalCharges sample_runtime [charges nan_json, charges ''5''] = NaN"
    using nan [of "charges nan_json" _ _ "[charges ''5'']"]
    by (simp only: entry_kinds nan_json_parsed simp_thms)
  show ?thesis using a b c d e by simp
qed

text \<open>
  The claim as stated fails when the first matching entry holds no number: in the
  sample list that entry gives 0 on its own, and the function returns the 5 of a later
  entry.
\<close>

theorem first_matching_entry_counterexample:
  "List.find is_additional_charges mixed_metafields = Some (charges ''n/a'')
   \<and> parseAdditionalCharges sample_runtime [charges ''n/a''] = Fin 0
   \<and> parseAdditionalCharges sample_runtime mixed_metafields = Fin 5"
  using parseAdditionalCharges_find [of sample_runtime mixed_metafields]
  unfolding mixed_find option.case mixed_single by simp


section \<open>Groups\<close>

lemma length_pad_digits: "length (pad_digits w n) = w"
proof (induction w n rule: pad_digits.induct)
  case (1 w n)
  show ?case
  proof (cases "w = 0")
    case True
    then show ?thesis by (subst pad_digits.simps) simp
  next
    case False
    then show ?thesis using "1.IH" by (subst pad_digits.simps) simp
  qed
qed

lemma length_iso_string: "7 \<le> length (iso_string t)"
proof -
  obtain y m d where c: "civil_from_days (t div 86400000) = (y, m, d)"
    by (cases "civil_from_days (t div 86400000)") auto
  have "4 \<le> length (year_string y)"
    by (simp add: year_string_def length_pad_digits)
  then show ?thesis
    by (simp add: iso_string_def c date_string_def length_pad_digits)
qed

lemma length_monthKey: "monthKey rt s = Inr month \<Longrightarrow> length month = 7"
proof -
  assume a: "monthKey rt s = Inr month"
  then obtain t where "month = take 7 (iso_string t)"
    by (cases "new_Date rt (JStr s)") (auto simp add: monthKey_def)
  then show ?thesis using length_iso_string [of t] by simp
qed

lemma key_injective:
  assumes "length m1 = length m2"
  shows "(c1 @ ''|'' @ m1 = c2 @ ''|'' @ m2) \<longleftrightarrow> (c1 = c2 \<and> m1 = m2)"
proof
  assume e: "c1 @ ''|'' @ m1 = c2 @ ''|'' @ m2"
  have "(c1 @ (''|'' @ m1) = c2 @ (''|'' @ m2)) = (c1 = c2 \<and> ''|'' @ m1 = ''|'' @ m2)"
    by (rule append_eq_append_conv) (simp add: assms)
  then show "c1 = c2 \<and> m1 = m2" using e by simp
next
  assume "c1 = c2 \<and> m1 = m2"
  then show "c1 @ ''|'' @ m1 = c2 @ ''|'' @ m2" by simp
qed

lemma map_fst_update_group: "map fst (update_group k f gs) = map fst gs"
  by (induction gs) auto

lemma map_of_update_group:
  "map_of (update_group k f gs) k' = (if k' = k then map_option f (map_of gs k) else map_of gs k')"
  by (induction gs) auto

lemma group_rows_Cons:
  "monthKey rt (order_date r) = Inr month \<Longrightarrow>
     group_rows rt metric groups (r # rs)
       = group_rows rt metric (group_step metric (customerKey_of r) month r groups) rs"
  by (simp add: group_step_def Let_def)

lemma map_of_group_step:
  "map_of (group_step metric ckey month r groups) k =
     (if k = ckey @ ''|'' @ month
      then Some (add_row metric r
                   (case map_of groups k of Some g \<Rightarrow> g | None \<Rightarrow> new_group ckey month))
      else map_of groups k)"
  by (auto simp add: group_step_def map_of_update_group map_add_def split: option.splits)

lemma keys_group_step:
  "map fst (group_step metric ckey month r groups) =
     (if map_of groups (ckey @ ''|'' @ month) = None
      then map fst groups @ [ckey @ ''|'' @ month] else map fst groups)"
  by (simp add: group_step_def map_fst_update_group)

lemma distinct_group_step:
  "distinct (map fst groups) \<Longrightarrow> distinct (map fst (group_step metric ckey month r groups))"
  by (auto simp add: keys_group_step map_of_eq_None_iff)

lemma group_rows_distinct:
  "group_rows rt metric G0 rows = Inr G \<Longrightarrow> distinct (map fst G0) \<Longrightarrow> distinct (map fst G)"
proof (induction rows arbitrary: G0)
  case Nil
  then show ?case by simp
next
  case (Cons r rs)
  from Cons.prems(1) obtain month where m: "monthKey rt (order_date r) = Inr month"
    by (cases "monthKey rt (order_date r)") auto
  have "group_rows rt metric (group_step metric (customerKey_of r) month r G0) rs = Inr G"
    using Cons.prems(1) unfolding group_rows_Cons [OF m] .
  then show ?case
    using Cons.IH [of "group_step metric (customerKey_of r) month r G0"] Cons.prems(2)
    by (simp add: distinct_group_step)
qed

lemma group_rows_dated:
  "group_rows rt metric G0 rows = Inr G \<Longrightarrow> r \<in> set rows \<Longrightarrow>
     monthKey rt (order_date r) = Inr (month_of rt r)"
proof -
  assume a: "group_rows rt metric G0 rows = Inr G" and r: "r \<in> set rows"
  have "\<not> isl (group_rows rt metric G0 rows)" using a by simp
  then have "\<not> isl (monthKey rt (order_date r))"
    using r by (simp add: group_rows_isl)
  then show ?thesis
    by (cases "monthKey rt (order_date r)") (auto simp add: month_of_def)
qed

lemma group_rows_map_of:
  "group_rows rt metric G0 rows = Inr G \<Longrightarrow>
     map_of G k =
       (if filter (\<lambda>r. group_key rt r = k) rows = [] then map_of G0 k
        else Some (foldl (\<lambda>g r. add_row metric r g)
                     (case map_of G0 k of
                        Some g \<Rightarrow> g
                      | None \<Rightarrow> new_group (customerKey_of (hd (filter (\<lambda>r. group_key rt r = k) rows)))
                                  (month_of rt (hd (filter (\<lambda>r. group_key rt r = k) rows))))
                     (filter (\<lambda>r. group_key rt r = k) rows)))"
proof (induction rows arbitrary: G0)
  case Nil
  then show ?case by simp
next
  case (Cons r rs)
  from Cons.prems obtain month where m: "monthKey rt (order_date r) = Inr month"
    by (cases "monthKey rt (order_date r)") auto
  have mo: "month_of rt r = month" by (simp add: month_of_def m)
  have key: "group_key rt r = customerKey_of r @ ''|'' @ month"
    by (simp add: group_key_def mo)
  define G1 where "G1 = group_step metric (customerKey_of r) month r G0"
  have g: "group_rows rt metric G1 rs = Inr G"
    using Cons.prems unfolding group_rows_Cons [OF m] G1_def .
  note ih = Cons.IH [OF g]
  show ?case
  proof (cases "group_key rt r = k")
    case True
    have s: "map_of G1 k = Some (add_row metric r
               (case map_of G0 k of Some g \<Rightarrow> g | None \<Rightarrow> new_group (customerKey_of r) month))"
      using True by (simp add: G1_def map_of_group_step key)
    show ?thesis using True ih by (simp add: s mo cong: option.case_cong)
  next
    case False
    have s: "map_of G1 k = map_of G0 k"
      using False by (simp add: G1_def map_of_group_step key)
    show ?thesis using False ih by (simp add: s cong: option.case_cong)
  qed
qed

lemma fold_add_row:
  "g_amount (foldl (\<lambda>g r. add_row metric r g) g0 rs)
     = foldl js_add (g_amount g0) (map (counted metric) rs)"
  "g_orders (foldl (\<lambda>g r. add_row metric r g) g0 rs) = g_orders g0 + length rs"
  "g_customer (foldl (\<lambda>g r. add_row metric r g) g0 rs) = g_customer g0"
  "g_month (foldl (\<lambda>g r. add_row metric r g) g0 rs) = g_month g0"
  by (induction rs arbitrary: g0) (simp_all add: add_row_def counted_def)

lemma group_rows_group:
  assumes "group_rows rt metric [] rows = Inr G" and "(k, g) \<in> set G"
  shows "k = g_customer g @ ''|'' @ g_month g"
    and "length (g_month g) = 7"
    and "filter (\<lambda>r. group_key rt r = k) rows = rows_of_group rt (g_customer g) (g_month g) rows"
    and "g_amount g = foldl js_add (Fin 0) (map (counted metric) (rows_of_group rt (g_customer g) (g_month g) rows))"
    and "g_orders g = length (rows_of_group rt (g_customer g) (g_month g) rows)"
    and "rows_of_group rt (g_customer g) (g_month g) rows \<noteq> []"
proof -
  define rs where "rs = filter (\<lambda>r. group_key rt r = k) rows"
  have d: "distinct (map fst G)"
    using group_rows_distinct [OF assms(1)] by simp
  then have mg: "map_of G k = Some g" using assms(2) by simp
  have ne: "rs \<noteq> []"
    using group_rows_map_of [OF assms(1), of k] mg by (auto simp add: rs_def split: if_splits)
  have g: "g = foldl (\<lambda>g r. add_row metric r g)
                 (new_group (customerKey_of (hd rs)) (month_of rt (hd rs))) rs"
    using group_rows_map_of [OF assms(1), of k] mg ne by (simp add: rs_def)
  have gc: "g_customer g = customerKey_of (hd rs)" and gm: "g_month g = month_of rt (hd rs)"
    by (simp_all add: g fold_add_row new_group_def)
  have "hd rs \<in> set rs" using ne by simp
  then have h: "hd rs \<in> set rows" and hk: "group_key rt (hd rs) = k"
    by (simp_all add: rs_def)
  show k: "k = g_customer g @ ''|'' @ g_month g"
    using hk by (simp add: gc gm group_key_def)
  show len: "length (g_month g) = 7"
    using length_monthKey [OF group_rows_dated [OF assms(1) h]] by (simp add: gm)
  have same: "(group_key rt r = k) \<longleftrightarrow>
                (customerKey_of r = g_customer g \<and> monthKey rt (order_date r) = Inr (g_month g))"
    if r: "r \<in> set rows" for r
  proof -
    have dt: "monthKey rt (order_date r) = Inr (month_of rt r)"
      by (rule group_rows_dated [OF assms(1) r])
    have l: "length (month_of rt r) = length (g_month g)"
      using length_monthKey [OF dt] len by simp
    show ?thesis
      using key_injective [OF l, of "customerKey_of r" "g_customer g"] dt
      by (auto simp add: group_key_def k)
  qed
  show f: "filter (\<lambda>r. group_key rt r = k) rows = rows_of_group rt (g_customer g) (g_month g) rows"
    unfolding rows_of_group_def by (rule filter_cong) (simp_all add: same)
  show "g_amount g = foldl js_add (Fin 0) (map (counted metric) (rows_of_group rt (g_customer g) (g_month g) rows))"
    using f by (simp add: g fold_add_row new_group_def rs_def)
  show "g_orders g = length (rows_of_group rt (g_customer g) (g_month g) rows)"
    using f by (simp add: g fold_add_row new_group_def rs_def)
  show "rows_of_group rt (g_customer g) (g_month g) rows \<noteq> []"
    using f ne by (simp add: rs_def)
qed

lemma group_rows_covers:
  assumes "group_rows rt metric [] rows = Inr G" and "r \<in> set rows"
  shows "\<exists>g. (group_key rt r, g) \<in> set G"
proof -
  have "filter (\<lambda>r'. group_key rt r' = group_key rt r) rows \<noteq> []"
    using assms(2) by (auto simp add: filter_empty_conv)
  then obtain g where "map_of G (group_key rt r) = Some g"
    using group_rows_map_of [OF assms(1), of "group_key rt r"] by auto
  then show ?thesis by (blast dest: map_of_SomeD)
qed

lemma post_report_groups:
  assumes "post_report rt up body = (calls, Report rep)"
  shows "\<exists>groups. group_rows rt (b_metric body) [] (detail rep) = Inr groups
           \<and> summary rep = map (summary_of \<circ> snd) groups
           \<and> (b_metric body = JStr ''billing'' \<or> b_metric body = JStr ''actual'')"
  using assms
  by (auto simp add: post_report_def enrich_orders_eq split: if_splits sum.splits prod.splits)

lemma summary_of_fields:
  "s_customer (summary_of g) = g_customer g" "s_month (summary_of g) = g_month g"
  "s_amount (summary_of g) = g_amount g" "s_orders (summary_of g) = g_orders g"
  by (simp_all add: summary_of_def Let_def)

lemma counted_eq: "n \<noteq> NaN \<Longrightarrow> num_or n (Fin 0) = n"
  by (auto simp add: num_or_def num_truthy_def)

lemma metric_field_cases:
  "metric_field (JStr ''billing'') = billing_amount" "metric_field (JStr ''actual'') = actual_spend"
  by (simp_all add: fun_eq_iff metric_field_def)

lemma degraded_rows_of_group:
  "rows_of_group sample_runtime ''auxia@veeryoffices.com'' ''2024-01'' degraded_rows
     = [degraded_rows ! 0, degraded_rows ! 1]"
  "rows_of_group sample_runtime ''auxia@veeryoffices.com'' ''2024-02'' degraded_rows
     = [degraded_rows ! 2]"
  by (simp_all add: rows_of_group_def degraded_rows_def sample_row_def sample_months
        customerKey_of_def)

lemma degraded_summary:
  "s_customer (summary degraded_report ! 0) = ''auxia@veeryoffices.com''"
  "s_month (summary degraded_report ! 0) = ''2024-01''"
  "s_amount (summary degraded_report ! 0) = Fin 210"
  "s_orders (summary degraded_report ! 0) = 2"
  "s_customer (summary degraded_report ! 1) = ''auxia@veeryoffices.com''"
  "s_month (summary degraded_report ! 1) = ''2024-02''"
  "s_orders (summary degraded_report ! 1) = 1"
  "length (summary degraded_report) = 2"
  "detail degraded_report = degraded_rows"
  by (simp_all add: degraded_report_def degraded_groups_def summary_of_fields)

lemma degraded_billing:
  "billing_amount (degraded_rows ! 0) = Fin 110" "billing_amount (degraded_rows ! 1) = Fin 100"
  "billing_amount (degraded_rows ! Suc 0) = Fin 100"
  by (simp_all add: degraded_rows_def sample_row_def)

lemma degraded_counted:
  "foldl js_add (Fin 0) (map (counted (JStr ''billing'')) [degraded_rows ! 0, degraded_rows ! 1]) = Fin 210"
  "foldl js_add (Fin 0) (map billing_amount [degraded_rows ! 0, degraded_rows ! 1]) = Fin 210"
  "billing_amount (degraded_rows ! 0) \<noteq> NaN" "billing_amount (degraded_rows ! 1) \<noteq> NaN"
  by (simp_all add: degraded_billing counted_def metric_field_def num_or_def num_truthy_def)

lemma nan_pieces:
  "fetch_orders nan_upstream q [] [] None 0 = ([OrdersPage q None], Inr nan_orders)"
  "order_metafields nan_upstream i = Inr nan_metafields"
  "order_fulfillments nan_upstream i = Inr sample_fulfillments"
  "json_money_amount sample_runtime nan_json = Some NaN"
  by (simp_all add: fetch_orders.simps nan_upstream_def nan_orders_def json_money_amount_def
        nan_json_def sample_runtime_def num_defs)

lemma nan_parse:
  "parseAdditionalCharges sample_runtime nan_metafields = NaN"
  "parseActualTotal sample_runtime nan_metafields = Fin 0"
  by (simp_all add: nan_metafields_def entry_kinds nan_pieces)

lemma nan_enrich:
  "enrich_order sample_runtime nan_upstream (sample_order 1001 c)
     = ([OrderMetafields 1001, OrderFulfillments 1001],
        sample_row 1001 ''1001'' c (Fin 100) NaN NaN (Fin 0) (Fin 0))"
  by (simp add: enrich_order_def sample_order_fields nan_pieces nan_parse sample_sums sample_row_def
        js_gt_def Let_def)

lemma nan_enrich_orders:
  "enrich_orders sample_runtime nan_upstream [OrdersPage sample_query None] [] nan_orders
     = (nan_calls, nan_rows)"
  by (simp add: nan_orders_def nan_enrich nan_rows_def nan_calls_def)

lemma nan_group_rows:
  "group_rows sample_runtime (JStr ''billing'') [] nan_rows = Inr nan_groups"
  by (simp add: nan_rows_def sample_row_def sample_months customerKey_of_def new_group_def
        add_row_def metric_field_def num_or_def num_truthy_def nan_groups_def Let_def)

lemma nan_eval:
  "post_report sample_runtime nan_upstream sample_body = (nan_calls, Report nan_report)"
  by (simp add: post_report_def sample_body_fields sample_dates nan_pieces nan_enrich_orders
        nan_group_rows sample_query_def [symmetric] nan_report_def)

text \<open>
  C7, as the code has it. For every entry of a report's summary, the amount is the sum,
  in row order, over exactly the rows with the entry's customer key and month, of the
  requested metric field (\<open>billing_amount\<close> for the metric \<open>billing\<close>, \<open>actual_spend\<close> for
  \<open>actual\<close>), where a field that is \<open>NaN\<close> counts as 0. When no row of the group has a
  \<open>NaN\<close> field, this is the specification's plain sum.
\<close>

theorem group_amount_is_sum_of_counted_metric:
  assumes "post_report rt up body = (calls, Report rep)"
  shows "(\<forall>s \<in> set (summary rep).
            s_amount s = foldl js_add (Fin 0)
                           (map (counted (b_metric body))
                              (rows_of_group rt (s_customer s) (s_month s) (detail rep)))
            \<and> ((\<forall>r \<in> set (rows_of_group rt (s_customer s) (s_month s) (detail rep)).
                    metric_field (b_metric body) r \<noteq> NaN) \<longrightarrow>
                 s_amount s = spec_group_amount rt (b_metric body) (s_customer s) (s_month s) (detail rep)))
         \<and> ((b_metric body = JStr ''billing'' \<and> metric_field (b_metric body) = billing_amount)
              \<or> (b_metric body = JStr ''actual'' \<and> metric_field (b_metric body) = actual_spend))"
proof -
  obtain groups where
    g: "group_rows rt (b_metric body) [] (detail rep) = Inr groups"
    and s: "summary rep = map (summary_of \<circ> snd) groups"
    and m: "b_metric body = JStr ''billing'' \<or> b_metric body = JStr ''actual''"
    using post_report_groups [OF assms] by blast
  have a: "s_amount e = foldl js_add (Fin 0)
                          (map (counted (b_metric body))
                             (rows_of_group rt (s_customer e) (s_month e) (detail rep)))"
    if e: "e \<in> set (summary rep)" for e
  proof -
    from e obtain k gr where kg: "(k, gr) \<in> set groups" and eg: "e = summary_of gr"
      by (auto simp add: s)
    show ?thesis
      using group_rows_group(4) [OF g kg] by (simp add: eg summary_of_fields)
  qed
  have b: "s_amount e = spec_group_amount rt (b_metric body) (s_customer e) (s_month e) (detail rep)"
    if e: "e \<in> set (summary rep)"
      and n: "\<forall>r \<in> set (rows_of_group rt (s_customer e) (s_month e) (detail rep)).
                metric_field (b_metric body) r \<noteq> NaN" for e
  proof -
    have "map (counted (b_metric body)) (rows_of_group rt (s_customer e) (s_month e) (detail rep))
            = map (metric_field (b_metric body)) (rows_of_group rt (s_customer e) (s_month e) (detail rep))"
      using n by (intro map_cong) (simp_all add: counted_def counted_eq)
    then show ?thesis by (simp only: a [OF e] spec_group_amount_def)
  qed
  show ?thesis using a b m metric_field_cases by auto
qed

theorem group_amount_is_sum_of_counted_metric_witness:
  "post_report sample_runtime degraded_upstream sample_body = (degraded_calls, Report degraded_report)
   \<and> rows_of_group sample_runtime (s_customer (summary degraded_report ! 0))
        (s_month (summary degraded_report ! 0)) (detail degraded_report)
       = [degraded_rows ! 0, degraded_rows ! 1]
   \<and> billing_amount (degraded_rows ! 0) \<noteq> NaN \<and> billing_amount (degraded_rows ! 1) \<noteq> NaN
   \<and> s_amount (summary degraded_report ! 0)
       = foldl js_add (Fin 0) (map (counted (b_metric sample_body)) [degraded_rows ! 0, degraded_rows ! 1])
   \<and> s_amount (summary degraded_report ! 0)
       = spec_group_amount sample_runtime (b_metric sample_body) (s_customer (summary degraded_report ! 0))
           (s_month (summary degraded_report ! 0)) (detail degraded_report)
   \<and> metric_field (b_metric sample_body) = billing_amount"
proof -
  note t = group_amount_is_sum_of_counted_metric [OF degraded_eval]
  have i: "summary degraded_report ! 0 \<in> set (summary degraded_report)"
    by (simp add: degraded_summary)
  have r: "rows_of_group sample_runtime (s_customer (summary degraded_report ! 0))
             (s_month (summary degraded_report ! 0)) (detail degraded_report)
           = [degraded_rows ! 0, degraded_rows ! 1]"
    by (simp add: degraded_summary degraded_rows_of_group)
  have n: "\<forall>r \<in> set (rows_of_group sample_runtime (s_customer (summary degraded_report ! 0))
             (s_month (summary degraded_report ! 0)) (detail degraded_report)).
             metric_field (b_metric sample_body) r \<noteq> NaN"
    unfolding r by (simp add: sample_body_fields metric_field_cases degraded_billing)
  from t i have
    "s_amount (summary degraded_report ! 0)
       = foldl js_add (Fin 0) (map (counted (b_metric sample_body))
           (rows_of_group sample_runtime (s_customer (summary degraded_report ! 0))
              (s_month (summary degraded_report ! 0)) (detail degraded_report)))"
    and "(\<forall>r \<in> set (rows_of_group sample_runtime (s_customer (summary degraded_report ! 0))
             (s_month (summary degraded_report ! 0)) (detail degraded_report)).
             metric_field (b_metric sample_body) r \<noteq> NaN) \<longrightarrow>
         s_amount (summary degraded_report ! 0)
           = spec_group_amount sample_runtime (b_metric sample_body)
               (s_customer (summary degraded_report ! 0)) (s_month (summary degraded_report ! 0))
               (detail degraded_report)"
    by blast+
  then show ?thesis
    using degraded_eval r n
    by (simp add: degraded_counted sample_body_fields metric_field_cases)
qed

text \<open>
  The claim as stated fails on a row whose metric field is \<open>NaN\<close>. The additional
  charges \<open>{"amount":"abc"}\<close> parse to \<open>Number("abc")\<close>, so the billing amount of the row is
  \<open>NaN\<close> and so is the sum of the billing amounts of its group; the group's amount is 0.
\<close>

theorem group_amount_counterexample:
  "post_report sample_runtime nan_upstream sample_body = (nan_calls, Report nan_report)
   \<and> billing_amount (detail nan_report ! 0) = NaN
   \<and> s_amount (summary nan_report ! 0) = Fin 0
   \<and> spec_group_amount sample_runtime (b_metric sample_body) (s_customer (summary nan_report ! 0))
        (s_month (summary nan_report ! 0)) (detail nan_report) = NaN"
  using nan_eval
  by (simp add: nan_report_def nan_groups_def nan_rows_def summary_of_fields spec_group_amount_def
        rows_of_group_def sample_row_def sample_months customerKey_of_def sample_body_fields
        metric_field_def)

section \<open>Grouping by customer and month\<close>

lemma enrich_order_customer:
  "customer_email (snd (enrich_order rt up ord)) = customer_email_of ord"
  "customer_id (snd (enrich_order rt up ord)) = customer_id_of ord"
  by (simp_all add: enrich_order_def Let_def split: sum.splits)

lemma customerKey_of_enrich:
  "customerKey_of (snd (enrich_order rt up ord)) = spec_customer_key ord"
  unfolding customerKey_of_def enrich_order_customer
  by (auto simp add: spec_customer_key_def customer_email_of_def customer_id_of_def
        split: option.splits)

lemma distinct_through_key:
  assumes "distinct (map f xs)" and "\<forall>x \<in> set xs. f x = k (h x)"
  shows "distinct (map h xs)"
proof -
  have "inj_on h (set xs)"
  proof (rule inj_onI)
    fix x y
    assume x: "x \<in> set xs" and y: "y \<in> set xs" and e: "h x = h y"
    have "f x = f y" using assms(2) x y e by simp
    then show "x = y" using assms(1) x y by (simp add: distinct_map inj_on_def)
  qed
  then show ?thesis using assms(1) by (simp add: distinct_map)
qed

lemma degraded_customer_keys:
  "customerKey_of (degraded_rows ! 0) = ''auxia@veeryoffices.com''"
  "customerKey_of (degraded_rows ! 1) = ''auxia@veeryoffices.com''"
  "customerKey_of (degraded_rows ! 2) = ''auxia@veeryoffices.com''"
  "order_date (degraded_rows ! 0) = ''2024-01-15T10:30:00-05:00''"
  "order_date (degraded_rows ! 1) = ''2024-01-20T09:00:00-05:00''"
  "order_date (degraded_rows ! 2) = ''2024-01-31T22:00:00-05:00''"
  "spec_customer_key (sample_order i c) = ''auxia@veeryoffices.com''"
  by (simp_all add: degraded_rows_def sample_row_def customerKey_of_def spec_customer_key_def
        sample_order_def)

text \<open>
  C8. The groups of a report are keyed by customer key and month. The keys of the Map
  are distinct, and each is the customer key and the month of its group joined by a
  bar; no two entries of the summary have the same customer key and month. Every row
  lands in the entry with the row's customer key and the row's month (the first seven
  characters of the UTC ISO text of its date), and an entry counts exactly the rows
  that agree with it on both, at least one: so two rows that agree on both land in the
  same group, and two rows that differ in either land in different groups. The
  customer key of a row is the email of the order's customer if present, else the
  identifier as text, else \<open>unknown\<close>.
\<close>

theorem rows_are_grouped_by_customer_and_month:
  assumes "post_report rt up body = (calls, Report rep)"
  shows "(\<exists>groups. group_rows rt (b_metric body) [] (detail rep) = Inr groups
            \<and> summary rep = map (summary_of \<circ> snd) groups
            \<and> distinct (map fst groups)
            \<and> (\<forall>kg \<in> set groups. fst kg = g_customer (snd kg) @ ''|'' @ g_month (snd kg)))
         \<and> distinct (map (\<lambda>s. (s_customer s, s_month s)) (summary rep))
         \<and> (\<forall>r \<in> set (detail rep). \<exists>s \<in> set (summary rep).
               s_customer s = customerKey_of r \<and> monthKey rt (order_date r) = Inr (s_month s))
         \<and> (\<forall>s \<in> set (summary rep).
               s_orders s = length (rows_of_group rt (s_customer s) (s_month s) (detail rep))
               \<and> 0 < s_orders s)
         \<and> (\<exists>orders. snd (fetch_orders up (report_query rt body) [] [] None 0) = Inr orders
               \<and> map customerKey_of (detail rep) = map spec_customer_key orders)"
proof -
  obtain groups where
    g: "group_rows rt (b_metric body) [] (detail rep) = Inr groups"
    and s: "summary rep = map (summary_of \<circ> snd) groups"
    using post_report_groups [OF assms] by blast
  have d: "distinct (map fst groups)"
    using group_rows_distinct [OF g] by simp
  have k: "\<forall>kg \<in> set groups. fst kg = g_customer (snd kg) @ ''|'' @ g_month (snd kg)"
    using group_rows_group(1) [OF g] by auto
  have "distinct (map (\<lambda>kg. (g_customer (snd kg), g_month (snd kg))) groups)"
    by (rule distinct_through_key [OF d, where k = "\<lambda>(c, m). c @ ''|'' @ m"]) (simp add: k)
  then have p: "distinct (map (\<lambda>s. (s_customer s, s_month s)) (summary rep))"
    by (simp add: s comp_def summary_of_fields)
  have c: "\<exists>e \<in> set (summary rep).
             s_customer e = customerKey_of r \<and> monthKey rt (order_date r) = Inr (s_month e)"
    if r: "r \<in> set (detail rep)" for r
  proof -
    obtain gr where kg: "(group_key rt r, gr) \<in> set groups"
      using group_rows_covers [OF g r] by blast
    have dt: "monthKey rt (order_date r) = Inr (month_of rt r)"
      by (rule group_rows_dated [OF g r])
    have l: "length (month_of rt r) = length (g_month gr)"
      using length_monthKey [OF dt] group_rows_group(2) [OF g kg] by simp
    have "customerKey_of r @ ''|'' @ month_of rt r = g_customer gr @ ''|'' @ g_month gr"
      using group_rows_group(1) [OF g kg] by (simp add: group_key_def)
    then have "customerKey_of r = g_customer gr \<and> month_of rt r = g_month gr"
      using key_injective [OF l] by blast
    moreover have "summary_of gr \<in> set (summary rep)"
      using kg by (force simp add: s)
    ultimately show ?thesis using dt by (auto simp add: summary_of_fields intro!: bexI)
  qed
  have n: "s_orders e = length (rows_of_group rt (s_customer e) (s_month e) (detail rep))
           \<and> 0 < s_orders e"
    if e: "e \<in> set (summary rep)" for e
  proof -
    from e obtain kk gr where kg: "(kk, gr) \<in> set groups" and eg: "e = summary_of gr"
      by (auto simp add: s)
    show ?thesis
      using group_rows_group(5,6) [OF g kg] by (simp add: eg summary_of_fields)
  qed
  obtain orders where
    f: "snd (fetch_orders up (report_query rt body) [] [] None 0) = Inr orders"
    and dd: "detail rep = map (\<lambda>ord. snd (enrich_order rt up ord)) orders"
    using post_report_detail [OF assms] by blast
  have ck: "map customerKey_of (detail rep) = map spec_customer_key orders"
    by (simp add: dd comp_def customerKey_of_enrich)
  show ?thesis using g s d k p c n f ck by blast
qed

theorem rows_are_grouped_by_customer_and_month_witness:
  "post_report sample_runtime degraded_upstream sample_body = (degraded_calls, Report degraded_report)
   \<and> map (\<lambda>s. (s_customer s, s_month s)) (summary degraded_report)
       = [(''auxia@veeryoffices.com'', ''2024-01''), (''auxia@veeryoffices.com'', ''2024-02'')]
   \<and> map customerKey_of (detail degraded_report)
       = [''auxia@veeryoffices.com'', ''auxia@veeryoffices.com'', ''auxia@veeryoffices.com'']
   \<and> map (\<lambda>r. monthKey sample_runtime (order_date r)) (detail degraded_report)
       = [Inr ''2024-01'', Inr ''2024-01'', Inr ''2024-02'']
   \<and> map s_orders (summary degraded_report) = [2, 1]
   \<and> rows_of_group sample_runtime ''auxia@veeryoffices.com'' ''2024-01'' (detail degraded_report)
       = [degraded_rows ! 0, degraded_rows ! 1]
   \<and> rows_of_group sample_runtime ''auxia@veeryoffices.com'' ''2024-02'' (detail degraded_report)
       = [degraded_rows ! 2]
   \<and> map spec_customer_key degraded_orders
       = [''auxia@veeryoffices.com'', ''auxia@veeryoffices.com'', ''auxia@veeryoffices.com'']"
proof -
  have "distinct (map (\<lambda>s. (s_customer s, s_month s)) (summary degraded_report))"
    using rows_are_grouped_by_customer_and_month [OF degraded_eval] by blast
  moreover have "map (\<lambda>s. (s_customer s, s_month s)) (summary degraded_report)
       = [(''auxia@veeryoffices.com'', ''2024-01''), (''auxia@veeryoffices.com'', ''2024-02'')]"
    by (simp add: degraded_report_def degraded_groups_def summary_of_fields)
  moreover have "map s_orders (summary degraded_report) = [2, 1]"
    by (simp add: degraded_report_def degraded_groups_def summary_of_fields)
  moreover have "map customerKey_of (detail degraded_report)
       = [''auxia@veeryoffices.com'', ''auxia@veeryoffices.com'', ''auxia@veeryoffices.com'']"
    by (simp add: degraded_report_def degraded_rows_def sample_row_def customerKey_of_def)
  moreover have "map (\<lambda>r. monthKey sample_runtime (order_date r)) (detail degraded_report)
       = [Inr ''2024-01'', Inr ''2024-01'', Inr ''2024-02'']"
    by (simp add: degraded_report_def degraded_rows_def sample_row_def sample_months)
  moreover have "map spec_customer_key degraded_orders
       = [''auxia@veeryoffices.com'', ''auxia@veeryoffices.com'', ''auxia@veeryoffices.com'']"
    by (simp add: degraded_orders_def sample_orders_def degraded_customer_keys)
  ultimately show ?thesis
    using degraded_eval by (simp add: degraded_summary degraded_rows_of_group)
qed

section \<open>The fetch loop\<close>

lemma chunk_of_simps:
  "chunk_of (s, Inr chunk) = chunk" "chunk_of (s, Inl err) = []"
  by (simp_all add: chunk_of_def)

lemma fetch_pages_cases:
  obtains (failed) err where "orders_page up n q since_id = Inl err"
      "fetch_pages up q n since_id tot = [(since_id, Inl err)]"
  | (stop) chunk where "orders_page up n q since_id = Inr chunk"
      "length chunk < 250 \<or> 10000 < tot + length chunk"
      "fetch_pages up q n since_id tot = [(since_id, Inr chunk)]"
  | (more) chunk where "orders_page up n q since_id = Inr chunk"
      "250 \<le> length chunk" "tot + length chunk \<le> 10000"
      "fetch_pages up q n since_id tot
         = (since_id, Inr chunk) # fetch_pages up q (Suc n) (next_since chunk) (tot + length chunk)"
proof (cases "orders_page up n q since_id")
  case (Inl err)
  then show ?thesis using failed by (simp add: fetch_pages.simps [of up q n])
next
  case (Inr chunk)
  show ?thesis
  proof (cases "length chunk < 250 \<or> 10000 < tot + length chunk")
    case True
    then show ?thesis using stop Inr by (simp add: fetch_pages.simps [of up q n])
  next
    case False
    then show ?thesis using more [of chunk] Inr
      by (simp add: fetch_pages.simps [of up q n] next_since_def)
  qed
qed

lemma fetch_pages_not_Nil: "fetch_pages up q n since_id tot \<noteq> []"
  by (cases rule: fetch_pages_cases [of up n q since_id tot]) simp_all

lemma fetch_orders_pages:
  "fetch_orders up q calls orders since_id tot =
     (calls @ map (\<lambda>p. OrdersPage q (fst p)) (fetch_pages up q (length calls) since_id tot),
      case snd (last (fetch_pages up q (length calls) since_id tot)) of
        Inl err \<Rightarrow> Inl err
      | Inr chunk \<Rightarrow> Inr (orders @ concat (map chunk_of (fetch_pages up q (length calls) since_id tot))))"
proof (induction up q calls orders since_id tot rule: fetch_orders.induct)
  case (1 up q calls orders since_id totalFetched)
  show ?case
  proof (cases rule: fetch_pages_cases [of up "length calls" q since_id totalFetched])
    case (failed err)
    then show ?thesis
      by (simp add: fetch_orders.simps [of up q calls])
  next
    case (stop chunk)
    then show ?thesis
      by (auto simp add: fetch_orders.simps [of up q calls] chunk_of_simps)
  next
    case (more chunk)
    have c: "\<not> length chunk < 250" "\<not> 10000 < totalFetched + length chunk"
      using more(2,3) by simp_all
    have step: "fetch_orders up q calls orders since_id totalFetched
                  = fetch_orders up q (calls @ [OrdersPage q since_id]) (orders @ chunk)
                      (next_since chunk) (totalFetched + length chunk)"
      using more(1) c by (subst fetch_orders.simps) (simp add: next_since_def)
    have ih: "fetch_orders up q (calls @ [OrdersPage q since_id]) (orders @ chunk)
                (next_since chunk) (totalFetched + length chunk)
              = ((calls @ [OrdersPage q since_id])
                   @ map (\<lambda>p. OrdersPage q (fst p))
                       (fetch_pages up q (Suc (length calls)) (next_since chunk) (totalFetched + length chunk)),
                 case snd (last (fetch_pages up q (Suc (length calls)) (next_since chunk)
                                   (totalFetched + length chunk))) of
                   Inl err \<Rightarrow> Inl err
                 | Inr c \<Rightarrow> Inr ((orders @ chunk)
                             @ concat (map chunk_of (fetch_pages up q (Suc (length calls))
                                 (next_since chunk) (totalFetched + length chunk)))))"
      using "1.IH" [OF more(1) c, folded next_since_def] by (simp cong: sum.case_cong)
    show ?thesis
      unfolding step ih more(4)
      by (simp add: fetch_pages_not_Nil chunk_of_simps cong: sum.case_cong)
  qed
qed

lemma length_fetch_pages:
  "tot \<le> 10000 \<Longrightarrow> length (fetch_pages up q n since_id tot) \<le> (10000 - tot) div 250 + 1"
proof (induction up q n since_id tot rule: fetch_pages.induct)
  case (1 up q n since_id totalFetched)
  show ?case
  proof (cases rule: fetch_pages_cases [of up n q since_id totalFetched])
    case (failed err)
    then show ?thesis by simp
  next
    case (stop chunk)
    then show ?thesis by simp
  next
    case (more chunk)
    have c: "\<not> (length chunk < 250 \<or> 10000 < totalFetched + length chunk)"
      using more(2,3) by simp
    have "length (fetch_pages up q (Suc n) (next_since chunk) (totalFetched + length chunk))
            \<le> (10000 - (totalFetched + length chunk)) div 250 + 1"
      using "1.IH" [OF more(1) c] more(3) by (simp add: next_since_def)
    also have "\<dots> \<le> (10000 - totalFetched - 250) div 250 + 1"
      using more(2) by (simp add: div_le_mono)
    also have "\<dots> \<le> (10000 - totalFetched) div 250"
      using more(2,3) by (simp add: le_div_geq)
    finally show ?thesis by (simp add: more(4))
  qed
qed

lemma fetch_pages_answers:
  "j < length (fetch_pages up q n since_id tot) \<Longrightarrow>
     snd (fetch_pages up q n since_id tot ! j)
       = orders_page up (n + j) q (fst (fetch_pages up q n since_id tot ! j))"
proof (induction up q n since_id tot arbitrary: j rule: fetch_pages.induct)
  case (1 up q n since_id totalFetched)
  show ?case
  proof (cases rule: fetch_pages_cases [of up n q since_id totalFetched])
    case (failed err)
    then show ?thesis using "1.prems" by simp
  next
    case (stop chunk)
    then show ?thesis using "1.prems" by simp
  next
    case (more chunk)
    have c: "\<not> (length chunk < 250 \<or> 10000 < totalFetched + length chunk)"
      using more(2,3) by simp
    show ?thesis
    proof (cases j)
      case 0
      then show ?thesis by (simp add: more(4) more(1))
    next
      case (Suc i)
      then show ?thesis
        using "1.IH" [OF more(1) c, of i] "1.prems"
        by (simp add: more(4) next_since_def)
    qed
  qed
qed

lemma fetch_pages_since:
  "fst (fetch_pages up q n since_id tot ! 0) = since_id"
  "Suc j < length (fetch_pages up q n since_id tot) \<Longrightarrow>
     fst (fetch_pages up q n since_id tot ! Suc j)
       = next_since (chunk_of (fetch_pages up q n since_id tot ! j))"
proof -
  show "fst (fetch_pages up q n since_id tot ! 0) = since_id"
    by (cases rule: fetch_pages_cases [of up n q since_id tot]) simp_all
  show "Suc j < length (fetch_pages up q n since_id tot) \<Longrightarrow>
     fst (fetch_pages up q n since_id tot ! Suc j)
       = next_since (chunk_of (fetch_pages up q n since_id tot ! j))"
  proof (induction up q n since_id tot arbitrary: j rule: fetch_pages.induct)
    case (1 up q n since_id totalFetched)
    show ?case
    proof (cases rule: fetch_pages_cases [of up n q since_id totalFetched])
      case (failed err)
      then show ?thesis using "1.prems" by simp
    next
      case (stop chunk)
      then show ?thesis using "1.prems" by simp
    next
      case (more chunk)
      have c: "\<not> (length chunk < 250 \<or> 10000 < totalFetched + length chunk)"
        using more(2,3) by simp
      have h: "fst (fetch_pages up q (Suc n) (next_since chunk) (totalFetched + length chunk) ! 0)
                 = next_since chunk"
        by (cases rule: fetch_pages_cases [of up "Suc n" q "next_since chunk" "totalFetched + length chunk"])
           simp_all
      show ?thesis
      proof (cases j)
        case 0
        then show ?thesis by (simp add: more(4) h chunk_of_simps)
      next
        case (Suc i)
        then show ?thesis
          using "1.IH" [OF more(1) c, of i] "1.prems"
          by (simp add: more(4) next_since_def)
      qed
    qed
  qed
qed

lemma fetch_pages_full:
  "p \<in> set (butlast (fetch_pages up q n since_id tot)) \<Longrightarrow>
     \<exists>chunk. snd p = Inr chunk \<and> 250 \<le> length chunk"
proof (induction up q n since_id tot rule: fetch_pages.induct)
  case (1 up q n since_id totalFetched)
  show ?case
  proof (cases rule: fetch_pages_cases [of up n q since_id totalFetched])
    case (failed err)
    then show ?thesis using "1.prems" by simp
  next
    case (stop chunk)
    then show ?thesis using "1.prems" by simp
  next
    case (more chunk)
    have c: "\<not> (length chunk < 250 \<or> 10000 < totalFetched + length chunk)"
      using more(2,3) by simp
    show ?thesis
      using "1.IH" [OF more(1) c] "1.prems" more(2)
      by (auto simp add: more(4) fetch_pages_not_Nil next_since_def)
  qed
qed

lemma fetch_pages_last:
  "tot + length (concat (map chunk_of (butlast (fetch_pages up q n since_id tot)))) \<le> 10000 \<or> 10000 < tot"
  "snd (last (fetch_pages up q n since_id tot)) = Inr chunk \<Longrightarrow>
     length chunk < 250
     \<or> 10000 < tot + length (concat (map chunk_of (fetch_pages up q n since_id tot)))"
proof -
  show "tot + length (concat (map chunk_of (butlast (fetch_pages up q n since_id tot)))) \<le> 10000 \<or> 10000 < tot"
  proof (induction up q n since_id tot rule: fetch_pages.induct)
    case (1 up q n since_id totalFetched)
    show ?case
    proof (cases rule: fetch_pages_cases [of up n q since_id totalFetched])
      case (failed err)
      then show ?thesis by auto
    next
      case (stop chunk)
      then show ?thesis by auto
    next
      case (more chunk)
      have c: "\<not> (length chunk < 250 \<or> 10000 < totalFetched + length chunk)"
        using more(2,3) by simp
      show ?thesis
        using "1.IH" [OF more(1) c] more(3)
        by (auto simp add: more(4) fetch_pages_not_Nil chunk_of_simps next_since_def)
    qed
  qed
  show "snd (last (fetch_pages up q n since_id tot)) = Inr chunk \<Longrightarrow>
     length chunk < 250
     \<or> 10000 < tot + length (concat (map chunk_of (fetch_pages up q n since_id tot)))"
  proof (induction up q n since_id tot rule: fetch_pages.induct)
    case (1 up q n since_id totalFetched)
    show ?case
    proof (cases rule: fetch_pages_cases [of up n q since_id totalFetched])
      case (failed err)
      then show ?thesis using "1.prems" by simp
    next
      case (stop c')
      then show ?thesis using "1.prems" by (auto simp add: chunk_of_simps)
    next
      case (more c')
      have c: "\<not> (length c' < 250 \<or> 10000 < totalFetched + length c')"
        using more(2,3) by simp
      show ?thesis
        using "1.IH" [OF more(1) c] "1.prems"
        by (auto simp add: more(4) fetch_pages_not_Nil chunk_of_simps next_since_def)
    qed
  qed
qed

lemma filter_after:
  assumes "sorted_wrt (<) (map f xs)" and "n < length xs"
  shows "filter (\<lambda>x. (f (xs ! n) :: nat) < f x) xs = drop (Suc n) xs"
proof -
  have nth: "\<And>i j. i < j \<Longrightarrow> j < length xs \<Longrightarrow> f (xs ! i) < f (xs ! j)"
    using assms(1) by (simp add: sorted_wrt_iff_nth_less)
  have a: "filter (\<lambda>x. f (xs ! n) < f x) (take (Suc n) xs) = []"
  proof -
    have "\<not> f (xs ! n) < f x" if "x \<in> set (take (Suc n) xs)" for x
    proof -
      from that obtain i where i: "i < Suc n" "i < length xs" "x = xs ! i"
        by (auto simp add: in_set_conv_nth)
      show ?thesis
      proof (cases "i = n")
        case True
        then show ?thesis using i by simp
      next
        case False
        then have "f (xs ! i) < f (xs ! n)" using nth [of i n] i assms(2) by simp
        then show ?thesis using i by simp
      qed
    qed
    then show ?thesis by (simp add: filter_empty_conv)
  qed
  have b: "filter (\<lambda>x. f (xs ! n) < f x) (drop (Suc n) xs) = drop (Suc n) xs"
  proof -
    have "f (xs ! n) < f x" if "x \<in> set (drop (Suc n) xs)" for x
    proof -
      from that obtain i where i: "i < length xs - Suc n" "x = xs ! (Suc n + i)"
        by (auto simp add: in_set_conv_nth)
      then show ?thesis using nth [of n "Suc n + i"] by simp
    qed
    then show ?thesis by (simp add: filter_id_conv)
  qed
  have "filter (\<lambda>x. f (xs ! n) < f x) xs
          = filter (\<lambda>x. f (xs ! n) < f x) (take (Suc n) xs @ drop (Suc n) xs)"
    by simp
  also have "\<dots> = drop (Suc n) xs"
    unfolding filter_append a b by simp
  finally show ?thesis .
qed

lemma paged_page:
  assumes "sorted_wrt (<) (map o_id matching)" and "tot \<le> length matching"
    and "since_id = (if tot = 0 then None else Some (o_id (matching ! (tot - 1))))"
  shows "paged_listing matching n q since_id = Inr (take 250 (drop tot matching))"
proof (cases "tot = 0")
  case True
  then show ?thesis using assms(3) by (simp add: paged_listing_def)
next
  case False
  then have "filter (\<lambda>ord. o_id (matching ! (tot - 1)) < o_id ord) matching = drop tot matching"
    using filter_after [OF assms(1), of "tot - 1"] assms(2) by simp
  then show ?thesis using False assms(3) by (simp add: paged_listing_def)
qed

lemma paged_pages:
  assumes "\<forall>n since_id. orders_page up n q since_id = paged_listing matching n q since_id"
    and "sorted_wrt (<) (map o_id matching)"
    and "\<forall>ord \<in> set matching. 0 < o_id ord"
    and "250 dvd tot" and "tot \<le> 10000" and "tot \<le> length matching"
    and "since_id = (if tot = 0 then None else Some (o_id (matching ! (tot - 1))))"
  shows "concat (map chunk_of (fetch_pages up q n since_id tot)) = take (10250 - tot) (drop tot matching)
         \<and> \<not> isl (snd (last (fetch_pages up q n since_id tot)))
         \<and> length (fetch_pages up q n since_id tot)
             = min 41 (length matching div 250 + 1) - tot div 250"
  using assms
proof (induction up q n since_id tot rule: fetch_pages.induct)
  case (1 up q n since_id totalFetched)
  from "1.prems"(4) obtain k where k: "totalFetched = 250 * k" by (auto simp add: dvd_def)
  have k40: "k \<le> 40" using "1.prems"(5) k by simp
  have page: "orders_page up n q since_id = Inr (take 250 (drop totalFetched matching))"
    using paged_page [OF "1.prems"(2) "1.prems"(6) "1.prems"(7)] "1.prems"(1) by simp
  show ?case
  proof (cases rule: fetch_pages_cases [of up n q since_id totalFetched])
    case (failed err)
    then show ?thesis using page by simp
  next
    case (stop chunk)
    then have c: "chunk = take 250 (drop totalFetched matching)" using page by simp
    show ?thesis
    proof (cases "length chunk < 250")
      case True
      then have short: "length matching < totalFetched + 250"
        using c by (simp add: min_def split: if_splits)
      then have d: "length matching div 250 = k"
        using "1.prems"(6) k by (simp add: div_nat_eqI)
      have "take 250 (drop totalFetched matching) = take (10250 - totalFetched) (drop totalFetched matching)"
        using short "1.prems"(5) by simp
      then show ?thesis
        using stop(3) c k40 by (simp add: chunk_of_simps d k)
    next
      case False
      then have len: "length chunk = 250" using c by simp
      then have "10000 < totalFetched + 250" using stop(2) False by simp
      then have kk: "k = 40" using k k40 by simp
      have long: "10250 \<le> length matching"
        using len c kk k by (simp add: min_def split: if_splits)
      then have "41 \<le> length matching div 250"
        by (simp add: le_div_geq)
      then show ?thesis
        using stop(3) c kk k by (simp add: chunk_of_simps min_def)
    qed
  next
    case (more chunk)
    then have c: "chunk = take 250 (drop totalFetched matching)" using page by simp
    have len: "length chunk = 250" using more(2) c by simp
    then have long: "totalFetched + 250 \<le> length matching"
      using c by (simp add: min_def split: if_splits)
    have cond: "\<not> (length chunk < 250 \<or> 10000 < totalFetched + length chunk)"
      using more(2,3) by simp
    have lastc: "last chunk = matching ! (totalFetched + 249)"
    proof -
      have "chunk \<noteq> []" using len by auto
      then have "last chunk = chunk ! 249" using len by (simp add: last_conv_nth)
      also have "\<dots> = matching ! (totalFetched + 249)"
        using c long by simp
      finally show ?thesis .
    qed
    have "matching ! (totalFetched + 249) \<in> set matching"
      using long by simp
    then have pos: "0 < o_id (last chunk)"
      using "1.prems"(3) lastc by simp
    have ns: "next_since chunk = Some (o_id (matching ! (totalFetched + length chunk - 1)))"
      using pos lastc by (simp add: next_since_def len add.commute)
    have ih: "concat (map chunk_of (fetch_pages up q (Suc n) (next_since chunk) (totalFetched + length chunk)))
                = take (10250 - (totalFetched + length chunk)) (drop (totalFetched + length chunk) matching)
              \<and> \<not> isl (snd (last (fetch_pages up q (Suc n) (next_since chunk) (totalFetched + length chunk))))
              \<and> length (fetch_pages up q (Suc n) (next_since chunk) (totalFetched + length chunk))
                  = min 41 (length matching div 250 + 1) - (totalFetched + length chunk) div 250"
    proof -
      have i4: "250 dvd totalFetched + length chunk" using "1.prems"(4) len by simp
      have i5: "totalFetched + length chunk \<le> 10000" using more(3) .
      have i6: "totalFetched + length chunk \<le> length matching" using long len by simp
      have i7: "(if o_id (last chunk) = 0 then None else Some (o_id (last chunk)))
                  = (if totalFetched + length chunk = 0 then None
                     else Some (o_id (matching ! (totalFetched + length chunk - 1))))"
        using ns len by (simp add: next_since_def)
      show ?thesis
        using "1.IH" [OF more(1) cond "1.prems"(1) "1.prems"(2) "1.prems"(3) i4 i5 i6 i7]
        by (simp add: next_since_def)
    qed
    have t: "chunk @ take (10250 - (totalFetched + 250)) (drop (totalFetched + 250) matching)
               = take (10250 - totalFetched) (drop totalFetched matching)"
    proof -
      have "take (250 + (10250 - (totalFetched + 250))) (drop totalFetched matching)
              = take 250 (drop totalFetched matching)
                @ take (10250 - (totalFetched + 250)) (drop 250 (drop totalFetched matching))"
        by (rule take_add)
      moreover have "250 + (10250 - (totalFetched + 250)) = 10250 - totalFetched"
        using "1.prems"(5) by simp
      ultimately show ?thesis by (simp add: c add.commute)
    qed
    have dv: "(totalFetched + 250) div 250 = Suc k" using k by simp
    have ge: "Suc k \<le> min 41 (length matching div 250 + 1)"
    proof -
      have "250 * Suc k \<le> length matching" using long k by simp
      then have "Suc k \<le> length matching div 250"
        by (simp add: less_eq_div_iff_mult_less_eq mult.commute)
      moreover have "Suc k \<le> 41" using more(3) len k by simp
      ultimately show ?thesis by simp
    qed
    define rest where "rest = fetch_pages up q (Suc n) (next_since chunk) (totalFetched + length chunk)"
    have pages: "fetch_pages up q n since_id totalFetched = (since_id, Inr chunk) # rest"
      using more(4) by (simp add: rest_def)
    have rest: "rest \<noteq> []" by (simp add: rest_def fetch_pages_not_Nil)
    have r1: "concat (map chunk_of rest)
                = take (10250 - (totalFetched + 250)) (drop (totalFetched + 250) matching)"
      using ih by (simp add: rest_def len)
    have r2: "\<not> isl (snd (last rest))" using ih by (simp add: rest_def)
    have r3: "length rest = min 41 (length matching div 250 + 1) - Suc k"
      using ih dv by (simp add: rest_def len)
    have "concat (map chunk_of ((since_id, Inr chunk) # rest))
            = take (10250 - totalFetched) (drop totalFetched matching)"
      using r1 t by (simp add: chunk_of_simps)
    moreover have "\<not> isl (snd (last ((since_id, Inr chunk) # rest)))"
      using r2 rest by simp
    moreover have "length ((since_id, Inr chunk) # rest)
                     = min 41 (length matching div 250 + 1) - totalFetched div 250"
    proof -
      have "totalFetched div 250 = k" using k by simp
      then show ?thesis using r3 ge by (simp add: min_def split: if_splits)
    qed
    ultimately show ?thesis unfolding pages by blast
  qed
qed

lemma paged_fetch:
  assumes "\<forall>n since_id. orders_page up n q since_id = paged_listing matching n q since_id"
    and "sorted_wrt (<) (map o_id matching)"
    and "\<forall>ord \<in> set matching. 0 < o_id ord"
  shows "snd (fetch_orders up q [] [] None 0) = Inr (take 10250 matching)"
    and "length (fst (fetch_orders up q [] [] None 0)) = min 41 (length matching div 250 + 1)"
proof -
  have p: "concat (map chunk_of (fetch_pages up q 0 None 0)) = take (10250 - 0) (drop 0 matching)
           \<and> \<not> isl (snd (last (fetch_pages up q 0 None 0)))
           \<and> length (fetch_pages up q 0 None 0) = min 41 (length matching div 250 + 1) - 0 div 250"
    by (rule paged_pages [OF assms(1) assms(2) assms(3)]) simp_all
  obtain chunk where l: "snd (last (fetch_pages up q 0 None 0)) = Inr chunk"
    using p by (cases "snd (last (fetch_pages up q 0 None 0))") simp_all
  show "snd (fetch_orders up q [] [] None 0) = Inr (take 10250 matching)"
    using p l by (simp add: fetch_orders_pages)
  show "length (fst (fetch_orders up q [] [] None 0)) = min 41 (length matching div 250 + 1)"
    using p by (simp add: fetch_orders_pages)
qed


lemma paged_report:
  assumes "\<forall>n since_id. orders_page up n (report_query rt body) since_id
             = paged_listing matching n (report_query rt body) since_id"
    and "sorted_wrt (<) (map o_id matching)"
    and "\<forall>ord \<in> set matching. 0 < o_id ord"
    and "truthy (b_start body)" and "truthy (b_end body)"
    and "b_metric body = JStr ''billing'' \<or> b_metric body = JStr ''actual''"
    and "\<not> isl (toISOString (new_Date rt (b_start body)))"
    and "\<not> isl (toISOString (new_Date rt (b_end body)))"
    and "\<forall>ord \<in> set matching. \<not> isl (monthKey rt (o_created_at ord))"
  shows "\<exists>calls rep. post_report rt up body = (calls, Report rep)
           \<and> detail rep = map (\<lambda>ord. snd (enrich_order rt up ord)) (take 10250 matching)"
proof -
  have f: "snd (fetch_orders up (report_query rt body) [] [] None 0) = Inr (take 10250 matching)"
    by (rule paged_fetch(1) [OF assms(1) assms(2) assms(3)])
  have "\<forall>ord \<in> set (take 10250 matching). \<not> isl (monthKey rt (o_created_at ord))"
    using assms(9) by (blast dest: in_set_takeD)
  then have "\<exists>orders. snd (fetch_orders up (report_query rt body) [] [] None 0) = Inr orders
               \<and> (\<forall>ord \<in> set orders. \<not> isl (monthKey rt (o_created_at ord)))"
    using f by blast
  then have "\<exists>calls rep. post_report rt up body = (calls, Report rep)"
    unfolding post_report_Report_iff using assms(4-8) by blast
  then obtain calls rep where r: "post_report rt up body = (calls, Report rep)" by blast
  from post_report_detail [OF r] f
  have "detail rep = map (\<lambda>ord. snd (enrich_order rt up ord)) (take 10250 matching)" by auto
  then show ?thesis using r by blast
qed

lemma long_listing:
  "sorted_wrt (<) (map o_id long_listing)"
  "\<forall>ord \<in> set long_listing. 0 < o_id ord"
  "\<forall>ord \<in> set long_listing. \<not> isl (monthKey sample_runtime (o_created_at ord))"
  "length long_listing = 10300"
  "length (take 10250 long_listing) = 10250"
  "\<forall>n since_id. orders_page long_upstream n q since_id = paged_listing long_listing n q since_id"
  by (simp_all add: long_listing_def long_upstream_def sample_order_fields sample_months
        sorted_wrt_map o_def del: upt_rec_numeral)

text \<open>
  C9. The fetch loop returns after at most 41 page requests. Every page before the last
  one answered with at least 250 orders and left the count of fetched orders at 10000 or
  less, so the loop stops at the first page that fails, has fewer than 250 orders, or
  takes the count past 10000. A failed request is the only failure; otherwise the result
  is the orders of all the pages, the last one included. When the upstream pages the
  matching orders by ascending identifier, the result is the first 10250 of them: all
  of them when there are fewer, after \<open>min 41 (N div 250 + 1)\<close> requests. The report is
  then built from these orders, one row for each.
\<close>

theorem fetch_loop_stops_at_short_page_or_ceiling:
  assumes "fetch_orders up q [] [] None 0 = (calls, res)"
    and "pages = fetch_pages up q 0 None 0"
  shows "calls = map (\<lambda>p. OrdersPage q (fst p)) pages
         \<and> 0 < length pages \<and> length pages \<le> 41
         \<and> (\<forall>j < length pages. snd (pages ! j) = orders_page up j q (fst (pages ! j)))
         \<and> (\<forall>p \<in> set (butlast pages). \<exists>chunk. snd p = Inr chunk \<and> 250 \<le> length chunk)
         \<and> length (concat (map chunk_of (butlast pages))) \<le> 10000
         \<and> (case snd (last pages) of
               Inl err \<Rightarrow> res = Inl err
             | Inr chunk \<Rightarrow>
                 res = Inr (concat (map chunk_of pages))
                 \<and> (length chunk < 250 \<or> 10000 < length (concat (map chunk_of pages))))
         \<and> ((\<forall>n since_id. orders_page up n q since_id = paged_listing matching n q since_id)
              \<and> sorted_wrt (<) (map o_id matching) \<and> (\<forall>ord \<in> set matching. 0 < o_id ord)
            \<longrightarrow> res = Inr (take 10250 matching)
                \<and> length calls = min 41 (length matching div 250 + 1)
                \<and> (q = report_query rt body
                      \<and> truthy (b_start body) \<and> truthy (b_end body)
                      \<and> (b_metric body = JStr ''billing'' \<or> b_metric body = JStr ''actual'')
                      \<and> \<not> isl (toISOString (new_Date rt (b_start body)))
                      \<and> \<not> isl (toISOString (new_Date rt (b_end body)))
                      \<and> (\<forall>ord \<in> set matching. \<not> isl (monthKey rt (o_created_at ord)))
                    \<longrightarrow> (\<exists>calls' rep. post_report rt up body = (calls', Report rep)
                           \<and> detail rep
                               = map (\<lambda>ord. snd (enrich_order rt up ord)) (take 10250 matching))))"
proof -
  have f: "fetch_orders up q [] [] None 0
             = (map (\<lambda>p. OrdersPage q (fst p)) pages,
                case snd (last pages) of
                  Inl err \<Rightarrow> Inl err
                | Inr chunk \<Rightarrow> Inr (concat (map chunk_of pages)))"
    unfolding assms(2) using fetch_orders_pages [of up q "[]" "[]" None 0]
    by (simp cong: sum.case_cong)
  have c1: "calls = map (\<lambda>p. OrdersPage q (fst p)) pages"
    using f assms(1) by simp
  have c2: "0 < length pages"
    unfolding assms(2) using fetch_pages_not_Nil [of up q 0 None 0] by simp
  have c3: "length pages \<le> 41"
    unfolding assms(2) using length_fetch_pages [of 0 up q 0 None] by simp
  have c4: "\<forall>j < length pages. snd (pages ! j) = orders_page up j q (fst (pages ! j))"
    unfolding assms(2) using fetch_pages_answers [of _ up q 0 None 0] by simp
  have c5: "\<forall>p \<in> set (butlast pages). \<exists>chunk. snd p = Inr chunk \<and> 250 \<le> length chunk"
    unfolding assms(2) using fetch_pages_full [of _ up q 0 None 0] by blast
  have c6: "length (concat (map chunk_of (butlast pages))) \<le> 10000"
    unfolding assms(2) using fetch_pages_last(1) [of 0 up q 0 None] by simp
  have c7: "case snd (last pages) of
               Inl err \<Rightarrow> res = Inl err
             | Inr chunk \<Rightarrow>
                 res = Inr (concat (map chunk_of pages))
                 \<and> (length chunk < 250 \<or> 10000 < length (concat (map chunk_of pages)))"
  proof (cases "snd (last pages)")
    case (Inl err)
    then show ?thesis using f assms(1) by simp
  next
    case (Inr chunk)
    have "length chunk < 250 \<or> 10000 < 0 + length (concat (map chunk_of pages))"
      unfolding assms(2) by (rule fetch_pages_last(2)) (use Inr assms(2) in simp)
    then show ?thesis using f assms(1) Inr by simp
  qed
  have c8: "res = Inr (take 10250 matching) \<and> length calls = min 41 (length matching div 250 + 1)"
    if "\<forall>n since_id. orders_page up n q since_id = paged_listing matching n q since_id"
      and "sorted_wrt (<) (map o_id matching)" and "\<forall>ord \<in> set matching. 0 < o_id ord"
    using paged_fetch [OF that] assms(1) by simp
  have c9: "\<exists>calls' rep. post_report rt up body = (calls', Report rep)
              \<and> detail rep = map (\<lambda>ord. snd (enrich_order rt up ord)) (take 10250 matching)"
    if "\<forall>n since_id. orders_page up n q since_id = paged_listing matching n q since_id"
      and "sorted_wrt (<) (map o_id matching)" and "\<forall>ord \<in> set matching. 0 < o_id ord"
      and "q = report_query rt body" and "truthy (b_start body)" and "truthy (b_end body)"
      and "b_metric body = JStr ''billing'' \<or> b_metric body = JStr ''actual''"
      and "\<not> isl (toISOString (new_Date rt (b_start body)))"
      and "\<not> isl (toISOString (new_Date rt (b_end body)))"
      and "\<forall>ord \<in> set matching. \<not> isl (monthKey rt (o_created_at ord))"
    by (rule paged_report [OF that(1) [unfolded that(4)] that(2,3) that(5-10)])
  show ?thesis
    using c1 c2 c3 c4 c5 c6 c7 c8 c9 by blast
qed

theorem fetch_loop_stops_at_short_page_or_ceiling_witness:
  "snd (fetch_orders long_upstream sample_query [] [] None 0) = Inr (take 10250 long_listing)
   \<and> length (take 10250 long_listing) = 10250
   \<and> length (fst (fetch_orders long_upstream sample_query [] [] None 0)) = 41
   \<and> length (fetch_pages long_upstream sample_query 0 None 0) = 41
   \<and> (\<exists>calls rep. post_report sample_runtime long_upstream sample_body = (calls, Report rep)
         \<and> length (detail rep) = 10250)"
proof -
  note t = fetch_loop_stops_at_short_page_or_ceiling
             [where up = long_upstream and q = sample_query and rt = sample_runtime
                and body = sample_body and matching = long_listing,
              OF prod.collapse [symmetric] refl]
  have valid: "sample_query = report_query sample_runtime sample_body
               \<and> truthy (b_start sample_body) \<and> truthy (b_end sample_body)
               \<and> (b_metric sample_body = JStr ''billing'' \<or> b_metric sample_body = JStr ''actual'')
               \<and> \<not> isl (toISOString (new_Date sample_runtime (b_start sample_body)))
               \<and> \<not> isl (toISOString (new_Date sample_runtime (b_end sample_body)))"
    by (simp add: sample_report_query sample_body_fields sample_dates)
  have listed: "(\<forall>n since_id. orders_page long_upstream n sample_query since_id
                   = paged_listing long_listing n sample_query since_id)
                \<and> sorted_wrt (<) (map o_id long_listing)
                \<and> (\<forall>ord \<in> set long_listing. 0 < o_id ord)"
    using long_listing(1,2,6) by blast
  from t listed
  have a: "snd (fetch_orders long_upstream sample_query [] [] None 0) = Inr (take 10250 long_listing)"
    and b: "length (fst (fetch_orders long_upstream sample_query [] [] None 0))
              = min 41 (length long_listing div 250 + 1)"
    and c: "fst (fetch_orders long_upstream sample_query [] [] None 0)
              = map (\<lambda>p. OrdersPage sample_query (fst p)) (fetch_pages long_upstream sample_query 0 None 0)"
    by blast+
  from t listed valid long_listing(3)
  have "\<exists>calls rep. post_report sample_runtime long_upstream sample_body = (calls, Report rep)
          \<and> detail rep = map (\<lambda>ord. snd (enrich_order sample_runtime long_upstream ord))
                            (take 10250 long_listing)"
    by blast
  then have d: "\<exists>calls rep. post_report sample_runtime long_upstream sample_body = (calls, Report rep)
                  \<and> length (detail rep) = 10250"
    using long_listing(5) by auto
  have e: "length (fst (fetch_orders long_upstream sample_query [] [] None 0)) = 41"
    using b by (simp add: long_listing(4))
  have "length (fetch_pages long_upstream sample_query 0 None 0) = 41"
    using e unfolding c by simp
  then show ?thesis using a d e long_listing(5) by blast
qed

end
